(* ===== verification/Prelude.thy ===== *)
theory Prelude
  imports Main "HOL-Library.Word" "HOL-Library.Signed_Division"
begin

text \<open>
  Shared vocabulary of the development: C integers, results that can fault, statement
  lists, C buffers and character arrays, and a generic transition system with the locale
  through which invariants are proved. Nothing here is specific to ERPS.

  Target: FreeBSD on amd64, the platform the module is built for. \<open>int\<close> has 32 bits
  and wraps (the kernel is compiled with \<^verbatim>\<open>-fwrapv\<close>), 16-bit loads are little-endian.
\<close>

unbundle bit_operations_syntax

named_theorems c_simps \<open>evaluation rules of the C-level operations\<close>
named_theorems act_simps \<open>evaluation rules of the actions on a ring\<close>

type_synonym u8 = "8 word"
type_synonym u16 = "16 word"
type_synonym u32 = "32 word"
type_synonym i32 = "32 word"
type_synonym bytes = "8 word list"

section \<open>Results that can fault\<close>

text \<open>
  A pointer that is dereferenced while it is NULL and an access outside a buffer are
  values of the model, so that their absence is a theorem and not a convention. A program in
  user space can also leave by \<^verbatim>\<open>exit\<close> or by a failed \<^verbatim>\<open>assert\<close>.
\<close>

datatype fault = NullPtr | OutOfBounds | Exited | Aborted

fun bind_res :: "fault + 'a \<Rightarrow> ('a \<Rightarrow> fault + 'b) \<Rightarrow> fault + 'b" where
  "bind_res (Inl e) k = Inl e"
| "bind_res (Inr x) k = k x"

lemma bind_res_Inr_iff:
  "bind_res m k = Inr y \<longleftrightarrow> (\<exists>x. m = Inr x \<and> k x = Inr y)"
  by (cases m) auto

lemma bind_res_assoc: "bind_res (bind_res m k) l = bind_res m (\<lambda>x. bind_res (k x) l)"
  by (cases m) auto

text \<open>A statement is a function on the state; a block is a list of statements.\<close>

fun seqs :: "('s \<Rightarrow> fault + 's) list \<Rightarrow> 's \<Rightarrow> fault + 's" where
  "seqs [] s = Inr s"
| "seqs (a # as) s = bind_res (a s) (seqs as)"

fun cond :: "('s \<Rightarrow> fault + bool) \<Rightarrow> ('s \<Rightarrow> fault + 's) list \<Rightarrow> ('s \<Rightarrow> fault + 's) list
    \<Rightarrow> 's \<Rightarrow> fault + 's" where
  "cond c th el s = bind_res (c s) (\<lambda>b. if b then seqs th s else seqs el s)"

fun guard_do :: "('s \<Rightarrow> bool) \<Rightarrow> ('s \<Rightarrow> fault + 's) list \<Rightarrow> 's \<Rightarrow> fault + 's" where
  "guard_do c th s = (if c s then seqs th s else Inr s)"

lemma seqs_append: "seqs (as @ bs) s = bind_res (seqs as s) (seqs bs)"
proof (induction as arbitrary: s)
  case Nil
  then show ?case by simp
next
  case (Cons a as)
  then show ?case by (cases "a s") auto
qed

section \<open>Buffers\<close>

text \<open>
  \<open>data\<close> is the object a \<^verbatim>\<open>uint8_t *\<close> points at. Every access checks the bounds of the
  object; the \<^verbatim>\<open>int len\<close> the code passes along is a separate argument of the functions
  that take one, so a length check of the code has to imply the bound.
\<close>

definition load :: "bytes \<Rightarrow> nat \<Rightarrow> fault + u8" where
  "load data off = (if off < length data then Inr (data ! off) else Inl OutOfBounds)"

definition load_n :: "bytes \<Rightarrow> nat \<Rightarrow> nat \<Rightarrow> fault + bytes" where
  "load_n data off n =
     (if off + n \<le> length data then Inr (take n (drop off data)) else Inl OutOfBounds)"

definition memcpy_to :: "nat \<Rightarrow> bytes \<Rightarrow> bytes \<Rightarrow> fault + bytes" where
  "memcpy_to off src data =
     (if off + length src \<le> length data
      then Inr (take off data @ src @ drop (off + length src) data)
      else Inl OutOfBounds)"

definition memset_to :: "nat \<Rightarrow> u8 \<Rightarrow> bytes \<Rightarrow> fault + bytes" where
  "memset_to n v data = memcpy_to 0 (replicate n v) data"

lemma load_Inr_iff: "load data off = Inr b \<longleftrightarrow> off < length data \<and> b = data ! off"
  by (auto simp: load_def)

lemma load_n_Inr_iff:
  "load_n data off n = Inr bs \<longleftrightarrow> off + n \<le> length data \<and> bs = take n (drop off data)"
  by (auto simp: load_n_def)

lemma load_ok [c_simps]: "off < length data \<Longrightarrow> load data off = Inr (data ! off)"
  by (simp add: load_def)

lemma load_n_ok [c_simps]:
  "off + n \<le> length data \<Longrightarrow> load_n data off n = Inr (take n (drop off data))"
  by (simp add: load_n_def)

text \<open>\<^verbatim>\<open>memcmp\<close>: the sign of the first difference, bytes compared as unsigned.\<close>

fun memcmp :: "bytes \<Rightarrow> bytes \<Rightarrow> int" where
  "memcmp (a # as) (b # bs) = (if a < b then - 1 else if b < a then 1 else memcmp as bs)"
| "memcmp _ _ = 0"

lemma memcmp_eq_0_iff: "length as = length bs \<Longrightarrow> memcmp as bs = 0 \<longleftrightarrow> as = bs"
  by (induction as bs rule: memcmp.induct) auto

lemma memcmp_refl [simp]: "memcmp as as = 0"
  by (simp add: memcmp_eq_0_iff)

lemma memcmp_flip: "memcmp as bs < 0 \<longleftrightarrow> 0 < memcmp bs as"
  by (induction as bs rule: memcmp.induct) auto

lemma memcmp_neg_hd: "memcmp (a # as) (b # bs) < 0 \<Longrightarrow> a \<le> b"
  by (cases "a < b"; cases "b < a") (auto intro: less_imp_le)

lemma memcmp_neg_trans:
  "length as = length bs \<Longrightarrow> length bs = length cs \<Longrightarrow>
   memcmp as bs < 0 \<Longrightarrow> memcmp bs cs < 0 \<Longrightarrow> memcmp as cs < 0"
proof (induction as arbitrary: bs cs)
  case Nil
  then show ?case by simp
next
  case (Cons a as)
  from Cons.prems obtain b bs' c cs' where eq: "bs = b # bs'" "cs = c # cs'"
    by (cases bs; cases cs) auto
  show ?case
  proof (cases "a = b \<and> b = c")
    case True
    with Cons.IH [of bs' cs'] Cons.prems eq show ?thesis by simp
  next
    case False
    moreover have "a \<le> b" and "b \<le> c"
      using Cons.prems(3,4) unfolding eq by (blast dest: memcmp_neg_hd)+
    ultimately have "a < c" by (metis order.strict_trans1 order_le_imp_less_or_eq)
    with eq show ?thesis by simp
  qed
qed

section \<open>Character arrays\<close>

text \<open>
  A \<^verbatim>\<open>char[n]\<close> is a list of \<open>n\<close> characters, NUL included; \<open>cstr\<close> reads it as a C
  string. \<open>strncpy\<close> pads with NUL and does not terminate a source that fills the array;
  \<open>snprintf\<close> with size \<open>n\<close> keeps at most \<open>n - 1\<close> characters.
\<close>

abbreviation NUL :: char where "NUL \<equiv> CHR 0x00"

definition cstr :: "string \<Rightarrow> string" where
  "cstr a = takeWhile (\<lambda>c. c \<noteq> NUL) a"

definition strncpy :: "nat \<Rightarrow> string \<Rightarrow> string" where
  "strncpy n src = take n (cstr src @ replicate n NUL)"

definition snprintf_s :: "nat \<Rightarrow> string \<Rightarrow> string" where
  "snprintf_s n txt = take (n - 1) txt"

fun show_nat :: "nat \<Rightarrow> string" where
  "show_nat n = (if n < 10 then [char_of (48 + n)] else show_nat (n div 10) @ [char_of (48 + n mod 10)])"

declare show_nat.simps [simp del]

lemma length_strncpy [simp]: "length (strncpy n s) = n"
  by (simp add: strncpy_def)

lemma NUL_notin_cstr: "NUL \<notin> set (cstr a)"
  by (auto simp: cstr_def dest: set_takeWhileD)

lemma cstr_id: "NUL \<notin> set a \<Longrightarrow> cstr a = a"
  by (auto simp: cstr_def takeWhile_eq_all_conv)

lemma cstr_cstr [simp]: "cstr (cstr a) = cstr a"
  by (rule cstr_id) (rule NUL_notin_cstr)

lemma cstr_append_NUL: "NUL \<notin> set a \<Longrightarrow> cstr (a @ NUL # b) = a"
  by (simp add: cstr_def takeWhile_append2 cong: takeWhile_cong) (auto simp: takeWhile_append)

lemma cstr_strncpy: "cstr (strncpy n s) = take n (cstr s)"
proof (cases "n \<le> length (cstr s)")
  case True
  have "NUL \<notin> set (take n (cstr s))"
    using NUL_notin_cstr [of s] by (auto dest: in_set_takeD)
  with True show ?thesis by (simp add: strncpy_def cstr_id)
next
  case False
  then obtain k where "n = length (cstr s) + Suc k"
    by (metis less_iff_Suc_add not_le add_Suc_right)
  then show ?thesis
    using NUL_notin_cstr [of s] by (simp add: strncpy_def cstr_append_NUL min_def)
qed

section \<open>Transition systems and invariants\<close>

inductive reach :: "('s \<Rightarrow> bool) \<Rightarrow> ('s \<Rightarrow> 'e \<Rightarrow> 's \<Rightarrow> bool) \<Rightarrow> 's \<Rightarrow> bool"
  for init step where
  reach_init: "init s \<Longrightarrow> reach init step s"
| reach_step: "reach init step s \<Longrightarrow> step s e t \<Longrightarrow> reach init step t"

inductive run :: "('s \<Rightarrow> 'e \<Rightarrow> 's \<Rightarrow> bool) \<Rightarrow> 's \<Rightarrow> 'e list \<Rightarrow> 's \<Rightarrow> bool"
  for step where
  run_nil: "run step s [] s"
| run_cons: "step s e t \<Longrightarrow> run step t es u \<Longrightarrow> run step s (e # es) u"

lemma run_one: "step s e t \<Longrightarrow> run step s [e] t"
  by (rule run_cons [where t = t]) (simp_all add: run_nil)

lemma run_reach: "run step s es t \<Longrightarrow> reach init step s \<Longrightarrow> reach init step t"
  by (induction rule: run.induct) (auto intro: reach.reach_step)

text \<open>The interface every machine of the development is proved through.\<close>

locale machine =
  fixes init :: "'s \<Rightarrow> bool"
    and step :: "'s \<Rightarrow> 'e \<Rightarrow> 's \<Rightarrow> bool"
    and inv :: "'s \<Rightarrow> bool"
  assumes init_inv: "init s \<Longrightarrow> inv s"
    and step_inv: "step s e t \<Longrightarrow> inv s \<Longrightarrow> inv t"
begin

lemma reach_inv: "reach init step s \<Longrightarrow> inv s"
  by (induction rule: reach.induct) (auto intro: init_inv step_inv)

lemma run_inv: "run step s es t \<Longrightarrow> inv s \<Longrightarrow> inv t"
  by (induction rule: run.induct) (auto intro: step_inv)

end

text \<open>A machine whose invariant rules a set of states out, and one that never gets stuck.\<close>

locale safe_machine = machine init step inv
  for init :: "'s \<Rightarrow> bool" and step :: "'s \<Rightarrow> 'e \<Rightarrow> 's \<Rightarrow> bool" and inv :: "'s \<Rightarrow> bool" +
  fixes bad :: "'s \<Rightarrow> bool"
  assumes inv_safe: "inv s \<Longrightarrow> \<not> bad s"
begin

lemma reach_safe: "reach init step s \<Longrightarrow> \<not> bad s"
  using reach_inv inv_safe by blast

end

text \<open>
  A machine that is implemented by another one: every step of the concrete machine is a run of
  the abstract one between the abstractions of its states.
\<close>

locale implements = abstract: safe_machine init step inv bad
  for init :: "'a \<Rightarrow> bool" and step :: "'a \<Rightarrow> 'e \<Rightarrow> 'a \<Rightarrow> bool" and inv :: "'a \<Rightarrow> bool" and bad :: "'a \<Rightarrow> bool" +
  fixes cinit :: "'c \<Rightarrow> bool" and cstep :: "'c \<Rightarrow> 'd \<Rightarrow> 'c \<Rightarrow> bool" and abs :: "'c \<Rightarrow> 'a"
  assumes init_abs: "cinit c \<Longrightarrow> reach init step (abs c)"
    and step_abs: "cstep c d c' \<Longrightarrow> reach init step (abs c) \<Longrightarrow> reach init step (abs c')"
begin

lemma reach_abs: "reach cinit cstep c \<Longrightarrow> reach init step (abs c)"
  by (induction rule: reach.induct) (auto intro: init_abs step_abs)

lemma reach_abs_inv: "reach cinit cstep c \<Longrightarrow> inv (abs c)"
  using reach_abs abstract.reach_inv by blast

lemma reach_abs_safe: "reach cinit cstep c \<Longrightarrow> \<not> bad (abs c)"
  using reach_abs abstract.reach_safe by blast

end

end
