(* ===== verification/Kernel.thy ===== *)
theory Kernel
  imports Prelude
begin

text \<open>
  The FreeBSD kernel as the module sees it: \<^verbatim>\<open>src/src/sys/dev/erps/stdafx.h\<close> and
  \<^verbatim>\<open>stdafx.c\<close>. The kernel and netmap are not part of the repository, so their functions are
  the fields of a record \<open>'s kapi\<close> over an abstract kernel state \<open>'s\<close>; every function of the
  model that calls them takes the record and threads the state. Nothing is assumed about them
  here; a theorem that needs a documented law of theirs names it as a hypothesis.
\<close>

section \<open>Functions and constants the module imports\<close>

text \<open>The part of netmap's request block that the module fills in and reads back.\<close>

datatype nm_cmd = NETMAP_NO_CMD | NETMAP_BDG_ATTACH | NETMAP_BDG_DETACH | NETMAP_BDG_LIST
  | NETMAP_BDG_REGOPS

record nmreq =
  nr_name :: string
  nr_version :: int
  nr_cmd :: nm_cmd
  nr_flags :: int
  nr_arg1 :: int
  nr_arg2 :: int

text \<open>
  The mutex and the callout of a ring are named by the ring's address. What is being allocated
  stands for the size argument of \<^verbatim>\<open>malloc\<close>.\<close>

datatype kobj = OBJ_RING | OBJ_PORT | OBJ_RAPS | OBJ_FRAME int

record 's kapi =
  k_malloc :: "kobj \<Rightarrow> 's \<Rightarrow> nat option \<times> 's"
  k_free :: "nat \<Rightarrow> 's \<Rightarrow> 's"
  netmap_bdg_ctl :: "nmreq \<Rightarrow> bool \<Rightarrow> 's \<Rightarrow> int \<times> nmreq \<times> 's"
  netmap_get_na :: "nmreq \<Rightarrow> 's \<Rightarrow> int \<times> nat option \<times> 's"
  netmap_adapter_put :: "nat option \<Rightarrow> 's \<Rightarrow> 's"
  netmap_bdg_learning :: "bytes \<Rightarrow> u8 \<Rightarrow> int \<Rightarrow> 's \<Rightarrow> int \<times> 's"
  eventhandler_deregister :: "nat \<Rightarrow> 's \<Rightarrow> 's"
  mtx_init :: "nat \<Rightarrow> 's \<Rightarrow> 's"
  mtx_lock :: "nat \<Rightarrow> 's \<Rightarrow> 's"
  mtx_unlock :: "nat \<Rightarrow> 's \<Rightarrow> 's"
  mtx_destroy :: "nat \<Rightarrow> 's \<Rightarrow> 's"
  callout_init_mtx :: "nat \<Rightarrow> 's \<Rightarrow> 's"
  callout_drain :: "nat \<Rightarrow> 's \<Rightarrow> 's"
  make_dev_p :: "'s \<Rightarrow> int \<times> 's"
  destroy_dev :: "'s \<Rightarrow> 's"
  NETMAP_API :: int
  NR_REG_ALL_NIC :: int
  NM_BDG_NOPORT :: int
  sizeof_nr_name :: nat
  hz :: i32

text \<open>Constants of \<^verbatim>\<open><net/if.h>\<close> and \<^verbatim>\<open><sys/errno.h>\<close>.\<close>

abbreviation IFNAMSIZ :: nat where "IFNAMSIZ \<equiv> 16"
abbreviation ENXIO :: int where "ENXIO \<equiv> 6"
abbreviation EINVAL :: int where "EINVAL \<equiv> 22"
abbreviation EOPNOTSUPP :: int where "EOPNOTSUPP \<equiv> 45"

section \<open>Memory\<close>

text \<open>
  \<^verbatim>\<open>M_NOWAIT | M_ZERO\<close>: the result is NULL or the address of a zeroed object. The zeroed
  object itself is the \<open>_zero\<close> record of its type.
\<close>

definition er_malloc :: "'s kapi \<Rightarrow> kobj \<Rightarrow> 's \<Rightarrow> nat option \<times> 's" where
  "er_malloc api obj s = k_malloc api obj s"

definition er_free :: "'s kapi \<Rightarrow> nat \<Rightarrow> 's \<Rightarrow> 's" where
  "er_free api addr s = k_free api addr s"

section \<open>Ticks\<close>

text \<open>
  \<^verbatim>\<open>TICK_DIFF_MSEC(a,b)\<close> is \<^verbatim>\<open>(((a-b)*1000)/hz)\<close> on \<^verbatim>\<open>int\<close>: the difference and the product
  wrap at 32 bits and the division truncates towards zero.
\<close>

definition TICK_DIFF_MSEC :: "i32 \<Rightarrow> i32 \<Rightarrow> i32 \<Rightarrow> int" where
  "TICK_DIFF_MSEC h a b = sint ((a - b) * 1000) sdiv sint h"

lemma sint_of_nat_small:
  assumes "d < 2 ^ 31"
  shows "sint (of_nat d :: i32) = int d"
proof -
  have "signed_take_bit 31 (int d) = int d"
    using assms by (intro signed_take_bit_int_eq_self) auto
  then show ?thesis by (simp add: signed_of_nat)
qed

text \<open>As long as the product fits, the macro is the elapsed time in milliseconds.\<close>

lemma TICK_DIFF_MSEC_small:
  assumes "a - b = of_nat d" and "d * 1000 < 2 ^ 31" and "0 < sint h"
  shows "TICK_DIFF_MSEC h a b = int (d * 1000) div sint h"
proof -
  have "(a - b) * 1000 = (of_nat (d * 1000) :: i32)" using assms(1) by simp
  then have "sint ((a - b) * 1000) = int (d * 1000)"
    using sint_of_nat_small [OF assms(2)] by simp
  then show ?thesis
    using assms(3) by (simp add: TICK_DIFF_MSEC_def signed_divide_int_def sgn_if)
qed

section \<open>A concrete kernel, for witnesses\<close>

text \<open>
  A kernel that records what it is asked for: the live allocations, the names attached to VALE
  bridges, the adapter references and the
  mutexes. Allocation fails once \<open>ks_budget\<close> is used up, attaching a
  port named in \<open>ks_missing\<close> fails.
\<close>

record kstate =
  ks_next :: nat
  ks_live :: "(nat \<times> kobj) list"
  ks_budget :: nat
  ks_attached :: "string list"
  ks_missing :: "string list"
  ks_refs :: "nat list"
  ks_locks :: "nat list"

fun sample_bdg_ctl :: "nmreq \<Rightarrow> bool \<Rightarrow> kstate \<Rightarrow> int \<times> nmreq \<times> kstate" where
  "sample_bdg_ctl q ops s =
     (case nr_cmd q of
        NETMAP_BDG_ATTACH \<Rightarrow>
          (if nr_name q \<in> set (ks_missing s) \<union> set (ks_attached s) then (EINVAL, q, s)
           else (0, q, s\<lparr>ks_attached := ks_attached s @ [nr_name q]\<rparr>))
      | NETMAP_BDG_DETACH \<Rightarrow>
          (if nr_name q \<in> set (ks_attached s) then (0, q, s\<lparr>ks_attached := remove1 (nr_name q) (ks_attached s)\<rparr>)
           else (ENXIO, q, s))
      | NETMAP_BDG_LIST \<Rightarrow>
          (if nr_name q \<in> set (ks_attached s)
           then (0, q\<lparr>nr_arg1 := 0, nr_arg2 := int (length (takeWhile (\<lambda>n. n \<noteq> nr_name q) (ks_attached s)))\<rparr>, s)
           else (EINVAL, q, s))
      | _ \<Rightarrow> (0, q, s))"

definition sample_api :: "kstate kapi" where
  "sample_api = \<lparr>
     k_malloc = (\<lambda>obj s. if ks_budget s = 0 then (None, s)
        else (Some (ks_next s), s\<lparr>ks_next := Suc (ks_next s), ks_live := (ks_next s, obj) # ks_live s,
          ks_budget := ks_budget s - 1\<rparr>)),
     k_free = (\<lambda>a s. s\<lparr>ks_live := filter (\<lambda>p. fst p \<noteq> a) (ks_live s)\<rparr>),
     netmap_bdg_ctl = sample_bdg_ctl,
     netmap_get_na = (\<lambda>q s. (0, Some (ks_next s), s\<lparr>ks_next := Suc (ks_next s), ks_refs := ks_next s # ks_refs s\<rparr>)),
     netmap_adapter_put = (\<lambda>na s. case na of None \<Rightarrow> s | Some a \<Rightarrow> s\<lparr>ks_refs := remove1 a (ks_refs s)\<rparr>),
     netmap_bdg_learning = (\<lambda>ft ring_nr port s. (42, s)),
     eventhandler_deregister = (\<lambda>tag s. s),
     mtx_init = (\<lambda>r s. s\<lparr>ks_locks := r # ks_locks s\<rparr>), mtx_lock = (\<lambda>r s. s), mtx_unlock = (\<lambda>r s. s),
     mtx_destroy = (\<lambda>r s. s\<lparr>ks_locks := remove1 r (ks_locks s)\<rparr>),
     callout_init_mtx = (\<lambda>r s. s), callout_drain = (\<lambda>r s. s),
     make_dev_p = (\<lambda>s. (0, s)),
     destroy_dev = (\<lambda>s. s),
     NETMAP_API = 11, NR_REG_ALL_NIC = 1, NM_BDG_NOPORT = 255, sizeof_nr_name = 16, hz = 1000\<rparr>"

definition sample_kstate :: kstate where
  "sample_kstate = \<lparr>ks_next = 1, ks_live = [], ks_budget = 100, ks_attached = [], ks_missing = [], ks_refs = [], ks_locks = []\<rparr>"

end
