(* ===== verification/Port.thy ===== *)
theory Port
  imports Kernel
begin

text \<open>
  Ring ports: \<^verbatim>\<open>src/src/sys/dev/erps/er_port.h\<close> and the state operations of \<^verbatim>\<open>er_port.c\<close>.
  Creation and destruction, which call netmap, are in \<^verbatim>\<open>Netmap.thy\<close>.
\<close>

text \<open>
  \<open>port_na\<close>, \<open>ifp\<close> and \<open>link_event\<close> are pointers and a registration tag of the kernel;
  \<open>None\<close> is NULL. \<open>port_name\<close> is a \<^verbatim>\<open>char[IFNAMSIZ]\<close>.
\<close>

record er_port =
  port_name :: string
  port_na :: "nat option"
  port_ifp :: "nat option"
  idx :: int
  link_event :: "nat option"
  is_blocked :: bool
  is_failed :: bool

definition er_port_zero :: er_port where
  "er_port_zero = \<lparr>port_name = replicate IFNAMSIZ NUL, port_na = None, port_ifp = None, idx = 0,
     link_event = None, is_blocked = False, is_failed = False\<rparr>"

definition er_port_is_failed :: "er_port \<Rightarrow> bool" where
  "er_port_is_failed port = is_failed port"

definition er_port_is_blocked :: "er_port \<Rightarrow> bool" where
  "er_port_is_blocked port = is_blocked port"

definition er_port_unblock :: "er_port \<Rightarrow> er_port" where
  "er_port_unblock port = port\<lparr>is_blocked := False\<rparr>"

definition er_port_block :: "er_port \<Rightarrow> er_port" where
  "er_port_block port = port\<lparr>is_blocked := True\<rparr>"

lemma er_port_block_sel [act_simps]:
  "is_blocked (er_port_block p)" "\<not> is_blocked (er_port_unblock p)"
  "is_failed (er_port_block p) = is_failed p" "is_failed (er_port_unblock p) = is_failed p"
  "idx (er_port_block p) = idx p" "idx (er_port_unblock p) = idx p"
  "port_name (er_port_block p) = port_name p" "port_name (er_port_unblock p) = port_name p"
  "er_port_is_blocked p = is_blocked p" "er_port_is_failed p = is_failed p"
  by (simp_all add: er_port_block_def er_port_unblock_def er_port_is_blocked_def er_port_is_failed_def)

end
