(* ===== verification/Raps.thy ===== *)
theory Raps
  imports Prelude
begin

text \<open>
  The R-APS protocol data unit: \<^verbatim>\<open>src/src/sys/dev/erps/er_raps.h\<close>, \<^verbatim>\<open>er_raps.c\<close> and the
  load and store macros of \<^verbatim>\<open>stdafx.h\<close>. The structure, the encoder and the parser with their
  bounds made explicit, the frame layout as a reference definition, and the round trip.
\<close>

section \<open>The structure\<close>

text \<open>
  \<open>node_id\<close> of \<^verbatim>\<open>struct er_raps\<close> is a pointer. It is NULL, points at the node id of the ring
  that owns the structure, or points into the frame buffer that was parsed.
\<close>

datatype node_ptr = NodeNull | NodeRing | NodeFrame nat

datatype raps_request = RAPS_REQ_NR | RAPS_REQ_MS | RAPS_REQ_SF | RAPS_REQ_FS | RAPS_REQ_EVENT

fun raps_code :: "raps_request \<Rightarrow> u8" where
  "raps_code RAPS_REQ_NR = 0"
| "raps_code RAPS_REQ_MS = 7"
| "raps_code RAPS_REQ_SF = 11"
| "raps_code RAPS_REQ_FS = 13"
| "raps_code RAPS_REQ_EVENT = 14"

definition RAPS_FLAG_DNF :: u8 where "RAPS_FLAG_DNF = 0x40"
definition RAPS_FLAG_RB :: u8 where "RAPS_FLAG_RB = 0x80"

record er_raps =
  rp_ring_id :: u8
  rp_vid :: u16
  rp_version :: u8
  rp_flags :: u8
  rp_request :: raps_request
  rp_subcode :: u8
  rp_node_id :: node_ptr

text \<open>The all-zero structure that \<^verbatim>\<open>malloc(M_ZERO)\<close> and \<^verbatim>\<open>memset\<close> produce.\<close>

definition er_raps_zero :: er_raps where
  "er_raps_zero = \<lparr>rp_ring_id = 0, rp_vid = 0, rp_version = 0, rp_flags = 0,
     rp_request = RAPS_REQ_NR, rp_subcode = 0, rp_node_id = NodeNull\<rparr>"

text \<open>What \<open>node_id\<close> points at, given the ring's own id and the frame buffer.\<close>

definition node_bytes :: "bytes \<Rightarrow> bytes \<Rightarrow> node_ptr \<Rightarrow> fault + bytes" where
  "node_bytes own data p = (case p of
     NodeNull \<Rightarrow> Inl NullPtr
   | NodeRing \<Rightarrow> Inr own
   | NodeFrame off \<Rightarrow> load_n data off 6)"

section \<open>Loads and stores\<close>

text \<open>
  \<^verbatim>\<open>READ_BYTE\<close> loads 16 bits although its name says byte: the low byte of the result is the
  byte at the address, the high byte the one after it (little-endian). \<^verbatim>\<open>READ_WORD\<close> is
  \<^verbatim>\<open>ntohs\<close> of such a load, hence big-endian on the wire.
\<close>

definition READ_BYTE :: "bytes \<Rightarrow> nat \<Rightarrow> fault + u16" where
  "READ_BYTE data off =
     bind_res (load data off) (\<lambda>lo. bind_res (load data (off + 1)) (\<lambda>hi.
       Inr (ucast lo OR push_bit 8 (ucast hi))))"

definition READ_WORD :: "bytes \<Rightarrow> nat \<Rightarrow> fault + u16" where
  "READ_WORD data off =
     bind_res (load data off) (\<lambda>hi. bind_res (load data (off + 1)) (\<lambda>lo.
       Inr (push_bit 8 (ucast hi) OR ucast lo)))"

definition WRITE_BYTE :: "nat \<Rightarrow> u8 \<Rightarrow> bytes \<Rightarrow> fault + bytes" where
  "WRITE_BYTE off x = memcpy_to off [x]"

definition WRITE_WORD :: "nat \<Rightarrow> u16 \<Rightarrow> bytes \<Rightarrow> fault + bytes" where
  "WRITE_WORD off x = memcpy_to off [ucast (drop_bit 8 x), ucast x]"

section \<open>Classification of frames\<close>

text \<open>
  The functions take the buffer and the length the caller states. The C literal
  \<^verbatim>\<open>"\x01\x19\xA7\x00\x0"\<close> is the five bytes 01 19 A7 00 00.
\<close>

definition RAPS_DST :: bytes where "RAPS_DST = [0x01, 0x19, 0xA7, 0x00, 0x00]"

definition er_is_raps_frame :: "bytes \<Rightarrow> int \<Rightarrow> fault + bool" where
  "er_is_raps_frame data len =
     (if len < 55 then Inr False
      else bind_res (load_n data 0 5) (\<lambda>dst.
        if memcmp dst RAPS_DST \<noteq> 0 then Inr False else Inr True))"

definition er_is_keepalive_frame :: "bytes \<Rightarrow> int \<Rightarrow> bool" where
  "er_is_keepalive_frame data len = False"

definition er_is_valid_raps_frame :: "bytes \<Rightarrow> int \<Rightarrow> bool" where
  "er_is_valid_raps_frame data len = True"

definition er_is_local_raps_frame :: "bytes \<Rightarrow> bytes \<Rightarrow> int \<Rightarrow> fault + bool" where
  "er_is_local_raps_frame own data len =
     (if len < 55 then Inr False
      else bind_res (READ_WORD data 12) (\<lambda>eth_type.
        let offset = (if eth_type = 0x8100 then 4 else 0) in
        bind_res (load_n data (14 + offset + 6) 6) (\<lambda>nid.
          if memcmp nid own \<noteq> 0 then Inr False else Inr True)))"

section \<open>Encoding and parsing\<close>

definition er_raps_get_len :: "er_raps \<Rightarrow> int" where
  "er_raps_get_len frame = 55"

text \<open>
  \<open>nid\<close> is what \<^verbatim>\<open>frame->node_id\<close> points at. The version byte written is the constant 2,
  not the structure's version; \<^verbatim>\<open>data\<close> advances by 14, 4 and 4, so the offsets are absolute.
\<close>

definition er_raps_encode :: "er_raps \<Rightarrow> bytes \<Rightarrow> bytes \<Rightarrow> int \<Rightarrow> fault + (bool \<times> bytes)" where
  "er_raps_encode frame nid data max_len =
     (if max_len < 55 then Inr (False, data)
      else bind_res (seqs
        [memset_to 55 0,
         memcpy_to 0 RAPS_DST,
         WRITE_BYTE 5 (rp_ring_id frame),
         memcpy_to 6 (take 6 nid),
         WRITE_WORD 12 0x8100,
         WRITE_WORD 14 (rp_vid frame),
         WRITE_WORD 16 0x8902,
         WRITE_BYTE 18 0x02,
         WRITE_BYTE 19 40,
         WRITE_BYTE 21 32,
         WRITE_BYTE 22 (push_bit 4 (raps_code (rp_request frame)) OR rp_subcode frame),
         WRITE_BYTE 23 (rp_flags frame),
         memcpy_to 24 (take 6 nid)] data) (\<lambda>data'. Inr (True, data')))"

text \<open>
  The parser reads the request nibble as a number and keeps it only where it is one of the
  four enumerators it knows. \<open>frame\<close> is \<open>None\<close> when the pointer is NULL.
\<close>

definition raps_known :: "u8 \<Rightarrow> raps_request option" where
  "raps_known request =
     (if request = raps_code RAPS_REQ_NR then Some RAPS_REQ_NR
      else if request = raps_code RAPS_REQ_MS then Some RAPS_REQ_MS
      else if request = raps_code RAPS_REQ_FS then Some RAPS_REQ_FS
      else if request = raps_code RAPS_REQ_SF then Some RAPS_REQ_SF
      else None)"

text \<open>The parser from the CFM header on, with \<^verbatim>\<open>data\<close> advanced to offset \<open>p\<close>.\<close>

definition er_raps_parse_cfm ::
  "er_raps option \<Rightarrow> bytes \<Rightarrow> u8 \<Rightarrow> nat \<Rightarrow> fault + (bool \<times> er_raps option)" where
  "er_raps_parse_cfm frame data ring_id p =
     bind_res (READ_BYTE data p) (\<lambda>v.
     if 2 < v AND 0x1f then Inr (False, frame)
     else bind_res (READ_BYTE data (p + 1)) (\<lambda>op.
     if (ucast op :: u8) \<noteq> 40 then Inr (False, frame)
     else bind_res (READ_BYTE data (p + 4)) (\<lambda>rs.
     case raps_known (ucast (drop_bit 4 (rs AND 0xf0))) of
       None \<Rightarrow> Inr (False, frame)
     | Some request \<Rightarrow>
         bind_res (READ_BYTE data (p + 5)) (\<lambda>fl.
         (case frame of
            None \<Rightarrow> Inl NullPtr
          | Some _ \<Rightarrow> Inr (True, Some (er_raps_zero
              \<lparr>rp_ring_id := ring_id,
               rp_request := request,
               rp_flags := ucast (fl AND 0xe0),
               rp_node_id := NodeFrame (p + 6)\<rparr>)))))))"

definition er_raps_parse :: "er_raps option \<Rightarrow> bytes \<Rightarrow> int \<Rightarrow> fault + (bool \<times> er_raps option)" where
  "er_raps_parse frame data len =
     (if len < 55 then Inr (False, frame)
      else
        bind_res (READ_BYTE data 5) (\<lambda>ring_id.
        bind_res (READ_WORD data 12) (\<lambda>eth_type.
        if eth_type = 0x8100
        then bind_res (READ_WORD data (14 + 2)) (\<lambda>_.
               er_raps_parse_cfm frame data (ucast ring_id) (14 + 4))
        else er_raps_parse_cfm frame data (ucast ring_id) 14)))"

section \<open>Evaluation of the loads\<close>

definition u16_le :: "u8 \<Rightarrow> u8 \<Rightarrow> u16" where
  "u16_le lo hi = ucast lo OR push_bit 8 (ucast hi)"

lemma READ_BYTE_ok [c_simps]:
  "off + 1 < length data \<Longrightarrow> READ_BYTE data off = Inr (u16_le (data ! off) (data ! (off + 1)))"
  by (simp add: READ_BYTE_def u16_le_def load_ok)

lemma READ_WORD_ok [c_simps]:
  "off + 1 < length data \<Longrightarrow> READ_WORD data off = Inr (u16_le (data ! (off + 1)) (data ! off))"
  by (simp add: READ_WORD_def u16_le_def load_ok or.commute)

text \<open>What the parser takes from a 16-bit load is decided by the low byte alone.\<close>

lemma u16_le_low [c_simps]: "(ucast (u16_le lo hi) :: u8) = lo"
  by (rule bit_word_eqI) (auto simp: u16_le_def bit_simps)

lemma u16_le_mask: "u16_le lo hi AND ucast m = ucast (lo AND (m :: u8))"
  by (rule bit_word_eqI) (auto simp: u16_le_def bit_simps dest: bit_imp_le_length)

lemma ucast_u16_u8 [simp]: "(ucast (ucast (w :: u8) :: u16) :: u8) = w"
  by (rule bit_word_eqI) (auto simp: bit_simps)

lemma unat_ucast_u16 [simp]: "unat (ucast (w :: u8) :: u16) = unat w"
  using unsigned_less [of w, where 'a = nat]
  by (simp add: unsigned_ucast_eq take_bit_nat_eq_self_iff)

lemma u16_le_version [c_simps]: "2 < u16_le lo hi AND 0x1f \<longleftrightarrow> 2 < lo AND (0x1f :: u8)"
  using u16_le_mask [of lo hi "0x1f"] by (simp add: word_less_nat_alt)

lemma u16_le_nibble [c_simps]:
  "(ucast (drop_bit 4 (u16_le lo hi AND 0xf0)) :: u8) = drop_bit 4 lo"
proof -
  have m: "(0xf0 :: u8) = push_bit 4 (mask 4)" by (simp add: mask_eq_exp_minus_1)
  have "(ucast (drop_bit 4 (ucast (lo AND push_bit 4 (mask 4)) :: u16)) :: u8) = drop_bit 4 lo"
    by (rule bit_word_eqI) (auto simp del: push_bit_mask_eq simp: bit_simps dest: bit_imp_le_length)
  then show ?thesis
    using u16_le_mask [of lo hi "0xf0"] by (simp add: m [symmetric])
qed

lemma u16_le_nibble' [c_simps]: "(ucast (drop_bit 4 (u16_le lo hi) AND 15) :: u8) = drop_bit 4 lo"
  using u16_le_nibble [of lo hi] by simp

lemma u16_le_flags [c_simps]: "(ucast (u16_le lo hi AND 0xe0) :: u8) = lo AND 0xe0"
  using u16_le_mask [of lo hi "0xe0"] by simp

lemma u16_le_eq_8100: "u16_le lo hi = 0x8100 \<longleftrightarrow> lo = 0 \<and> hi = 0x81"
proof
  assume eq: "u16_le lo hi = 0x8100"
  have "hi = ucast (drop_bit 8 (u16_le lo hi))"
    by (rule bit_word_eqI) (auto simp: u16_le_def bit_simps dest: bit_imp_le_length)
  moreover have "lo = ucast (u16_le lo hi)" by (simp add: u16_le_low)
  ultimately show "lo = 0 \<and> hi = 0x81" unfolding eq by simp
next
  assume "lo = 0 \<and> hi = 0x81"
  then show "u16_le lo hi = 0x8100" by (simp add: u16_le_def)
qed

section \<open>The layout of a frame\<close>

text \<open>
  The 55 bytes of a tagged R-APS frame: destination 01-19-A7-00-00-\<open>ring\<close>, source node id,
  802.1Q tag with the ring's VID, EtherType 8902, CFM header (version 2, opcode 40, TLV offset
  32), request and subcode, flags, node id, and 25 zero bytes.
\<close>

definition raps_bytes :: "er_raps \<Rightarrow> bytes \<Rightarrow> bytes" where
  "raps_bytes f nid = RAPS_DST @ [rp_ring_id f] @ nid @ [0x81, 0x00]
     @ [ucast (drop_bit 8 (rp_vid f)), ucast (rp_vid f)] @ [0x89, 0x02] @ [0x02, 40, 0, 32]
     @ [push_bit 4 (raps_code (rp_request f)) OR rp_subcode f, rp_flags f] @ nid
     @ replicate 25 0"

lemma length_raps_bytes [simp]: "length nid = 6 \<Longrightarrow> length (raps_bytes f nid) = 55"
  by (simp add: raps_bytes_def RAPS_DST_def)

lemma list6E:
  assumes "length (nid :: 'a list) = 6"
  obtains a b c d e f where "nid = [a, b, c, d, e, f]"
  using assms by (auto simp: numeral_eq_Suc length_Suc_conv)

lemma memcpy_to_ok:
  "off + length src \<le> length data \<Longrightarrow>
   memcpy_to off src data = Inr (take off data @ src @ drop (off + length src) data)"
  by (simp add: memcpy_to_def)

lemma zeros55:
  "replicate 55 (0 :: u8) = [0,0,0,0,0,0,0,0,0,0,0,0,0,0,0,0,0,0,0,0,0,0,0,0,0,0,0,0,0,0,0,0,0,0,0,
     0,0,0,0,0,0,0,0,0,0,0,0,0,0,0,0,0,0,0,0]"
  by (simp add: numeral_eq_Suc)

lemma zeros25:
  "replicate 25 (0 :: u8) = [0,0,0,0,0,0,0,0,0,0,0,0,0,0,0,0,0,0,0,0,0,0,0,0,0]"
  by (simp add: numeral_eq_Suc)

lemma er_raps_encode_eq:
  assumes "length nid = 6" and "55 \<le> max_len" and "max_len \<le> int (length data)"
  shows "er_raps_encode f nid data max_len = Inr (True, raps_bytes f nid @ drop 55 data)"
proof -
  from assms(1) obtain a b c d e g where nid: "nid = [a, b, c, d, e, g]" by (rule list6E)
  have "memset_to 55 0 data = Inr (replicate 55 0 @ drop 55 data)"
    using assms by (simp add: memset_to_def memcpy_to_def)
  moreover have "seqs
        [memcpy_to 0 RAPS_DST, WRITE_BYTE 5 (rp_ring_id f), memcpy_to 6 nid,
         WRITE_WORD 12 0x8100, WRITE_WORD 14 (rp_vid f), WRITE_WORD 16 0x8902,
         WRITE_BYTE 18 0x02, WRITE_BYTE 19 40, WRITE_BYTE 21 32,
         WRITE_BYTE 22 (push_bit 4 (raps_code (rp_request f)) OR rp_subcode f),
         WRITE_BYTE 23 (rp_flags f), memcpy_to 24 nid] (replicate 55 0 @ ys)
      = Inr (raps_bytes f nid @ ys)" for ys
    unfolding zeros55 raps_bytes_def zeros25 WRITE_BYTE_def WRITE_WORD_def RAPS_DST_def nid
    by (simp add: memcpy_to_ok)
  ultimately show ?thesis
    using assms by (simp add: er_raps_encode_def)
qed

section \<open>What the parser accepts\<close>

text \<open>Where the CFM header starts: behind the 802.1Q tag when there is one.\<close>

definition cfm_off :: "bytes \<Rightarrow> nat" where
  "cfm_off data = (if data ! 12 = 0x81 \<and> data ! 13 = 0 then 18 else 14)"

text \<open>The acceptance test and the fields, as a specification over the bytes of the frame.\<close>

definition raps_accept :: "bytes \<Rightarrow> bool" where
  "raps_accept data \<longleftrightarrow>
     data ! cfm_off data AND 0x1f \<le> 2 \<and> data ! (cfm_off data + 1) = 40 \<and>
     raps_known (drop_bit 4 (data ! (cfm_off data + 4))) \<noteq> None"

definition raps_fields :: "bytes \<Rightarrow> er_raps" where
  "raps_fields data = er_raps_zero
     \<lparr>rp_ring_id := data ! 5,
      rp_request := the (raps_known (drop_bit 4 (data ! (cfm_off data + 4)))),
      rp_flags := data ! (cfm_off data + 5) AND 0xe0,
      rp_node_id := NodeFrame (cfm_off data + 6)\<rparr>"

lemma cfm_off_le: "cfm_off data \<le> 18"
  by (simp add: cfm_off_def)

lemma er_raps_parse_cfm_eq:
  assumes "cfm_off data + 6 < length data"
  shows "er_raps_parse_cfm frame data (data ! 5) (cfm_off data) =
    (if raps_accept data
     then (case frame of None \<Rightarrow> Inl NullPtr | Some _ \<Rightarrow> Inr (True, Some (raps_fields data)))
     else Inr (False, frame))"
proof (cases "2 < data ! cfm_off data AND 0x1f")
  case True
  then have "\<not> data ! cfm_off data AND 0x1f \<le> 2" by (simp add: not_le)
  with True assms show ?thesis
    by (simp add: er_raps_parse_cfm_def c_simps raps_accept_def)
next
  case False
  then have "data ! cfm_off data AND 0x1f \<le> 2" by (simp add: not_less)
  with False assms show ?thesis
    by (auto simp: er_raps_parse_cfm_def c_simps raps_accept_def raps_fields_def
        split: option.split)
qed

lemma er_raps_parse_eq:
  assumes "55 \<le> len" and "len \<le> int (length data)"
  shows "er_raps_parse frame data len =
    (if raps_accept data
     then (case frame of None \<Rightarrow> Inl NullPtr | Some _ \<Rightarrow> Inr (True, Some (raps_fields data)))
     else Inr (False, frame))"
proof -
  have len: "55 \<le> length data" using assms by linarith
  then have off: "cfm_off data + 6 < length data" using cfm_off_le [of data] by linarith
  have "\<not> len < 55" using assms by simp
  with len have "er_raps_parse frame data len = er_raps_parse_cfm frame data (data ! 5) (cfm_off data)"
    unfolding er_raps_parse_def
    by (auto simp: c_simps u16_le_eq_8100 cfm_off_def)
  with er_raps_parse_cfm_eq [OF off] show ?thesis by simp
qed

text \<open>A frame that is too short is refused before a byte of it is read.\<close>

lemma er_raps_parse_short: "len < 55 \<Longrightarrow> er_raps_parse frame data len = Inr (False, frame)"
  by (simp add: er_raps_parse_def)

lemma er_is_raps_frame_eq:
  "len \<le> int (length data) \<Longrightarrow>
   er_is_raps_frame data len = Inr (55 \<le> len \<and> take 5 data = RAPS_DST)"
  by (auto simp: er_is_raps_frame_def c_simps memcmp_eq_0_iff RAPS_DST_def)

lemma er_is_local_raps_frame_eq:
  assumes "len \<le> int (length data)" and "length own = 6"
  shows "er_is_local_raps_frame own data len =
    Inr (55 \<le> len \<and> take 6 (drop (cfm_off data + 6) data) = own)"
  using assms
  by (auto simp: er_is_local_raps_frame_def c_simps cfm_off_def u16_le_eq_8100 Let_def
      memcmp_eq_0_iff)

section \<open>Round trip\<close>

definition raps_sendable :: "er_raps \<Rightarrow> bool" where
  "raps_sendable f \<longleftrightarrow> rp_request f \<noteq> RAPS_REQ_EVENT \<and> rp_subcode f < 16"

lemma raps_known_code:
  "q \<noteq> RAPS_REQ_EVENT \<Longrightarrow> raps_known (raps_code q) = Some q"
  by (cases q) (simp_all add: raps_known_def)

lemma raps_known_Some: "raps_known c = Some q \<longleftrightarrow> q \<noteq> RAPS_REQ_EVENT \<and> c = raps_code q"
  by (cases q) (auto simp: raps_known_def)

lemma nibble_of_byte:
  assumes "sub < (16 :: u8)"
  shows "drop_bit 4 (push_bit 4 (raps_code q)) OR drop_bit 4 sub = raps_code q"
proof -
  have sub: "drop_bit 4 sub = 0"
    using assms by (simp add: drop_bit_eq_div word_less_nat_alt word_arith_nat_div)
  have code: "drop_bit 4 (push_bit 4 (raps_code q)) = raps_code q"
    by (cases q) simp_all
  show "drop_bit 4 (push_bit 4 (raps_code q)) OR drop_bit 4 sub = raps_code q"
    using sub code by simp
qed

lemma raps_bytes_nth:
  assumes "length nid = 6"
  shows "raps_bytes f nid ! 5 = rp_ring_id f"
    "raps_bytes f nid ! 12 = 0x81" "raps_bytes f nid ! 13 = 0"
    "raps_bytes f nid ! 18 = 2" "raps_bytes f nid ! 19 = 40"
    "raps_bytes f nid ! 22 = push_bit 4 (raps_code (rp_request f)) OR rp_subcode f"
    "raps_bytes f nid ! 23 = rp_flags f"
    "take 6 (drop 24 (raps_bytes f nid)) = nid"
    "take 5 (raps_bytes f nid) = RAPS_DST"
proof -
  from assms obtain a b c d e g where nid: "nid = [a, b, c, d, e, g]" by (rule list6E)
  show "raps_bytes f nid ! 5 = rp_ring_id f"
    "raps_bytes f nid ! 12 = 0x81" "raps_bytes f nid ! 13 = 0"
    "raps_bytes f nid ! 18 = 2" "raps_bytes f nid ! 19 = 40"
    "raps_bytes f nid ! 22 = push_bit 4 (raps_code (rp_request f)) OR rp_subcode f"
    "raps_bytes f nid ! 23 = rp_flags f"
    "take 6 (drop 24 (raps_bytes f nid)) = nid"
    "take 5 (raps_bytes f nid) = RAPS_DST"
    by (simp_all add: raps_bytes_def RAPS_DST_def nid)
qed

lemma raps_bytes_append:
  assumes "length nid = 6"
  shows "cfm_off (raps_bytes f nid @ pad) = 18"
    and "i < 55 \<Longrightarrow> (raps_bytes f nid @ pad) ! i = raps_bytes f nid ! i"
    and "take 6 (drop 24 (raps_bytes f nid @ pad)) = nid"
    and "take 5 (raps_bytes f nid @ pad) = RAPS_DST"
  using assms raps_bytes_nth [OF assms, of f]
  by (simp_all add: cfm_off_def nth_append)

lemma raps_bytes_accept:
  assumes "length nid = 6" and "raps_sendable f"
  shows "raps_accept (raps_bytes f nid @ pad)"
    and "raps_fields (raps_bytes f nid @ pad) = er_raps_zero
      \<lparr>rp_ring_id := rp_ring_id f, rp_request := rp_request f, rp_flags := rp_flags f AND 0xe0,
       rp_node_id := NodeFrame 24\<rparr>"
  using assms raps_bytes_nth [OF assms(1), of f]
  by (simp_all add: raps_accept_def raps_fields_def raps_bytes_append nibble_of_byte
      raps_known_code raps_sendable_def)

section \<open>The codec as an interface\<close>

text \<open>
  What the rest of the protocol relies on: a header and a node id go on the wire, the receiver
  gets back a view of the header and the node id. From the two laws: a frame determines what
  was sent, so two nodes cannot be confused and a node can recognise its own frames.
\<close>

locale frame_codec =
  fixes encode :: "'h \<Rightarrow> bytes \<Rightarrow> bytes"
    and decode :: "bytes \<Rightarrow> ('v \<times> bytes) option"
    and view :: "'h \<Rightarrow> 'v"
    and sendable :: "'h \<Rightarrow> bool"
    and frame_len :: nat
  assumes encode_length: "length nid = 6 \<Longrightarrow> length (encode h nid) = frame_len"
    and decode_encode: "sendable h \<Longrightarrow> length nid = 6 \<Longrightarrow> decode (encode h nid) = Some (view h, nid)"
begin

lemma encode_inject:
  assumes "sendable h" "sendable h'" "length nid = 6" "length nid' = 6"
    and "encode h nid = encode h' nid'"
  shows "view h = view h' \<and> nid = nid'"
  using decode_encode [OF assms(1,3)] decode_encode [OF assms(2,4)] assms(5) by simp

lemma encode_view_neq:
  "sendable h \<Longrightarrow> sendable h' \<Longrightarrow> length nid = 6 \<Longrightarrow> view h \<noteq> view h' \<Longrightarrow> encode h nid \<noteq> encode h' nid"
  using encode_inject by blast

end

text \<open>The encoder on a fresh 55-byte buffer, as \<^verbatim>\<open>er_ring_create\<close> allocates it.\<close>

definition raps_frame_of :: "er_raps \<Rightarrow> bytes \<Rightarrow> bytes" where
  "raps_frame_of f nid = (case er_raps_encode f nid (replicate 55 0) (er_raps_get_len f) of
     Inr (True, frame) \<Rightarrow> frame | _ \<Rightarrow> [])"

definition raps_decode :: "bytes \<Rightarrow> ((u8 \<times> raps_request \<times> u8) \<times> bytes) option" where
  "raps_decode data = (case er_raps_parse (Some er_raps_zero) data (int (length data)) of
     Inr (True, Some g) \<Rightarrow>
       (case node_bytes [] data (rp_node_id g) of
          Inr nid \<Rightarrow> Some ((rp_ring_id g, rp_request g, rp_flags g), nid) | Inl _ \<Rightarrow> None)
   | _ \<Rightarrow> None)"

definition raps_view :: "er_raps \<Rightarrow> u8 \<times> raps_request \<times> u8" where
  "raps_view f = (rp_ring_id f, rp_request f, rp_flags f AND 0xe0)"

lemma raps_frame_of_eq: "length nid = 6 \<Longrightarrow> raps_frame_of f nid = raps_bytes f nid"
  by (simp add: raps_frame_of_def er_raps_encode_eq er_raps_get_len_def)

lemma er_raps_parse_bytes:
  assumes "length nid = 6" "raps_sendable f" "55 \<le> len" "len \<le> int (length (raps_bytes f nid @ pad))"
  shows "er_raps_parse (Some g) (raps_bytes f nid @ pad) len = Inr (True, Some (er_raps_zero
      \<lparr>rp_ring_id := rp_ring_id f, rp_request := rp_request f, rp_flags := rp_flags f AND 0xe0,
       rp_node_id := NodeFrame 24\<rparr>))"
  using er_raps_parse_eq [OF assms(3,4)] raps_bytes_accept [OF assms(1,2)] by simp

lemma node_bytes_24:
  assumes "length nid = 6"
  shows "node_bytes own (raps_bytes f nid @ pad) (NodeFrame 24) = Inr nid"
proof -
  have "24 + 6 \<le> length (raps_bytes f nid @ pad)" using assms by simp
  then show ?thesis
    using raps_bytes_append(3) [OF assms, of f pad] by (simp add: node_bytes_def load_n_ok del: append_assoc)
qed

interpretation raps: frame_codec raps_frame_of raps_decode raps_view raps_sendable 55
proof unfold_locales
  fix h :: er_raps and nid :: bytes
  assume "length nid = 6"
  then show "length (raps_frame_of h nid) = 55" by (simp add: raps_frame_of_eq)
next
  fix h :: er_raps and nid :: bytes
  assume s: "raps_sendable h" and nid: "length nid = 6"
  show "raps_decode (raps_frame_of h nid) = Some (raps_view h, nid)"
    using er_raps_parse_bytes [OF nid s, where pad = "[]"] node_bytes_24 [OF nid, where pad = "[]"] nid
    by (simp add: raps_decode_def raps_view_def raps_frame_of_eq)
qed

section \<open>Properties\<close>

text \<open>Claim C19: encoding an R-APS structure into a buffer of the guaranteed size and parsing the
  result gives back ring id, request, flags (the three flag bits) and, through the parsed
  pointer, the sender's node id; the buffer keeps its size and the bytes behind the frame.\<close>

theorem raps_roundtrip:
  assumes "raps_sendable f" and "length nid = 6" and "55 \<le> len" and "len \<le> int (length buf)"
  shows "\<exists>frame. er_raps_encode f nid buf len = Inr (True, frame) \<and>
      length frame = length buf \<and> drop 55 frame = drop 55 buf \<and>
      er_raps_parse (Some g) frame len = Inr (True, Some (er_raps_zero
        \<lparr>rp_ring_id := rp_ring_id f, rp_request := rp_request f, rp_flags := rp_flags f AND 0xe0,
         rp_node_id := NodeFrame 24\<rparr>)) \<and>
      node_bytes own frame (NodeFrame 24) = Inr nid"
proof -
  let ?frame = "raps_bytes f nid @ drop 55 buf"
  have enc: "er_raps_encode f nid buf len = Inr (True, ?frame)"
    using er_raps_encode_eq [OF assms(2-4)] .
  have "length ?frame = length buf" and "drop 55 ?frame = drop 55 buf"
    using assms by auto
  moreover from this(1) have "len \<le> int (length ?frame)" using assms by simp
  ultimately show ?thesis
    using enc er_raps_parse_bytes [OF assms(2,1,3)] node_bytes_24 [OF assms(2)] by blast
qed

definition sample_raps :: er_raps where
  "sample_raps = er_raps_zero
     \<lparr>rp_ring_id := 1, rp_vid := 4093, rp_request := RAPS_REQ_SF, rp_flags := RAPS_FLAG_DNF,
      rp_node_id := NodeRing\<rparr>"

lemma raps_roundtrip_witness:
  "\<exists>frame. er_raps_encode sample_raps [2,4,6,8,10,12] (replicate 60 9) 60 = Inr (True, frame) \<and>
     er_raps_parse (Some er_raps_zero) frame 60 = Inr (True, Some (er_raps_zero
        \<lparr>rp_ring_id := 1, rp_request := RAPS_REQ_SF, rp_flags := 0x40, rp_node_id := NodeFrame 24\<rparr>)) \<and>
     node_bytes [] frame (NodeFrame 24) = Inr [2,4,6,8,10,12]"
  using raps_roundtrip [of sample_raps "[2,4,6,8,10,12]" 60 "replicate 60 9" er_raps_zero "[]"]
  by (auto simp: sample_raps_def raps_sendable_def er_raps_zero_def RAPS_FLAG_DNF_def)

text \<open>Claim C29: no function of the codec reads or writes outside its buffer. Where the stated
  length is within the object (what the caller promises), classifying, parsing and encoding
  return a value, and the node id pointer the parser hands out can be read.\<close>

theorem raps_memory_safe:
  assumes "len \<le> int (length data)" and "length own = 6"
  shows "(\<exists>b. er_is_raps_frame data len = Inr b) \<and>
    (\<exists>b. er_is_local_raps_frame own data len = Inr b) \<and>
    (\<exists>b g. er_raps_parse (Some f) data len = Inr (b, Some g) \<and>
       (b \<longrightarrow> (\<exists>nid. node_bytes own data (rp_node_id g) = Inr nid \<and> length nid = 6))) \<and>
    (\<exists>b frame. er_raps_encode h own data len = Inr (b, frame) \<and> length frame = length data)"
proof -
  have classify: "(\<exists>b. er_is_raps_frame data len = Inr b) \<and> (\<exists>b. er_is_local_raps_frame own data len = Inr b)"
    using er_is_raps_frame_eq er_is_local_raps_frame_eq assms by blast
  have "\<exists>b g. er_raps_parse (Some f) data len = Inr (b, Some g) \<and>
       (b \<longrightarrow> (\<exists>nid. node_bytes own data (rp_node_id g) = Inr nid \<and> length nid = 6))"
  proof (cases "len < 55")
    case True
    then have "er_raps_parse (Some f) data len = Inr (False, Some f)" by (rule er_raps_parse_short)
    then show ?thesis by blast
  next
    case False
    then have "cfm_off data + 6 + 6 \<le> length data" using assms cfm_off_le [of data] by linarith
    with False assms show ?thesis
      by (cases "raps_accept data")
        (auto simp: er_raps_parse_eq raps_fields_def node_bytes_def load_n_ok)
  qed
  moreover have "\<exists>b frame. er_raps_encode h own data len = Inr (b, frame) \<and> length frame = length data"
    using er_raps_encode_eq [of own len data h] assms
    by (cases "len < 55") (auto simp: er_raps_encode_def)
  ultimately show ?thesis using classify by blast
qed

lemma raps_memory_safe_witness:
  "\<exists>b g. er_raps_parse (Some er_raps_zero) (replicate 55 7) 55 = Inr (b, Some g)"
  using raps_memory_safe [of 55 "replicate 55 7" "[1,2,3,4,5,6]" er_raps_zero sample_raps] by auto

text \<open>Claim C34: the parser accepts exactly the frames of at least 55 bytes whose CFM version is
  at most 2, whose opcode is 40 and whose request is NR, MS, SF or FS, with or without an
  802.1Q tag; it then returns the fields of the frame and otherwise leaves the structure alone.\<close>

theorem raps_parse_spec:
  assumes "len \<le> int (length data)"
  shows "er_raps_parse (Some f) data len =
    (if 55 \<le> len \<and> data ! cfm_off data AND 0x1f \<le> 2 \<and> data ! (cfm_off data + 1) = 40 \<and>
        drop_bit 4 (data ! (cfm_off data + 4)) \<in> {0, 7, 11, 13}
     then Inr (True, Some (raps_fields data)) else Inr (False, Some f))"
proof -
  have known: "raps_known c \<noteq> None \<longleftrightarrow> c \<in> {0, 7, 11, 13}" for c
    by (simp add: raps_known_def)
  show ?thesis
    using assms er_raps_parse_eq [of len data "Some f"]
    unfolding raps_accept_def known
    by (cases "len < 55") (simp_all add: er_raps_parse_short)
qed

lemma raps_parse_spec_witness:
  "er_raps_parse (Some sample_raps) (replicate 55 7) 55 = Inr (False, Some sample_raps)"
  using raps_parse_spec [of 55 "replicate 55 7" sample_raps] by (simp add: cfm_off_def)

text \<open>A frame a node sent is an R-APS frame for every receiver, and a receiver takes it
  for its own exactly when the sender's node id is the receiver's.\<close>

theorem raps_local_iff_same_node:
  assumes "length nid = 6" and "length own = 6"
  shows "er_is_raps_frame (raps_frame_of f nid) 55 = Inr True \<and>
    er_is_local_raps_frame own (raps_frame_of f nid) 55 = Inr (nid = own)"
  using assms raps_bytes_append(1,3,4) [OF assms(1), of f "[]"]
  by (simp add: raps_frame_of_eq er_is_raps_frame_eq er_is_local_raps_frame_eq)

lemma raps_local_iff_same_node_witness:
  "er_is_local_raps_frame [1,2,3,4,5,6] (raps_frame_of sample_raps [2,4,6,8,10,12]) 55 = Inr False"
  using raps_local_iff_same_node [of "[2,4,6,8,10,12]" "[1,2,3,4,5,6]" sample_raps] by simp

end
