(* ===== verification/Ring.thy ===== *)
theory Ring
  imports Port Raps
begin

text \<open>
  The ring and the actions of its state machine: \<^verbatim>\<open>src/src/sys/dev/erps/er_ring.h\<close> and
  \<^verbatim>\<open>er_ring.c\<close> lines 1--159.

  A ring holds its two port objects; a \<^verbatim>\<open>struct er_port *\<close> into a ring is \<open>Some PORT0\<close>,
  \<open>Some PORT1\<close> or \<open>None\<close> (NULL). The pointers \<^verbatim>\<open>port0\<close>, \<^verbatim>\<open>port1\<close>, \<^verbatim>\<open>raps\<close> and \<^verbatim>\<open>raps_frame\<close>
  of a ring that \<^verbatim>\<open>er_ring_create\<close> returned are never NULL and never change; the record keeps
  the object next to its address, and the address of the ring itself, which only \<^verbatim>\<open>er_free\<close>
  and the locks use. The mutex and the callout are
  in \<^verbatim>\<open>Lifecycle.thy\<close>.
\<close>

section \<open>States and requests\<close>

datatype ring_state = RING_STATE_INIT | RING_STATE_IDLE | RING_STATE_PROTECTION
  | RING_STATE_MANUAL_SWITCH | RING_STATE_FORCED_SWITCH | RING_STATE_PENDING

datatype ring_request = RING_REQ_INVALID | RING_REQ_RAPS_NR | RING_REQ_RAPS_NR_RB
  | RING_REQ_WTB_RUNNING | RING_REQ_WTB_EXPIRES | RING_REQ_WTR_RUNNING | RING_REQ_WTR_EXPIRES
  | RING_REQ_MS | RING_REQ_RAPS_MS | RING_REQ_RAPS_SF | RING_REQ_CLEAR_SF | RING_REQ_SF
  | RING_REQ_RAPS_FS | RING_REQ_FS | RING_REQ_CLEAR

text \<open>The value of the enumerator is the priority of the request.\<close>

fun req_code :: "ring_request \<Rightarrow> nat" where
  "req_code RING_REQ_INVALID = 0"
| "req_code RING_REQ_RAPS_NR = 1"
| "req_code RING_REQ_RAPS_NR_RB = 2"
| "req_code RING_REQ_WTB_RUNNING = 3"
| "req_code RING_REQ_WTB_EXPIRES = 4"
| "req_code RING_REQ_WTR_RUNNING = 5"
| "req_code RING_REQ_WTR_EXPIRES = 6"
| "req_code RING_REQ_MS = 7"
| "req_code RING_REQ_RAPS_MS = 8"
| "req_code RING_REQ_RAPS_SF = 9"
| "req_code RING_REQ_CLEAR_SF = 10"
| "req_code RING_REQ_SF = 11"
| "req_code RING_REQ_RAPS_FS = 12"
| "req_code RING_REQ_FS = 13"
| "req_code RING_REQ_CLEAR = 14"

lemma req_code_inject: "req_code a = req_code b \<Longrightarrow> a = b"
  by (cases a; cases b) simp_all

instantiation ring_request :: linorder
begin

definition less_eq_ring_request :: "ring_request \<Rightarrow> ring_request \<Rightarrow> bool" where
  "less_eq_ring_request a b \<longleftrightarrow> req_code a \<le> req_code b"

definition less_ring_request :: "ring_request \<Rightarrow> ring_request \<Rightarrow> bool" where
  "less_ring_request a b \<longleftrightarrow> req_code a < req_code b"

instance
  by intro_classes (auto simp: less_eq_ring_request_def less_ring_request_def dest: req_code_inject)

end

lemmas req_less = less_ring_request_def less_eq_ring_request_def

lemma req_INVALID_least [simp]: "\<not> q < RING_REQ_INVALID" "RING_REQ_INVALID \<le> q"
  by (simp_all add: req_less)

text \<open>\<^verbatim>\<open>ring_req_str\<close> and its table.\<close>

definition RING_REQUEST_STR :: "string list" where
  "RING_REQUEST_STR = [''INVALID'', ''RAPS_NR'', ''RAPS_NR_RB'', ''WTB_RUNNING'', ''WTB_EXPIRES'',
     ''WTR_RUNNING'', ''WTR_EXPIRES'', ''MS'', ''RAPS_MS'', ''RAPS_SF'', ''CLEAR_SF'', ''SF'',
     ''RAPS_FS'', ''FS'', ''CLEAR'']"

definition ring_req_str :: "nat \<Rightarrow> string" where
  "ring_req_str req =
     (if req < req_code RING_REQ_INVALID \<or> req_code RING_REQ_CLEAR < req then ''invalid!''
      else RING_REQUEST_STR ! req)"

section \<open>The ring\<close>

datatype port_id = PORT0 | PORT1

type_synonym port_ptr = "port_id option"

record er_ring =
  ring_addr :: nat
  port0_addr :: nat
  port0 :: er_port
  port1_addr :: nat
  port1 :: er_port
  vale_name :: string
  is_rpl_owner :: bool
  is_rpl_neighbour :: bool
  is_revertive :: bool
  rpl_port :: port_ptr
  version :: u8
  ring_id :: int
  raps_vid :: int
  node_id :: bytes
  guard_timer_active :: bool
  guard_timer_active_since :: i32
  wtr_timer_active :: bool
  wtr_timer_active_since :: i32
  wtb_timer_active :: bool
  wtb_timer_active_since :: i32
  local_request :: ring_request
  state :: ring_state
  prev_request :: ring_request
  prev_request_port :: port_ptr
  prev_request_remote_node_id :: bytes
  is_sending_raps :: bool
  raps_addr :: nat
  raps :: er_raps
  raps_frame_addr :: nat
  raps_frame :: bytes
  raps_frame_len :: int
  raps_bursts_remain :: int
  guard_time :: u32
  wtr_time :: u32
  wtb_time :: u32
  active :: bool

type_synonym action = "er_ring \<Rightarrow> fault + er_ring"

fun get_port :: "port_id \<Rightarrow> er_ring \<Rightarrow> er_port" where
  "get_port PORT0 r = port0 r"
| "get_port PORT1 r = port1 r"

fun upd_port :: "port_id \<Rightarrow> (er_port \<Rightarrow> er_port) \<Rightarrow> er_ring \<Rightarrow> er_ring" where
  "upd_port PORT0 f r = r\<lparr>port0 := f (port0 r)\<rparr>"
| "upd_port PORT1 f r = r\<lparr>port1 := f (port1 r)\<rparr>"

section \<open>Actions\<close>

text \<open>\<open>now\<close> is \<^verbatim>\<open>TICK_NOW\<close>, the kernel's \<^verbatim>\<open>ticks\<close> when the handler runs.\<close>

definition start_wtr_timer :: "i32 \<Rightarrow> action" where
  "start_wtr_timer now r = Inr (r\<lparr>wtr_timer_active_since := now, wtr_timer_active := True\<rparr>)"

definition stop_wtr_timer :: action where
  "stop_wtr_timer r = Inr (r\<lparr>wtr_timer_active := False\<rparr>)"

definition start_wtb_timer :: "i32 \<Rightarrow> action" where
  "start_wtb_timer now r = Inr (r\<lparr>wtb_timer_active_since := now, wtb_timer_active := True\<rparr>)"

definition stop_wtb_timer :: action where
  "stop_wtb_timer r = Inr (r\<lparr>wtb_timer_active := False\<rparr>)"

definition start_guard_timer :: "i32 \<Rightarrow> action" where
  "start_guard_timer now r = Inr (r\<lparr>guard_timer_active_since := now, guard_timer_active := True\<rparr>)"

definition stop_guard_timer :: action where
  "stop_guard_timer r = Inr (r\<lparr>guard_timer_active := False\<rparr>)"

definition block_port :: "port_ptr \<Rightarrow> action" where
  "block_port port r = (case port of None \<Rightarrow> Inl NullPtr | Some p \<Rightarrow> Inr (upd_port p er_port_block r))"

definition unblock_port :: "port_ptr \<Rightarrow> action" where
  "unblock_port port r = (case port of None \<Rightarrow> Inl NullPtr | Some p \<Rightarrow> Inr (upd_port p er_port_unblock r))"

definition is_port_blocked :: "port_ptr \<Rightarrow> er_ring \<Rightarrow> fault + bool" where
  "is_port_blocked port r =
     (case port of None \<Rightarrow> Inl NullPtr | Some p \<Rightarrow> Inr (er_port_is_blocked (get_port p r)))"

text \<open>\<^verbatim>\<open>flush_fdb\<close> only logs.\<close>

definition flush_fdb :: action where
  "flush_fdb r = Inr r"

definition er_ring_other_port :: "port_ptr \<Rightarrow> port_ptr" where
  "er_ring_other_port port = (if port = Some PORT1 then Some PORT0 else Some PORT1)"

definition unblock_nonfailed_ports :: action where
  "unblock_nonfailed_ports = seqs
     [guard_do (\<lambda>r. \<not> is_failed (port0 r)) [unblock_port (Some PORT0)],
      guard_do (\<lambda>r. \<not> is_failed (port1 r)) [unblock_port (Some PORT1)]]"

text \<open>
  \<^verbatim>\<open>start_tx\<close> serialises a new frame only when request or flags differ from the last ones; the
  result of the encoder is ignored by the code.
\<close>

definition start_tx :: "raps_request \<Rightarrow> u8 \<Rightarrow> action" where
  "start_tx request flags r =
     bind_res
       (if rp_request (raps r) \<noteq> request \<or> rp_flags (raps r) \<noteq> flags
        then let rp = (raps r)\<lparr>rp_request := request, rp_flags := flags\<rparr> in
          bind_res (node_bytes (node_id r) [] (rp_node_id rp)) (\<lambda>nid.
          bind_res (er_raps_encode rp nid (raps_frame r) (raps_frame_len r)) (\<lambda>(_, frame).
            Inr (r\<lparr>raps := rp, raps_frame := frame, raps_bursts_remain := 3\<rparr>)))
        else Inr r)
       (\<lambda>r'. Inr (r'\<lparr>is_sending_raps := True\<rparr>))"

definition stop_tx :: action where
  "stop_tx r = Inr (r\<lparr>is_sending_raps := False\<rparr>)"

end
