(* ===== verification/Fsm.thy ===== *)
theory Fsm
  imports Ring
begin

text \<open>
  The ring state machine: \<^verbatim>\<open>ring_fsm\<close> of \<^verbatim>\<open>src/src/sys/dev/erps/er_ring.c\<close> (lines 163--832),
  rows 01 to 71 of table 10-2 of ITU-T G.8032. One function per value of \<^verbatim>\<open>r->state\<close>, one
  equation per \<^verbatim>\<open>case\<close> of the inner switch, in the order of the source; the statements of a
  row are a list. A row yields the ring and the local variable \<^verbatim>\<open>new_state\<close>, which
  \<^verbatim>\<open>ring_fsm\<close> stores at the end.

  \<open>port\<close> is the \<^verbatim>\<open>struct er_port *\<close> and \<open>nid\<close> the \<^verbatim>\<open>uint8_t *remote_node_id\<close> argument
  (\<open>None\<close> is NULL, otherwise the six bytes it points at).
\<close>

section \<open>Blocks the rows repeat\<close>

definition row :: "ring_state \<Rightarrow> action list \<Rightarrow> er_ring \<Rightarrow> fault + (er_ring \<times> ring_state)" where
  "row new_state acts r = bind_res (seqs acts r) (\<lambda>r'. Inr (r', new_state))"

text \<open>
  The block of rows 03, 05, 09, 17, 19, 31, 33, 59, 61 and 65: block the requested port, tell
  the ring, unblock the other one; DNF when the port was blocked already.
\<close>

definition switch_port :: "raps_request \<Rightarrow> port_ptr \<Rightarrow> action" where
  "switch_port q port = cond (is_port_blocked port)
     [start_tx q RAPS_FLAG_DNF,
      unblock_port (er_ring_other_port port)]
     [block_port port,
      start_tx q 0,
      unblock_port (er_ring_other_port port),
      flush_fdb]"

text \<open>The block of rows 58, 66 and 68: back to the ring protection link. \<open>f\<close> is the flags
  expression of the blocked case.\<close>

definition revert_rpl :: "u8 \<Rightarrow> action" where
  "revert_rpl f r = cond (is_port_blocked (rpl_port r))
     [start_tx RAPS_REQ_NR f,
      unblock_port (er_ring_other_port (rpl_port r))]
     [block_port (rpl_port r),
      start_tx RAPS_REQ_NR RAPS_FLAG_RB,
      unblock_port (er_ring_other_port (rpl_port r)),
      flush_fdb] r"

text \<open>\<^verbatim>\<open>memcmp(r->node_id, remote_node_id, 6) < 0\<close>\<close>

definition node_lt_remote :: "er_ring \<Rightarrow> bytes option \<Rightarrow> fault + bool" where
  "node_lt_remote r nid = (case nid of None \<Rightarrow> Inl NullPtr
     | Some n \<Rightarrow> Inr (memcmp (take 6 (node_id r)) (take 6 n) < 0))"

definition block_rpl :: action where
  "block_rpl r = block_port (rpl_port r) r"

definition unblock_other_rpl :: action where
  "unblock_other_rpl r = unblock_port (er_ring_other_port (rpl_port r)) r"

section \<open>Request de-duplication\<close>

datatype dedup = Fresh | Dupe | Impossible

fun fsm_dedup :: "er_ring \<Rightarrow> ring_request \<Rightarrow> port_ptr \<Rightarrow> bytes option \<Rightarrow> fault + dedup" where
  "fsm_dedup r req port nid =
     (if req \<in> {RING_REQ_RAPS_NR, RING_REQ_RAPS_NR_RB, RING_REQ_RAPS_SF, RING_REQ_RAPS_MS,
         RING_REQ_RAPS_FS}
      then (if req = prev_request r
            then (case nid of None \<Rightarrow> Inl NullPtr
                  | Some n \<Rightarrow> Inr (if memcmp (take 6 n) (prev_request_remote_node_id r) = 0
                                  then Dupe else Fresh))
            else Inr Fresh)
      else if req \<in> {RING_REQ_MS, RING_REQ_SF, RING_REQ_FS, RING_REQ_CLEAR_SF}
      then Inr (if req = prev_request r \<and> port = prev_request_port r then Dupe else Fresh)
      else if req \<in> {RING_REQ_WTB_RUNNING, RING_REQ_WTB_EXPIRES, RING_REQ_WTR_RUNNING,
         RING_REQ_WTR_EXPIRES, RING_REQ_CLEAR}
      then Inr (if req = prev_request r then Impossible else Fresh)
      else Inr Fresh)"

text \<open>Request parameters saved for the next comparison.\<close>

definition fsm_save :: "ring_request \<Rightarrow> port_ptr \<Rightarrow> bytes option \<Rightarrow> er_ring \<Rightarrow> er_ring" where
  "fsm_save req port nid r =
     (let r1 = r\<lparr>prev_request := req, prev_request_port := port\<rparr> in
      case nid of None \<Rightarrow> r1 | Some n \<Rightarrow> r1\<lparr>prev_request_remote_node_id := take 6 n\<rparr>)"

section \<open>The rows\<close>

text \<open>Row 01. The request is not looked at.\<close>

definition fsm_init :: "i32 \<Rightarrow> er_ring \<Rightarrow> fault + (er_ring \<times> ring_state)" where
  "fsm_init now r = row RING_STATE_PENDING
     [stop_guard_timer, stop_wtr_timer, stop_wtb_timer,
      (\<lambda>r. if is_rpl_owner r then
         seqs [block_rpl, unblock_other_rpl, start_tx RAPS_REQ_NR 0,
               guard_do (\<lambda>r. is_revertive r) [start_wtr_timer now]] r
       else if is_rpl_neighbour r then
         seqs [block_rpl, unblock_other_rpl, start_tx RAPS_REQ_NR 0] r
       else
         seqs [block_port (Some PORT0), unblock_port (Some PORT1), start_tx RAPS_REQ_NR 0] r)] r"

text \<open>Rows 02 to 15, \<^verbatim>\<open>RING_STATE_IDLE\<close>.\<close>

fun fsm_idle :: "i32 \<Rightarrow> ring_request \<Rightarrow> port_ptr \<Rightarrow> bytes option \<Rightarrow> er_ring
    \<Rightarrow> fault + (er_ring \<times> ring_state)" where
  "fsm_idle now RING_REQ_CLEAR port nid r =
     row RING_STATE_IDLE [] r"
| "fsm_idle now RING_REQ_FS port nid r =
     row RING_STATE_FORCED_SWITCH
      [switch_port RAPS_REQ_FS port] r"
| "fsm_idle now RING_REQ_RAPS_FS port nid r =
     row RING_STATE_FORCED_SWITCH
      [unblock_port (Some PORT0),
       unblock_port (Some PORT1),
       stop_tx] r"
| "fsm_idle now RING_REQ_SF port nid r =
     row RING_STATE_PROTECTION
      [switch_port RAPS_REQ_SF port] r"
| "fsm_idle now RING_REQ_CLEAR_SF port nid r =
     row RING_STATE_IDLE [] r"
| "fsm_idle now RING_REQ_RAPS_SF port nid r =
     row RING_STATE_PROTECTION
      [unblock_nonfailed_ports,
       stop_tx] r"
| "fsm_idle now RING_REQ_RAPS_MS port nid r =
     row RING_STATE_MANUAL_SWITCH
      [unblock_nonfailed_ports,
       stop_tx] r"
| "fsm_idle now RING_REQ_MS port nid r =
     row RING_STATE_MANUAL_SWITCH
      [switch_port RAPS_REQ_MS port] r"
| "fsm_idle now RING_REQ_WTR_EXPIRES port nid r =
     row RING_STATE_IDLE [] r"
| "fsm_idle now RING_REQ_WTR_RUNNING port nid r =
     row RING_STATE_IDLE [] r"
| "fsm_idle now RING_REQ_WTB_EXPIRES port nid r =
     row RING_STATE_IDLE [] r"
| "fsm_idle now RING_REQ_WTB_RUNNING port nid r =
     row RING_STATE_IDLE [] r"
| "fsm_idle now RING_REQ_RAPS_NR_RB port nid r =
     row RING_STATE_IDLE
      [unblock_other_rpl,
       guard_do (\<lambda>r. \<not> is_rpl_owner r) [stop_tx]] r"
| "fsm_idle now RING_REQ_RAPS_NR port nid r =
     row RING_STATE_IDLE
      [cond (\<lambda>r. if \<not> is_rpl_owner r \<and> \<not> is_rpl_neighbour r then node_lt_remote r nid
           else Inr False)
         [unblock_nonfailed_ports, stop_tx] []] r"
| "fsm_idle now RING_REQ_INVALID port nid r =
     row RING_STATE_IDLE [] r"

text \<open>Rows 16 to 29, \<^verbatim>\<open>RING_STATE_PROTECTION\<close>.\<close>

fun fsm_protection :: "i32 \<Rightarrow> ring_request \<Rightarrow> port_ptr \<Rightarrow> bytes option \<Rightarrow> er_ring
    \<Rightarrow> fault + (er_ring \<times> ring_state)" where
  "fsm_protection now RING_REQ_CLEAR port nid r =
     row RING_STATE_PROTECTION [] r"
| "fsm_protection now RING_REQ_FS port nid r =
     row RING_STATE_FORCED_SWITCH
      [switch_port RAPS_REQ_FS port] r"
| "fsm_protection now RING_REQ_RAPS_FS port nid r =
     row RING_STATE_FORCED_SWITCH
      [unblock_port (Some PORT0),
       unblock_port (Some PORT1),
       stop_tx] r"
| "fsm_protection now RING_REQ_SF port nid r =
     row RING_STATE_PROTECTION
      [switch_port RAPS_REQ_SF port] r"
| "fsm_protection now RING_REQ_CLEAR_SF port nid r =
     row RING_STATE_PENDING
      [start_guard_timer now,
       start_tx RAPS_REQ_NR 0,
       guard_do (\<lambda>r. is_rpl_owner r \<and> is_revertive r) [start_wtr_timer now]] r"
| "fsm_protection now RING_REQ_RAPS_SF port nid r =
     row RING_STATE_PROTECTION [] r"
| "fsm_protection now RING_REQ_RAPS_MS port nid r =
     row RING_STATE_PROTECTION [] r"
| "fsm_protection now RING_REQ_MS port nid r =
     row RING_STATE_PROTECTION [] r"
| "fsm_protection now RING_REQ_WTR_EXPIRES port nid r =
     row RING_STATE_PROTECTION [] r"
| "fsm_protection now RING_REQ_WTR_RUNNING port nid r =
     row RING_STATE_PROTECTION [] r"
| "fsm_protection now RING_REQ_WTB_EXPIRES port nid r =
     row RING_STATE_PROTECTION [] r"
| "fsm_protection now RING_REQ_WTB_RUNNING port nid r =
     row RING_STATE_PROTECTION [] r"
| "fsm_protection now RING_REQ_RAPS_NR_RB port nid r =
     row RING_STATE_PENDING [] r"
| "fsm_protection now RING_REQ_RAPS_NR port nid r =
     row RING_STATE_PENDING
      [guard_do (\<lambda>r. is_rpl_owner r \<and> is_revertive r) [start_wtr_timer now]] r"
| "fsm_protection now RING_REQ_INVALID port nid r =
     row RING_STATE_PROTECTION [] r"

text \<open>Rows 30 to 43, \<^verbatim>\<open>RING_STATE_MANUAL_SWITCH\<close>.\<close>

fun fsm_manual_switch :: "i32 \<Rightarrow> ring_request \<Rightarrow> port_ptr \<Rightarrow> bytes option \<Rightarrow> er_ring
    \<Rightarrow> fault + (er_ring \<times> ring_state)" where
  "fsm_manual_switch now RING_REQ_CLEAR port nid r =
     row RING_STATE_PENDING
      [cond (\<lambda>r. bind_res (is_port_blocked (Some PORT1) r) (\<lambda>b. if b then Inr True
           else is_port_blocked (Some PORT0) r))
         [start_guard_timer now,
          start_tx RAPS_REQ_NR 0,
          guard_do (\<lambda>r. is_rpl_owner r \<and> is_revertive r) [start_wtb_timer now]]
         []] r"
| "fsm_manual_switch now RING_REQ_FS port nid r =
     row RING_STATE_FORCED_SWITCH
      [switch_port RAPS_REQ_FS port] r"
| "fsm_manual_switch now RING_REQ_RAPS_FS port nid r =
     row RING_STATE_FORCED_SWITCH
      [unblock_port (Some PORT0),
       unblock_port (Some PORT1),
       stop_tx] r"
| "fsm_manual_switch now RING_REQ_SF port nid r =
     row RING_STATE_PROTECTION
      [switch_port RAPS_REQ_SF port] r"
| "fsm_manual_switch now RING_REQ_CLEAR_SF port nid r =
     row RING_STATE_MANUAL_SWITCH [] r"
| "fsm_manual_switch now RING_REQ_RAPS_SF port nid r =
     row RING_STATE_MANUAL_SWITCH
      [unblock_nonfailed_ports,
       stop_tx] r"
| "fsm_manual_switch now RING_REQ_RAPS_MS port nid r =
     bind_res (is_port_blocked (Some PORT0) r) (\<lambda>b0.
     bind_res (if b0 then Inr True else is_port_blocked (Some PORT1) r) (\<lambda>b.
     if b
     then row RING_STATE_PENDING
           [start_guard_timer now,
            start_tx RAPS_REQ_NR 0,
            guard_do (\<lambda>r. is_rpl_owner r \<and> is_revertive r) [start_wtb_timer now]] r
     else row RING_STATE_MANUAL_SWITCH [] r))"
| "fsm_manual_switch now RING_REQ_MS port nid r =
     row RING_STATE_MANUAL_SWITCH [] r"
| "fsm_manual_switch now RING_REQ_WTR_EXPIRES port nid r =
     row RING_STATE_MANUAL_SWITCH [] r"
| "fsm_manual_switch now RING_REQ_WTR_RUNNING port nid r =
     row RING_STATE_MANUAL_SWITCH [] r"
| "fsm_manual_switch now RING_REQ_WTB_EXPIRES port nid r =
     row RING_STATE_MANUAL_SWITCH [] r"
| "fsm_manual_switch now RING_REQ_WTB_RUNNING port nid r =
     row RING_STATE_MANUAL_SWITCH [] r"
| "fsm_manual_switch now RING_REQ_RAPS_NR_RB port nid r =
     row RING_STATE_PENDING [] r"
| "fsm_manual_switch now RING_REQ_RAPS_NR port nid r =
     row RING_STATE_PENDING
      [guard_do (\<lambda>r. is_rpl_owner r \<and> is_revertive r) [start_wtb_timer now]] r"
| "fsm_manual_switch now RING_REQ_INVALID port nid r =
     row RING_STATE_MANUAL_SWITCH [] r"

text \<open>Rows 44 to 57, \<^verbatim>\<open>RING_STATE_FORCED_SWITCH\<close>.\<close>

fun fsm_forced_switch :: "i32 \<Rightarrow> ring_request \<Rightarrow> port_ptr \<Rightarrow> bytes option \<Rightarrow> er_ring
    \<Rightarrow> fault + (er_ring \<times> ring_state)" where
  "fsm_forced_switch now RING_REQ_CLEAR port nid r =
     row RING_STATE_PENDING
      [cond (\<lambda>r. bind_res (is_port_blocked (Some PORT0) r) (\<lambda>b. if b then Inr True
           else is_port_blocked (Some PORT1) r))
         [start_guard_timer now,
          start_tx RAPS_REQ_NR 0,
          guard_do (\<lambda>r. is_rpl_owner r \<and> is_revertive r) [start_wtb_timer now]]
         []] r"
| "fsm_forced_switch now RING_REQ_FS port nid r =
     row RING_STATE_FORCED_SWITCH
      [block_port port,
       start_tx RAPS_REQ_FS 0,
       flush_fdb] r"
| "fsm_forced_switch now RING_REQ_RAPS_FS port nid r =
     row RING_STATE_FORCED_SWITCH [] r"
| "fsm_forced_switch now RING_REQ_SF port nid r =
     row RING_STATE_FORCED_SWITCH [] r"
| "fsm_forced_switch now RING_REQ_CLEAR_SF port nid r =
     row RING_STATE_FORCED_SWITCH [] r"
| "fsm_forced_switch now RING_REQ_RAPS_SF port nid r =
     row RING_STATE_FORCED_SWITCH [] r"
| "fsm_forced_switch now RING_REQ_RAPS_MS port nid r =
     row RING_STATE_FORCED_SWITCH [] r"
| "fsm_forced_switch now RING_REQ_MS port nid r =
     row RING_STATE_FORCED_SWITCH [] r"
| "fsm_forced_switch now RING_REQ_WTR_EXPIRES port nid r =
     row RING_STATE_FORCED_SWITCH [] r"
| "fsm_forced_switch now RING_REQ_WTR_RUNNING port nid r =
     row RING_STATE_FORCED_SWITCH [] r"
| "fsm_forced_switch now RING_REQ_WTB_EXPIRES port nid r =
     row RING_STATE_FORCED_SWITCH [] r"
| "fsm_forced_switch now RING_REQ_WTB_RUNNING port nid r =
     row RING_STATE_FORCED_SWITCH [] r"
| "fsm_forced_switch now RING_REQ_RAPS_NR_RB port nid r =
     row RING_STATE_PENDING [] r"
| "fsm_forced_switch now RING_REQ_RAPS_NR port nid r =
     row RING_STATE_PENDING
      [guard_do (\<lambda>r. is_rpl_owner r \<and> is_revertive r) [start_wtb_timer now]] r"
| "fsm_forced_switch now RING_REQ_INVALID port nid r =
     row RING_STATE_FORCED_SWITCH [] r"

text \<open>Rows 58 to 71, \<^verbatim>\<open>RING_STATE_PENDING\<close>.\<close>

fun fsm_pending :: "i32 \<Rightarrow> ring_request \<Rightarrow> port_ptr \<Rightarrow> bytes option \<Rightarrow> er_ring
    \<Rightarrow> fault + (er_ring \<times> ring_state)" where
  "fsm_pending now RING_REQ_CLEAR port nid r =
     row RING_STATE_IDLE
      [guard_do (\<lambda>r. is_rpl_owner r)
         [stop_wtr_timer, stop_wtb_timer, revert_rpl (RAPS_FLAG_RB OR RAPS_FLAG_DNF)]] r"
| "fsm_pending now RING_REQ_FS port nid r =
     row RING_STATE_FORCED_SWITCH
      [switch_port RAPS_REQ_FS port,
       guard_do (\<lambda>r. is_rpl_owner r) [stop_wtr_timer, stop_wtb_timer]] r"
| "fsm_pending now RING_REQ_RAPS_FS port nid r =
     row RING_STATE_FORCED_SWITCH
      [unblock_port (Some PORT0),
       unblock_port (Some PORT1),
       stop_tx,
       guard_do (\<lambda>r. is_rpl_owner r) [stop_wtr_timer, stop_wtb_timer]] r"
| "fsm_pending now RING_REQ_SF port nid r =
     row RING_STATE_PROTECTION
      [switch_port RAPS_REQ_SF port,
       guard_do (\<lambda>r. is_rpl_owner r) [stop_wtr_timer, stop_wtb_timer]] r"
| "fsm_pending now RING_REQ_CLEAR_SF port nid r =
     row RING_STATE_PENDING [] r"
| "fsm_pending now RING_REQ_RAPS_SF port nid r =
     row RING_STATE_PROTECTION
      [unblock_nonfailed_ports,
       stop_tx,
       guard_do (\<lambda>r. is_rpl_owner r) [stop_wtr_timer, stop_wtb_timer]] r"
| "fsm_pending now RING_REQ_RAPS_MS port nid r =
     row RING_STATE_MANUAL_SWITCH
      [unblock_nonfailed_ports,
       stop_tx,
       guard_do (\<lambda>r. is_rpl_owner r) [stop_wtr_timer, stop_wtb_timer]] r"
| "fsm_pending now RING_REQ_MS port nid r =
     row RING_STATE_MANUAL_SWITCH
      [guard_do (\<lambda>r. is_rpl_owner r) [stop_wtr_timer, stop_wtb_timer],
       switch_port RAPS_REQ_MS port] r"
| "fsm_pending now RING_REQ_WTR_EXPIRES port nid r =
     row RING_STATE_IDLE
      [guard_do (\<lambda>r. is_rpl_owner r)
         [stop_wtb_timer, revert_rpl (RAPS_FLAG_DNF OR RAPS_FLAG_RB)]] r"
| "fsm_pending now RING_REQ_WTR_RUNNING port nid r =
     row RING_STATE_PENDING [] r"
| "fsm_pending now RING_REQ_WTB_EXPIRES port nid r =
     row RING_STATE_IDLE
      [guard_do (\<lambda>r. is_rpl_owner r)
         [stop_wtr_timer, revert_rpl (RAPS_FLAG_RB OR RAPS_FLAG_DNF)]] r"
| "fsm_pending now RING_REQ_WTB_RUNNING port nid r =
     row RING_STATE_PENDING [] r"
| "fsm_pending now RING_REQ_RAPS_NR_RB port nid r =
     row RING_STATE_IDLE
      [guard_do (\<lambda>r. is_rpl_owner r) [stop_wtr_timer, stop_wtb_timer],
       guard_do (\<lambda>r. \<not> is_rpl_owner r \<and> \<not> is_rpl_neighbour r)
         [unblock_port (Some PORT0), unblock_port (Some PORT1), stop_tx],
       guard_do (\<lambda>r. is_rpl_neighbour r) [block_rpl, unblock_other_rpl, stop_tx]] r"
| "fsm_pending now RING_REQ_RAPS_NR port nid r =
     row RING_STATE_PENDING
      [cond (\<lambda>r. node_lt_remote r nid) [unblock_nonfailed_ports, stop_tx] []] r"
| "fsm_pending now RING_REQ_INVALID port nid r =
     row RING_STATE_PENDING [] r"

section \<open>The machine\<close>

fun fsm_row :: "i32 \<Rightarrow> ring_request \<Rightarrow> port_ptr \<Rightarrow> bytes option \<Rightarrow> er_ring
    \<Rightarrow> fault + (er_ring \<times> ring_state)" where
  "fsm_row now req port nid r = (case state r of
     RING_STATE_INIT \<Rightarrow> fsm_init now r
   | RING_STATE_IDLE \<Rightarrow> fsm_idle now req port nid r
   | RING_STATE_PROTECTION \<Rightarrow> fsm_protection now req port nid r
   | RING_STATE_MANUAL_SWITCH \<Rightarrow> fsm_manual_switch now req port nid r
   | RING_STATE_FORCED_SWITCH \<Rightarrow> fsm_forced_switch now req port nid r
   | RING_STATE_PENDING \<Rightarrow> fsm_pending now req port nid r)"

definition ring_fsm :: "i32 \<Rightarrow> er_ring \<Rightarrow> ring_request \<Rightarrow> port_ptr \<Rightarrow> bytes option \<Rightarrow> fault + er_ring" where
  "ring_fsm now r req port nid =
     bind_res (fsm_dedup r req port nid) (\<lambda>d.
       case d of
         Impossible \<Rightarrow> Inr r
       | Dupe \<Rightarrow> Inr r
       | Fresh \<Rightarrow>
           bind_res (fsm_row now req port nid (fsm_save req port nid r)) (\<lambda>(r', new_state).
             Inr (r'\<lparr>state := new_state\<rparr>)))"

end
