(* ===== verification/Actions.thy ===== *)
theory Actions
  imports Fsm
begin

text \<open>
  What the actions of the ring do, in closed form. The two ports are seen through an interface
  of three operations; \<open>tx\<close>, \<open>only_block\<close>, \<open>open_ports\<close> and \<open>open_nonfailed\<close> are the total
  effects of \<^verbatim>\<open>start_tx\<close>, of the switch-over block and of the unblocking rows on a ring whose
  transmit side is set up. Every row of the machine is a composition of these.
\<close>

section \<open>A pair of ports\<close>

locale port_pair =
  fixes blocked :: "'p \<Rightarrow> 's \<Rightarrow> bool"
    and block :: "'p \<Rightarrow> 's \<Rightarrow> 's"
    and unblock :: "'p \<Rightarrow> 's \<Rightarrow> 's"
    and other :: "'p \<Rightarrow> 'p"
  assumes blocked_block: "blocked q (block p s) \<longleftrightarrow> q = p \<or> blocked q s"
    and blocked_unblock: "blocked q (unblock p s) \<longleftrightarrow> q \<noteq> p \<and> blocked q s"
    and other_neq: "other p \<noteq> p"
    and two_ports: "q = p \<or> q = other p"
begin

lemma switch_over: "blocked q (unblock (other p) (block p s)) \<longleftrightarrow> q = p"
  using blocked_block blocked_unblock other_neq two_ports by metis

lemma open_both: "\<not> blocked q (unblock (other p) (unblock p s))"
  using blocked_unblock two_ports by metis

lemma other_other: "other (other p) = p"
  using other_neq two_ports by metis

lemma switch_over_not_both:
  "\<not> (blocked p (unblock (other q) (block q s)) \<and> blocked (other p) (unblock (other q) (block q s)))"
  using switch_over other_neq by metis

end

definition blocked :: "port_id \<Rightarrow> er_ring \<Rightarrow> bool" where
  "blocked p r = is_blocked (get_port p r)"

fun other_port :: "port_id \<Rightarrow> port_id" where
  "other_port PORT0 = PORT1"
| "other_port PORT1 = PORT0"

lemma er_ring_other_port_Some [act_simps]: "er_ring_other_port (Some p) = Some (other_port p)"
  by (cases p) (simp_all add: er_ring_other_port_def)

interpretation ports: port_pair blocked "\<lambda>p. upd_port p er_port_block" "\<lambda>p. upd_port p er_port_unblock" other_port
proof unfold_locales
  fix p q r
  show "blocked q (upd_port p er_port_block r) \<longleftrightarrow> q = p \<or> blocked q r"
    by (cases p; cases q) (simp_all add: blocked_def act_simps)
  show "blocked q (upd_port p er_port_unblock r) \<longleftrightarrow> q \<noteq> p \<and> blocked q r"
    by (cases p; cases q) (simp_all add: blocked_def act_simps)
  show "other_port p \<noteq> p" by (cases p) simp_all
  show "q = p \<or> q = other_port p" by (cases p; cases q) simp_all
qed

lemma is_port_blocked_Some [act_simps]: "is_port_blocked (Some p) r = Inr (blocked p r)"
  by (simp add: is_port_blocked_def blocked_def er_port_is_blocked_def)

lemma is_port_blocked_None [act_simps]: "is_port_blocked None r = Inl NullPtr"
  by (simp add: is_port_blocked_def)

section \<open>Total effects\<close>

definition ring_ok :: "er_ring \<Rightarrow> bool" where
  "ring_ok r \<longleftrightarrow> rp_node_id (raps r) = NodeRing \<and> length (node_id r) = 6 \<and>
     raps_frame_len r = 55 \<and> length (raps_frame r) = 55"

definition tx :: "raps_request \<Rightarrow> u8 \<Rightarrow> er_ring \<Rightarrow> er_ring" where
  "tx q f r =
     (let rp = (raps r)\<lparr>rp_request := q, rp_flags := f\<rparr> in
      (if rp_request (raps r) \<noteq> q \<or> rp_flags (raps r) \<noteq> f
       then r\<lparr>raps := rp, raps_frame := raps_bytes rp (node_id r), raps_bursts_remain := 3\<rparr>
       else r)\<lparr>is_sending_raps := True\<rparr>)"

definition only_block :: "port_id \<Rightarrow> er_ring \<Rightarrow> er_ring" where
  "only_block p r = upd_port (other_port p) er_port_unblock (upd_port p er_port_block r)"

definition open_ports :: "er_ring \<Rightarrow> er_ring" where
  "open_ports r = r\<lparr>port0 := er_port_unblock (port0 r), port1 := er_port_unblock (port1 r)\<rparr>"

definition open_nonfailed :: "er_ring \<Rightarrow> er_ring" where
  "open_nonfailed r =
     (let r' = (if is_failed (port0 r) then r else upd_port PORT0 er_port_unblock r)
      in if is_failed (port1 r') then r' else upd_port PORT1 er_port_unblock r')"

lemma start_tx_ok [act_simps]: "ring_ok r \<Longrightarrow> start_tx q f r = Inr (tx q f r)"
  by (simp add: start_tx_def tx_def ring_ok_def node_bytes_def er_raps_encode_eq Let_def)

lemma block_port_Some [act_simps]: "block_port (Some p) r = Inr (upd_port p er_port_block r)"
  by (simp add: block_port_def)

lemma unblock_port_Some [act_simps]: "unblock_port (Some p) r = Inr (upd_port p er_port_unblock r)"
  by (simp add: unblock_port_def)

lemma port_None [act_simps]: "block_port None r = Inl NullPtr" "unblock_port None r = Inl NullPtr"
  by (simp_all add: block_port_def unblock_port_def)

lemma timer_ok [act_simps]:
  "start_wtr_timer now r = Inr (r\<lparr>wtr_timer_active_since := now, wtr_timer_active := True\<rparr>)"
  "start_wtb_timer now r = Inr (r\<lparr>wtb_timer_active_since := now, wtb_timer_active := True\<rparr>)"
  "start_guard_timer now r = Inr (r\<lparr>guard_timer_active_since := now, guard_timer_active := True\<rparr>)"
  "stop_wtr_timer r = Inr (r\<lparr>wtr_timer_active := False\<rparr>)"
  "stop_wtb_timer r = Inr (r\<lparr>wtb_timer_active := False\<rparr>)"
  "stop_guard_timer r = Inr (r\<lparr>guard_timer_active := False\<rparr>)"
  "stop_tx r = Inr (r\<lparr>is_sending_raps := False\<rparr>)"
  "flush_fdb r = Inr r"
  by (simp_all add: start_wtr_timer_def start_wtb_timer_def start_guard_timer_def stop_wtr_timer_def
      stop_wtb_timer_def stop_guard_timer_def stop_tx_def flush_fdb_def)

lemma unblock_nonfailed_ok [act_simps]: "unblock_nonfailed_ports r = Inr (open_nonfailed r)"
  by (simp add: unblock_nonfailed_ports_def open_nonfailed_def act_simps Let_def)

section \<open>What each effect leaves alone\<close>

text \<open>The configuration of a ring: everything the state machine only reads.\<close>

definition ring_cfg where
  "ring_cfg (r :: er_ring) = ((ring_addr r, port0_addr r, port1_addr r, raps_addr r, raps_frame_addr r, vale_name r,
     port_name (port0 r), port_name (port1 r), idx (port0 r), idx (port1 r),
     is_failed (port0 r), is_failed (port1 r), port_na (port0 r), port_na (port1 r),
     port_ifp (port0 r), port_ifp (port1 r), link_event (port0 r), link_event (port1 r)),
    (is_rpl_owner r, is_rpl_neighbour r, is_revertive r, rpl_port r, version r, ring_id r,
     raps_vid r, node_id r, guard_time r, wtr_time r, wtb_time r, active r),
    (rp_ring_id (raps r), rp_vid (raps r), rp_version (raps r), rp_subcode (raps r),
     rp_node_id (raps r), raps_frame_len r))"

text \<open>The control state: what the request logic works on.\<close>

definition ring_ctl where
  "ring_ctl (r :: er_ring) = (local_request r, state r, prev_request r, prev_request_port r,
     prev_request_remote_node_id r)"

definition ring_timers where
  "ring_timers (r :: er_ring) = (guard_timer_active r, guard_timer_active_since r, wtr_timer_active r,
     wtr_timer_active_since r, wtb_timer_active r, wtb_timer_active_since r)"

definition ring_tx where
  "ring_tx (r :: er_ring) = (is_sending_raps r, raps r, raps_frame r, raps_bursts_remain r)"

lemma upd_port_frame [act_simps]:
  assumes "f \<in> {er_port_block, er_port_unblock}"
  shows "ring_cfg (upd_port p f r) = ring_cfg r" "ring_ctl (upd_port p f r) = ring_ctl r"
    "ring_timers (upd_port p f r) = ring_timers r" "ring_tx (upd_port p f r) = ring_tx r"
    "ring_ok (upd_port p f r) = ring_ok r"
  using assms
  by (cases p; auto simp: ring_cfg_def ring_ctl_def ring_timers_def ring_tx_def ring_ok_def
      er_port_block_def er_port_unblock_def)+

lemma tx_frame [act_simps]:
  "ring_cfg (tx q f r) = ring_cfg r" "ring_ctl (tx q f r) = ring_ctl r"
  "ring_timers (tx q f r) = ring_timers r" "blocked p (tx q f r) = blocked p r"
  "is_sending_raps (tx q f r)" "rp_request (raps (tx q f r)) = q" "rp_flags (raps (tx q f r)) = f"
  "ring_ok r \<Longrightarrow> ring_ok (tx q f r)"
  by (cases p; auto simp: tx_def ring_cfg_def ring_ctl_def ring_timers_def ring_ok_def blocked_def Let_def)+

lemma blocked_effects [act_simps]:
  "blocked q (only_block p r) \<longleftrightarrow> q = p"
  "\<not> blocked q (open_ports r)"
  "blocked q (open_nonfailed r) \<longleftrightarrow> blocked q r \<and> is_failed (get_port q r)"
proof -
  show "blocked q (only_block p r) \<longleftrightarrow> q = p"
    unfolding only_block_def by (rule ports.switch_over)
  show "\<not> blocked q (open_ports r)"
    by (cases q) (simp_all add: open_ports_def blocked_def act_simps)
  show "blocked q (open_nonfailed r) \<longleftrightarrow> blocked q r \<and> is_failed (get_port q r)"
    by (cases q) (auto simp: open_nonfailed_def blocked_def Let_def er_port_unblock_def)
qed

lemma effects_frame [act_simps]:
  "ring_cfg (only_block p r) = ring_cfg r" "ring_ctl (only_block p r) = ring_ctl r"
  "ring_timers (only_block p r) = ring_timers r" "ring_tx (only_block p r) = ring_tx r"
  "ring_cfg (open_ports r) = ring_cfg r" "ring_ctl (open_ports r) = ring_ctl r"
  "ring_timers (open_ports r) = ring_timers r" "ring_tx (open_ports r) = ring_tx r"
  "ring_cfg (open_nonfailed r) = ring_cfg r" "ring_ctl (open_nonfailed r) = ring_ctl r"
  "ring_timers (open_nonfailed r) = ring_timers r" "ring_tx (open_nonfailed r) = ring_tx r"
  by (simp_all add: only_block_def open_nonfailed_def act_simps Let_def)
    (simp_all add: open_ports_def ring_cfg_def ring_ctl_def ring_timers_def ring_tx_def er_port_unblock_def)

section \<open>Selectors over effects\<close>

lemma upd_port_sel [act_simps]:
  "is_rpl_owner (upd_port p f r) = is_rpl_owner r"
  "is_rpl_neighbour (upd_port p f r) = is_rpl_neighbour r"
  "is_revertive (upd_port p f r) = is_revertive r" "rpl_port (upd_port p f r) = rpl_port r"
  "version (upd_port p f r) = version r" "ring_id (upd_port p f r) = ring_id r"
  "raps_vid (upd_port p f r) = raps_vid r" "node_id (upd_port p f r) = node_id r"
  "raps_frame_len (upd_port p f r) = raps_frame_len r"
  "guard_time (upd_port p f r) = guard_time r" "wtr_time (upd_port p f r) = wtr_time r"
  "wtb_time (upd_port p f r) = wtb_time r" "active (upd_port p f r) = active r"
  "vale_name (upd_port p f r) = vale_name r" "local_request (upd_port p f r) = local_request r"
  "state (upd_port p f r) = state r" "prev_request (upd_port p f r) = prev_request r"
  "prev_request_port (upd_port p f r) = prev_request_port r"
  "prev_request_remote_node_id (upd_port p f r) = prev_request_remote_node_id r"
  "guard_timer_active (upd_port p f r) = guard_timer_active r"
  "guard_timer_active_since (upd_port p f r) = guard_timer_active_since r"
  "wtr_timer_active (upd_port p f r) = wtr_timer_active r"
  "wtr_timer_active_since (upd_port p f r) = wtr_timer_active_since r"
  "wtb_timer_active (upd_port p f r) = wtb_timer_active r"
  "wtb_timer_active_since (upd_port p f r) = wtb_timer_active_since r"
  "is_sending_raps (upd_port p f r) = is_sending_raps r" "raps (upd_port p f r) = raps r"
  "raps_frame (upd_port p f r) = raps_frame r"
  "raps_bursts_remain (upd_port p f r) = raps_bursts_remain r"
  by (cases p; simp)+

lemma tx_sel [act_simps]:
  "is_rpl_owner (tx q f r) = is_rpl_owner r" "is_rpl_neighbour (tx q f r) = is_rpl_neighbour r"
  "is_revertive (tx q f r) = is_revertive r" "rpl_port (tx q f r) = rpl_port r"
  "version (tx q f r) = version r" "ring_id (tx q f r) = ring_id r"
  "raps_vid (tx q f r) = raps_vid r" "node_id (tx q f r) = node_id r"
  "raps_frame_len (tx q f r) = raps_frame_len r" "guard_time (tx q f r) = guard_time r"
  "wtr_time (tx q f r) = wtr_time r" "wtb_time (tx q f r) = wtb_time r"
  "active (tx q f r) = active r" "vale_name (tx q f r) = vale_name r"
  "local_request (tx q f r) = local_request r" "state (tx q f r) = state r"
  "prev_request (tx q f r) = prev_request r"
  "prev_request_port (tx q f r) = prev_request_port r"
  "prev_request_remote_node_id (tx q f r) = prev_request_remote_node_id r"
  "guard_timer_active (tx q f r) = guard_timer_active r"
  "guard_timer_active_since (tx q f r) = guard_timer_active_since r"
  "wtr_timer_active (tx q f r) = wtr_timer_active r"
  "wtr_timer_active_since (tx q f r) = wtr_timer_active_since r"
  "wtb_timer_active (tx q f r) = wtb_timer_active r"
  "wtb_timer_active_since (tx q f r) = wtb_timer_active_since r" "port0 (tx q f r) = port0 r"
  "port1 (tx q f r) = port1 r" "get_port p (tx q f r) = get_port p r"
  by (cases p; simp add: tx_def Let_def)+

lemma only_block_sel [act_simps]:
  "is_rpl_owner (only_block p r) = is_rpl_owner r"
  "is_rpl_neighbour (only_block p r) = is_rpl_neighbour r"
  "is_revertive (only_block p r) = is_revertive r" "rpl_port (only_block p r) = rpl_port r"
  "version (only_block p r) = version r" "ring_id (only_block p r) = ring_id r"
  "raps_vid (only_block p r) = raps_vid r" "node_id (only_block p r) = node_id r"
  "raps_frame_len (only_block p r) = raps_frame_len r"
  "guard_time (only_block p r) = guard_time r" "wtr_time (only_block p r) = wtr_time r"
  "wtb_time (only_block p r) = wtb_time r" "active (only_block p r) = active r"
  "vale_name (only_block p r) = vale_name r" "local_request (only_block p r) = local_request r"
  "state (only_block p r) = state r" "prev_request (only_block p r) = prev_request r"
  "prev_request_port (only_block p r) = prev_request_port r"
  "prev_request_remote_node_id (only_block p r) = prev_request_remote_node_id r"
  "guard_timer_active (only_block p r) = guard_timer_active r"
  "guard_timer_active_since (only_block p r) = guard_timer_active_since r"
  "wtr_timer_active (only_block p r) = wtr_timer_active r"
  "wtr_timer_active_since (only_block p r) = wtr_timer_active_since r"
  "wtb_timer_active (only_block p r) = wtb_timer_active r"
  "wtb_timer_active_since (only_block p r) = wtb_timer_active_since r"
  "is_sending_raps (only_block p r) = is_sending_raps r" "raps (only_block p r) = raps r"
  "raps_frame (only_block p r) = raps_frame r"
  "raps_bursts_remain (only_block p r) = raps_bursts_remain r"
  by (simp_all add: only_block_def upd_port_sel)

lemma open_ports_sel [act_simps]:
  "is_rpl_owner (open_ports r) = is_rpl_owner r"
  "is_rpl_neighbour (open_ports r) = is_rpl_neighbour r"
  "is_revertive (open_ports r) = is_revertive r" "rpl_port (open_ports r) = rpl_port r"
  "version (open_ports r) = version r" "ring_id (open_ports r) = ring_id r"
  "raps_vid (open_ports r) = raps_vid r" "node_id (open_ports r) = node_id r"
  "raps_frame_len (open_ports r) = raps_frame_len r" "guard_time (open_ports r) = guard_time r"
  "wtr_time (open_ports r) = wtr_time r" "wtb_time (open_ports r) = wtb_time r"
  "active (open_ports r) = active r" "vale_name (open_ports r) = vale_name r"
  "local_request (open_ports r) = local_request r" "state (open_ports r) = state r"
  "prev_request (open_ports r) = prev_request r"
  "prev_request_port (open_ports r) = prev_request_port r"
  "prev_request_remote_node_id (open_ports r) = prev_request_remote_node_id r"
  "guard_timer_active (open_ports r) = guard_timer_active r"
  "guard_timer_active_since (open_ports r) = guard_timer_active_since r"
  "wtr_timer_active (open_ports r) = wtr_timer_active r"
  "wtr_timer_active_since (open_ports r) = wtr_timer_active_since r"
  "wtb_timer_active (open_ports r) = wtb_timer_active r"
  "wtb_timer_active_since (open_ports r) = wtb_timer_active_since r"
  "is_sending_raps (open_ports r) = is_sending_raps r" "raps (open_ports r) = raps r"
  "raps_frame (open_ports r) = raps_frame r"
  "raps_bursts_remain (open_ports r) = raps_bursts_remain r"
  by (simp_all add: open_ports_def)

lemma open_nonfailed_sel [act_simps]:
  "is_rpl_owner (open_nonfailed r) = is_rpl_owner r"
  "is_rpl_neighbour (open_nonfailed r) = is_rpl_neighbour r"
  "is_revertive (open_nonfailed r) = is_revertive r" "rpl_port (open_nonfailed r) = rpl_port r"
  "version (open_nonfailed r) = version r" "ring_id (open_nonfailed r) = ring_id r"
  "raps_vid (open_nonfailed r) = raps_vid r" "node_id (open_nonfailed r) = node_id r"
  "raps_frame_len (open_nonfailed r) = raps_frame_len r"
  "guard_time (open_nonfailed r) = guard_time r" "wtr_time (open_nonfailed r) = wtr_time r"
  "wtb_time (open_nonfailed r) = wtb_time r" "active (open_nonfailed r) = active r"
  "vale_name (open_nonfailed r) = vale_name r"
  "local_request (open_nonfailed r) = local_request r" "state (open_nonfailed r) = state r"
  "prev_request (open_nonfailed r) = prev_request r"
  "prev_request_port (open_nonfailed r) = prev_request_port r"
  "prev_request_remote_node_id (open_nonfailed r) = prev_request_remote_node_id r"
  "guard_timer_active (open_nonfailed r) = guard_timer_active r"
  "guard_timer_active_since (open_nonfailed r) = guard_timer_active_since r"
  "wtr_timer_active (open_nonfailed r) = wtr_timer_active r"
  "wtr_timer_active_since (open_nonfailed r) = wtr_timer_active_since r"
  "wtb_timer_active (open_nonfailed r) = wtb_timer_active r"
  "wtb_timer_active_since (open_nonfailed r) = wtb_timer_active_since r"
  "is_sending_raps (open_nonfailed r) = is_sending_raps r" "raps (open_nonfailed r) = raps r"
  "raps_frame (open_nonfailed r) = raps_frame r"
  "raps_bursts_remain (open_nonfailed r) = raps_bursts_remain r"
  by (simp_all add: open_nonfailed_def upd_port_sel Let_def)

lemma blocked_update [act_simps]:
  "blocked p (r\<lparr>local_request := x_local_request\<rparr>) = blocked p r"
  "blocked p (r\<lparr>state := x_state\<rparr>) = blocked p r"
  "blocked p (r\<lparr>prev_request := x_prev_request\<rparr>) = blocked p r"
  "blocked p (r\<lparr>prev_request_port := x_prev_request_port\<rparr>) = blocked p r"
  "blocked p (r\<lparr>prev_request_remote_node_id := x_prev_request_remote_node_id\<rparr>) = blocked p r"
  "blocked p (r\<lparr>guard_timer_active := x_guard_timer_active\<rparr>) = blocked p r"
  "blocked p (r\<lparr>guard_timer_active_since := x_guard_timer_active_since\<rparr>) = blocked p r"
  "blocked p (r\<lparr>wtr_timer_active := x_wtr_timer_active\<rparr>) = blocked p r"
  "blocked p (r\<lparr>wtr_timer_active_since := x_wtr_timer_active_since\<rparr>) = blocked p r"
  "blocked p (r\<lparr>wtb_timer_active := x_wtb_timer_active\<rparr>) = blocked p r"
  "blocked p (r\<lparr>wtb_timer_active_since := x_wtb_timer_active_since\<rparr>) = blocked p r"
  "blocked p (r\<lparr>is_sending_raps := x_is_sending_raps\<rparr>) = blocked p r"
  by (cases p; simp add: blocked_def)+

lemma get_port_update [act_simps]:
  "get_port p (r\<lparr>local_request := x_local_request\<rparr>) = get_port p r"
  "get_port p (r\<lparr>state := x_state\<rparr>) = get_port p r"
  "get_port p (r\<lparr>prev_request := x_prev_request\<rparr>) = get_port p r"
  "get_port p (r\<lparr>prev_request_port := x_prev_request_port\<rparr>) = get_port p r"
  "get_port p (r\<lparr>prev_request_remote_node_id := x_prev_request_remote_node_id\<rparr>) = get_port p r"
  "get_port p (r\<lparr>guard_timer_active := x_guard_timer_active\<rparr>) = get_port p r"
  "get_port p (r\<lparr>guard_timer_active_since := x_guard_timer_active_since\<rparr>) = get_port p r"
  "get_port p (r\<lparr>wtr_timer_active := x_wtr_timer_active\<rparr>) = get_port p r"
  "get_port p (r\<lparr>wtr_timer_active_since := x_wtr_timer_active_since\<rparr>) = get_port p r"
  "get_port p (r\<lparr>wtb_timer_active := x_wtb_timer_active\<rparr>) = get_port p r"
  "get_port p (r\<lparr>wtb_timer_active_since := x_wtb_timer_active_since\<rparr>) = get_port p r"
  "get_port p (r\<lparr>is_sending_raps := x_is_sending_raps\<rparr>) = get_port p r"
  by (cases p; simp)+

lemma ring_ok_update [act_simps]:
  "ring_ok (r\<lparr>local_request := x_local_request\<rparr>) = ring_ok r"
  "ring_ok (r\<lparr>state := x_state\<rparr>) = ring_ok r"
  "ring_ok (r\<lparr>prev_request := x_prev_request\<rparr>) = ring_ok r"
  "ring_ok (r\<lparr>prev_request_port := x_prev_request_port\<rparr>) = ring_ok r"
  "ring_ok (r\<lparr>prev_request_remote_node_id := x_prev_request_remote_node_id\<rparr>) = ring_ok r"
  "ring_ok (r\<lparr>guard_timer_active := x_guard_timer_active\<rparr>) = ring_ok r"
  "ring_ok (r\<lparr>guard_timer_active_since := x_guard_timer_active_since\<rparr>) = ring_ok r"
  "ring_ok (r\<lparr>wtr_timer_active := x_wtr_timer_active\<rparr>) = ring_ok r"
  "ring_ok (r\<lparr>wtr_timer_active_since := x_wtr_timer_active_since\<rparr>) = ring_ok r"
  "ring_ok (r\<lparr>wtb_timer_active := x_wtb_timer_active\<rparr>) = ring_ok r"
  "ring_ok (r\<lparr>wtb_timer_active_since := x_wtb_timer_active_since\<rparr>) = ring_ok r"
  "ring_ok (r\<lparr>is_sending_raps := x_is_sending_raps\<rparr>) = ring_ok r"
  by (simp_all add: ring_ok_def)

lemma ring_ok_effects [act_simps]:
  "ring_ok (only_block p r) = ring_ok r" "ring_ok (open_ports r) = ring_ok r"
  "ring_ok (open_nonfailed r) = ring_ok r"
  by (simp_all add: ring_ok_def act_simps)

lemma is_failed_effects [act_simps]:
  "is_failed (get_port q (only_block p r)) = is_failed (get_port q r)"
  "is_failed (get_port q (open_ports r)) = is_failed (get_port q r)"
  "is_failed (get_port q (open_nonfailed r)) = is_failed (get_port q r)"
  by (cases p; cases q; simp add: only_block_def open_ports_def open_nonfailed_def
      er_port_block_def er_port_unblock_def Let_def)+

section \<open>The repeated blocks\<close>

lemma block_blocked: "blocked p r \<Longrightarrow> upd_port p er_port_block r = r"
  by (cases p) (simp_all add: blocked_def er_port_block_def)

lemma upd_port_tx: "upd_port p f (tx q g r) = tx q g (upd_port p f r)"
  by (cases p) (simp_all add: tx_def Let_def)

lemma switch_port_ok [act_simps]:
  "ring_ok r \<Longrightarrow> switch_port q (Some p) r =
     Inr (tx q (if blocked p r then RAPS_FLAG_DNF else 0) (only_block p r))"
  by (simp add: switch_port_def act_simps only_block_def block_blocked upd_port_tx)

lemma revert_rpl_ok [act_simps]:
  "ring_ok r \<Longrightarrow> rpl_port r = Some p \<Longrightarrow> revert_rpl f r =
     Inr (tx RAPS_REQ_NR (if blocked p r then f else RAPS_FLAG_RB) (only_block p r))"
  by (simp add: revert_rpl_def act_simps only_block_def block_blocked upd_port_tx)

lemma unblock_both_ok [act_simps]:
  "upd_port PORT1 er_port_unblock (upd_port PORT0 er_port_unblock r) = open_ports r"
  by (simp add: open_ports_def)

lemma block_rpl_ok [act_simps]: "rpl_port r = Some p \<Longrightarrow> block_rpl r = Inr (upd_port p er_port_block r)"
  by (simp add: block_rpl_def act_simps)

lemma unblock_other_rpl_ok [act_simps]:
  "rpl_port r = Some p \<Longrightarrow> unblock_other_rpl r = Inr (upd_port (other_port p) er_port_unblock r)"
  "rpl_port r = None \<Longrightarrow> unblock_other_rpl r = Inr (upd_port PORT1 er_port_unblock r)"
  by (simp_all add: unblock_other_rpl_def act_simps er_ring_other_port_def split: port_id.split)
    (cases p; simp)

lemma block_other_fold [act_simps]:
  "upd_port (other_port p) er_port_unblock (upd_port p er_port_block r) = only_block p r"
  by (simp add: only_block_def)

lemma node_lt_remote_Some [act_simps]:
  "node_lt_remote r (Some n) = Inr (memcmp (take 6 (node_id r)) (take 6 n) < 0)"
  by (simp add: node_lt_remote_def)

lemma init_block_fold [act_simps]:
  "upd_port PORT1 er_port_unblock (upd_port PORT0 er_port_block r) = only_block PORT0 r"
  by (simp add: only_block_def)

text \<open>From here on a port update is taken apart only through the rules above.\<close>

declare upd_port.simps [simp del]

end
