(* ===== verification/G8032.thy ===== *)
theory G8032
  imports Actions
begin

text \<open>
  The specification of the state machine. The code walks the 71 rows of table 10-2 state by
  state, statement by statement; here the same behaviour is stated request by request, as an
  effect on the ports, on the transmitted message and on the three timers, and a next state.
  The refinement theorem says that \<^verbatim>\<open>ring_fsm\<close> performs exactly these effects.
\<close>

section \<open>Calls the code makes\<close>

text \<open>
  Requests taken from an R-APS message carry the sender's node id, requests about a port carry
  the port. A node id that is passed has six bytes.
\<close>

definition remote_requests :: "ring_request set" where
  "remote_requests = {RING_REQ_RAPS_NR, RING_REQ_RAPS_NR_RB, RING_REQ_RAPS_MS, RING_REQ_RAPS_SF,
     RING_REQ_RAPS_FS}"

definition port_requests :: "ring_request set" where
  "port_requests = {RING_REQ_MS, RING_REQ_SF, RING_REQ_FS, RING_REQ_CLEAR_SF}"

definition local_requests :: "ring_request set" where
  "local_requests = {RING_REQ_MS, RING_REQ_SF, RING_REQ_FS}"

definition valid_call :: "ring_request \<Rightarrow> port_ptr \<Rightarrow> bytes option \<Rightarrow> bool" where
  "valid_call req port nid \<longleftrightarrow>
     (req \<in> remote_requests \<longrightarrow> nid \<noteq> None) \<and> (req \<in> port_requests \<longrightarrow> port \<noteq> None) \<and>
     (case nid of None \<Rightarrow> True | Some n \<Rightarrow> length n = 6)"

lemmas request_sets = remote_requests_def port_requests_def local_requests_def

lemma valid_call_port:
  assumes "valid_call req port nid" and "req \<in> local_requests"
  obtains p where "port = Some p"
  using assms unfolding valid_call_def request_sets by (cases port) blast+

text \<open>An owner or a neighbour, never both, has a ring protection link.\<close>

definition rpl_ok :: "er_ring \<Rightarrow> bool" where
  "rpl_ok r \<longleftrightarrow> (is_rpl_owner r \<or> is_rpl_neighbour r \<longrightarrow> rpl_port r \<noteq> None) \<and>
     \<not> (is_rpl_owner r \<and> is_rpl_neighbour r)"

section \<open>Effects\<close>

datatype port_effect = Keep | OnlyBlock port_id | AlsoBlock port_id | OpenAll | OpenNonfailed
  | Open port_id

datatype tx_effect = KeepTx | Silence | Announce raps_request u8

datatype timer_effect = KeepTimer | Start | Stop

record effect =
  ef_ports :: port_effect
  ef_tx :: tx_effect
  ef_guard :: timer_effect
  ef_wtr :: timer_effect
  ef_wtb :: timer_effect
  ef_next :: ring_state

fun apply_ports :: "port_effect \<Rightarrow> er_ring \<Rightarrow> er_ring" where
  "apply_ports Keep r = r"
| "apply_ports (OnlyBlock p) r = only_block p r"
| "apply_ports (AlsoBlock p) r = upd_port p er_port_block r"
| "apply_ports OpenAll r = open_ports r"
| "apply_ports OpenNonfailed r = open_nonfailed r"
| "apply_ports (Open p) r = upd_port p er_port_unblock r"

fun apply_tx :: "tx_effect \<Rightarrow> er_ring \<Rightarrow> er_ring" where
  "apply_tx KeepTx r = r"
| "apply_tx Silence r = r\<lparr>is_sending_raps := False\<rparr>"
| "apply_tx (Announce q f) r = tx q f r"

fun apply_guard :: "i32 \<Rightarrow> timer_effect \<Rightarrow> er_ring \<Rightarrow> er_ring" where
  "apply_guard now KeepTimer r = r"
| "apply_guard now Start r = r\<lparr>guard_timer_active_since := now, guard_timer_active := True\<rparr>"
| "apply_guard now Stop r = r\<lparr>guard_timer_active := False\<rparr>"

fun apply_wtr :: "i32 \<Rightarrow> timer_effect \<Rightarrow> er_ring \<Rightarrow> er_ring" where
  "apply_wtr now KeepTimer r = r"
| "apply_wtr now Start r = r\<lparr>wtr_timer_active_since := now, wtr_timer_active := True\<rparr>"
| "apply_wtr now Stop r = r\<lparr>wtr_timer_active := False\<rparr>"

fun apply_wtb :: "i32 \<Rightarrow> timer_effect \<Rightarrow> er_ring \<Rightarrow> er_ring" where
  "apply_wtb now KeepTimer r = r"
| "apply_wtb now Start r = r\<lparr>wtb_timer_active_since := now, wtb_timer_active := True\<rparr>"
| "apply_wtb now Stop r = r\<lparr>wtb_timer_active := False\<rparr>"

definition perform :: "i32 \<Rightarrow> effect \<Rightarrow> er_ring \<Rightarrow> er_ring" where
  "perform now e r = apply_wtb now (ef_wtb e) (apply_wtr now (ef_wtr e) (apply_guard now (ef_guard e)
     (apply_tx (ef_tx e) (apply_ports (ef_ports e) r))))"

section \<open>The table\<close>

text \<open>
  What the table needs to know of a node: its role and configuration, which ports are blocked,
  and whether its node id is lower than the one in the message.
\<close>

record situation =
  si_state :: ring_state
  si_owner :: bool
  si_neighbour :: bool
  si_revertive :: bool
  si_rpl :: port_ptr
  si_blocked :: "port_id \<Rightarrow> bool"
  si_lower :: bool

definition situation_of :: "er_ring \<Rightarrow> bytes option \<Rightarrow> situation" where
  "situation_of r nid = \<lparr>si_state = state r, si_owner = is_rpl_owner r,
     si_neighbour = is_rpl_neighbour r, si_revertive = is_revertive r, si_rpl = rpl_port r,
     si_blocked = (\<lambda>p. blocked p r),
     si_lower = (case nid of None \<Rightarrow> False
       | Some n \<Rightarrow> memcmp (take 6 (node_id r)) (take 6 n) < 0)\<rparr>"

definition stay :: "situation \<Rightarrow> effect" where
  "stay s = \<lparr>ef_ports = Keep, ef_tx = KeepTx, ef_guard = KeepTimer, ef_wtr = KeepTimer,
     ef_wtb = KeepTimer, ef_next = si_state s\<rparr>"

definition dnf_if :: "bool \<Rightarrow> u8" where
  "dnf_if b = (if b then RAPS_FLAG_DNF else 0)"

text \<open>Leaving PENDING by a request of higher priority stops the owner's reversion timers.\<close>

definition stop_reversion :: "situation \<Rightarrow> effect \<Rightarrow> effect" where
  "stop_reversion s e = (if si_state s = RING_STATE_PENDING \<and> si_owner s
     then e\<lparr>ef_wtr := Stop, ef_wtb := Stop\<rparr> else e)"

text \<open>A local switch on port \<open>p\<close>: block it, open the other, announce it.\<close>

definition local_switch :: "situation \<Rightarrow> raps_request \<Rightarrow> port_id \<Rightarrow> ring_state \<Rightarrow> effect" where
  "local_switch s q p st = stop_reversion s ((stay s)
     \<lparr>ef_ports := OnlyBlock p, ef_tx := Announce q (dnf_if (si_blocked s p)), ef_next := st\<rparr>)"

text \<open>Giving way to a switch of another node.\<close>

definition give_way :: "situation \<Rightarrow> port_effect \<Rightarrow> ring_state \<Rightarrow> effect" where
  "give_way s pe st = stop_reversion s ((stay s)\<lparr>ef_ports := pe, ef_tx := Silence, ef_next := st\<rparr>)"

text \<open>A local condition has gone: announce NR and guard against old messages; PENDING.\<close>

definition release :: "situation \<Rightarrow> effect" where
  "release s = (stay s)\<lparr>ef_tx := Announce RAPS_REQ_NR 0, ef_guard := Start, ef_next := RING_STATE_PENDING\<rparr>"

text \<open>The RPL owner reverts: traffic is blocked on the ring protection link only; IDLE.\<close>

definition revert :: "situation \<Rightarrow> effect" where
  "revert s = (case si_rpl s of None \<Rightarrow> stay s | Some p \<Rightarrow> (stay s)
     \<lparr>ef_ports := OnlyBlock p,
      ef_tx := Announce RAPS_REQ_NR (if si_blocked s p then RAPS_FLAG_RB OR RAPS_FLAG_DNF else RAPS_FLAG_RB),
      ef_next := RING_STATE_IDLE\<rparr>)"

definition start_if :: "bool \<Rightarrow> timer_effect" where
  "start_if b = (if b then Start else KeepTimer)"

definition on_port :: "port_ptr \<Rightarrow> (port_id \<Rightarrow> effect) \<Rightarrow> situation \<Rightarrow> effect" where
  "on_port port f s = (case port of None \<Rightarrow> stay s | Some p \<Rightarrow> f p)"

fun g8032 :: "ring_request \<Rightarrow> port_ptr \<Rightarrow> situation \<Rightarrow> effect" where
  "g8032 RING_REQ_FS port s = on_port port (\<lambda>p.
     if si_state s = RING_STATE_FORCED_SWITCH
     then (stay s)\<lparr>ef_ports := AlsoBlock p, ef_tx := Announce RAPS_REQ_FS 0\<rparr>
     else local_switch s RAPS_REQ_FS p RING_STATE_FORCED_SWITCH) s"
| "g8032 RING_REQ_RAPS_FS port s =
     (if si_state s = RING_STATE_FORCED_SWITCH then stay s
      else give_way s OpenAll RING_STATE_FORCED_SWITCH)"
| "g8032 RING_REQ_SF port s = on_port port (\<lambda>p.
     if si_state s = RING_STATE_FORCED_SWITCH then stay s
     else local_switch s RAPS_REQ_SF p RING_STATE_PROTECTION) s"
| "g8032 RING_REQ_RAPS_SF port s =
     (if si_state s \<in> {RING_STATE_IDLE, RING_STATE_PENDING}
      then give_way s OpenNonfailed RING_STATE_PROTECTION
      else if si_state s = RING_STATE_MANUAL_SWITCH
      then give_way s OpenNonfailed RING_STATE_MANUAL_SWITCH
      else stay s)"
| "g8032 RING_REQ_MS port s = on_port port (\<lambda>p.
     if si_state s \<in> {RING_STATE_IDLE, RING_STATE_PENDING}
     then local_switch s RAPS_REQ_MS p RING_STATE_MANUAL_SWITCH
     else stay s) s"
| "g8032 RING_REQ_RAPS_MS port s =
     (if si_state s \<in> {RING_STATE_IDLE, RING_STATE_PENDING}
      then give_way s OpenNonfailed RING_STATE_MANUAL_SWITCH
      else if si_state s = RING_STATE_MANUAL_SWITCH \<and> (si_blocked s PORT0 \<or> si_blocked s PORT1)
      then (release s)\<lparr>ef_wtb := start_if (si_owner s \<and> si_revertive s)\<rparr>
      else stay s)"
| "g8032 RING_REQ_CLEAR_SF port s =
     (if si_state s = RING_STATE_PROTECTION
      then (release s)\<lparr>ef_wtr := start_if (si_owner s \<and> si_revertive s)\<rparr>
      else stay s)"
| "g8032 RING_REQ_CLEAR port s =
     (if si_state s \<in> {RING_STATE_MANUAL_SWITCH, RING_STATE_FORCED_SWITCH}
      then (if si_blocked s PORT0 \<or> si_blocked s PORT1
            then (release s)\<lparr>ef_wtb := start_if (si_owner s \<and> si_revertive s)\<rparr>
            else (stay s)\<lparr>ef_next := RING_STATE_PENDING\<rparr>)
      else if si_state s = RING_STATE_PENDING
      then (if si_owner s then (revert s)\<lparr>ef_wtr := Stop, ef_wtb := Stop\<rparr>
            else (stay s)\<lparr>ef_next := RING_STATE_IDLE\<rparr>)
      else stay s)"
| "g8032 RING_REQ_WTR_EXPIRES port s =
     (if si_state s = RING_STATE_PENDING
      then (if si_owner s then (revert s)\<lparr>ef_wtb := Stop\<rparr> else (stay s)\<lparr>ef_next := RING_STATE_IDLE\<rparr>)
      else stay s)"
| "g8032 RING_REQ_WTB_EXPIRES port s =
     (if si_state s = RING_STATE_PENDING
      then (if si_owner s then (revert s)\<lparr>ef_wtr := Stop\<rparr> else (stay s)\<lparr>ef_next := RING_STATE_IDLE\<rparr>)
      else stay s)"
| "g8032 RING_REQ_RAPS_NR_RB port s =
     (if si_state s = RING_STATE_IDLE
      then (stay s)\<lparr>ef_ports := Open (case si_rpl s of None \<Rightarrow> PORT1 | Some p \<Rightarrow> other_port p),
                    ef_tx := (if si_owner s then KeepTx else Silence)\<rparr>
      else if si_state s = RING_STATE_PENDING
      then (if si_owner s then (stay s)\<lparr>ef_wtr := Stop, ef_wtb := Stop, ef_next := RING_STATE_IDLE\<rparr>
            else (stay s)\<lparr>ef_ports := (if si_neighbour s
                                      then (case si_rpl s of None \<Rightarrow> Keep | Some p \<Rightarrow> OnlyBlock p)
                                      else OpenAll),
                          ef_tx := Silence, ef_next := RING_STATE_IDLE\<rparr>)
      else (stay s)\<lparr>ef_next := RING_STATE_PENDING\<rparr>)"
| "g8032 RING_REQ_RAPS_NR port s =
     (if si_state s = RING_STATE_IDLE
      then (if \<not> si_owner s \<and> \<not> si_neighbour s \<and> si_lower s
            then give_way s OpenNonfailed RING_STATE_IDLE else stay s)
      else if si_state s = RING_STATE_PENDING
      then (if si_lower s then (stay s)\<lparr>ef_ports := OpenNonfailed, ef_tx := Silence\<rparr> else stay s)
      else if si_state s = RING_STATE_PROTECTION
      then (stay s)\<lparr>ef_wtr := start_if (si_owner s \<and> si_revertive s), ef_next := RING_STATE_PENDING\<rparr>
      else (stay s)\<lparr>ef_wtb := start_if (si_owner s \<and> si_revertive s), ef_next := RING_STATE_PENDING\<rparr>)"
| "g8032 RING_REQ_WTR_RUNNING port s = stay s"
| "g8032 RING_REQ_WTB_RUNNING port s = stay s"
| "g8032 RING_REQ_INVALID port s = stay s"

lemmas table_defs = local_switch_def give_way_def release_def revert_def start_if_def stop_reversion_def
  stay_def on_port_def dnf_if_def

section \<open>The code refines the table\<close>

text \<open>Timer updates move outwards over the other effects.\<close>

lemma timers_outwards:
  "only_block p (r\<lparr>wtr_timer_active := b\<rparr>) = (only_block p r)\<lparr>wtr_timer_active := b\<rparr>"
  "only_block p (r\<lparr>wtb_timer_active := b\<rparr>) = (only_block p r)\<lparr>wtb_timer_active := b\<rparr>"
  "tx q f (r\<lparr>wtr_timer_active := b\<rparr>) = (tx q f r)\<lparr>wtr_timer_active := b\<rparr>"
  "tx q f (r\<lparr>wtb_timer_active := b\<rparr>) = (tx q f r)\<lparr>wtb_timer_active := b\<rparr>"
  "tx q f (r\<lparr>guard_timer_active := b\<rparr>) = (tx q f r)\<lparr>guard_timer_active := b\<rparr>"
  "tx q f (r\<lparr>guard_timer_active_since := t\<rparr>) = (tx q f r)\<lparr>guard_timer_active_since := t\<rparr>"
  by (cases p; simp add: only_block_def upd_port.simps tx_def Let_def)+

lemma fsm_rows_refine:
  assumes "ring_ok r" and "rpl_ok r" and "valid_call req port nid"
  defines "s \<equiv> situation_of r nid"
  defines "e \<equiv> g8032 req port s"
  shows "state r = RING_STATE_IDLE \<Longrightarrow> fsm_idle now req port nid r = Inr (perform now e r, ef_next e)"
    and "state r = RING_STATE_PROTECTION \<Longrightarrow> fsm_protection now req port nid r = Inr (perform now e r, ef_next e)"
    and "state r = RING_STATE_MANUAL_SWITCH \<Longrightarrow> fsm_manual_switch now req port nid r = Inr (perform now e r, ef_next e)"
    and "state r = RING_STATE_FORCED_SWITCH \<Longrightarrow> fsm_forced_switch now req port nid r = Inr (perform now e r, ef_next e)"
    and "state r = RING_STATE_PENDING \<Longrightarrow> fsm_pending now req port nid r = Inr (perform now e r, ef_next e)"
  using assms(1-3) unfolding e_def s_def
  by (cases req; cases "rpl_port r";
      auto simp: row_def rpl_ok_def valid_call_def request_sets act_simps perform_def situation_of_def
        table_defs timers_outwards or.commute split: option.splits)+

text \<open>Row 01, which ignores the request.\<close>

definition start_effect :: "situation \<Rightarrow> effect" where
  "start_effect s = \<lparr>
     ef_ports = OnlyBlock (case si_rpl s of Some p \<Rightarrow> if si_owner s \<or> si_neighbour s then p else PORT0
                           | None \<Rightarrow> PORT0),
     ef_tx = Announce RAPS_REQ_NR 0, ef_guard = Stop,
     ef_wtr = (if si_owner s \<and> si_revertive s then Start else Stop), ef_wtb = Stop,
     ef_next = RING_STATE_PENDING\<rparr>"

lemma timers_outwards_init:
  "only_block p (r\<lparr>guard_timer_active := b\<rparr>) = (only_block p r)\<lparr>guard_timer_active := b\<rparr>"
  "upd_port q g (r\<lparr>guard_timer_active := b\<rparr>) = (upd_port q g r)\<lparr>guard_timer_active := b\<rparr>"
  "upd_port q g (r\<lparr>wtr_timer_active := b\<rparr>) = (upd_port q g r)\<lparr>wtr_timer_active := b\<rparr>"
  "upd_port q g (r\<lparr>wtb_timer_active := b\<rparr>) = (upd_port q g r)\<lparr>wtb_timer_active := b\<rparr>"
  by (cases p; cases q; simp add: only_block_def upd_port.simps)+

lemma fsm_init_refines:
  assumes "ring_ok r" and "rpl_ok r" and "e = start_effect (situation_of r nid)"
  shows "fsm_init now r = Inr (perform now e r, ef_next e)"
  using assms(1,2) unfolding assms(3)
  by (cases "rpl_port r")
    (auto simp: fsm_init_def row_def rpl_ok_def act_simps perform_def situation_of_def start_effect_def
      timers_outwards timers_outwards_init)

text \<open>When the machine treats a request as a repetition of the last one.\<close>

definition repeated :: "er_ring \<Rightarrow> ring_request \<Rightarrow> port_ptr \<Rightarrow> bytes option \<Rightarrow> bool" where
  "repeated r req port nid \<longleftrightarrow>
     req \<noteq> RING_REQ_INVALID \<and> req = prev_request r \<and>
     (req \<in> remote_requests \<longrightarrow> nid = Some (prev_request_remote_node_id r)) \<and>
     (req \<in> port_requests \<longrightarrow> port = prev_request_port r)"

lemma fsm_dedup_eq:
  assumes "valid_call req port nid" and "length (prev_request_remote_node_id r) = 6"
  shows "fsm_dedup r req port nid = Inr
    (if \<not> repeated r req port nid then Fresh
     else if req \<in> remote_requests \<union> port_requests then Dupe else Impossible)"
  using assms
  by (cases req)
    (auto simp: valid_call_def request_sets repeated_def memcmp_eq_0_iff split: option.splits)

lemma fsm_save_sel [act_simps]:
  "ring_ok (fsm_save req port nid r) = ring_ok r" "rpl_ok (fsm_save req port nid r) = rpl_ok r"
  "state (fsm_save req port nid r) = state r" "blocked p (fsm_save req port nid r) = blocked p r"
  "local_request (fsm_save req port nid r) = local_request r"
  "prev_request (fsm_save req port nid r) = req" "prev_request_port (fsm_save req port nid r) = port"
  "is_sending_raps (fsm_save req port nid r) = is_sending_raps r"
  "raps (fsm_save req port nid r) = raps r" "raps_frame (fsm_save req port nid r) = raps_frame r"
  "node_id (fsm_save req port nid r) = node_id r" "ring_cfg (fsm_save req port nid r) = ring_cfg r"
  by (auto simp: fsm_save_def ring_ok_def rpl_ok_def blocked_update Let_def ring_cfg_def
      split: option.splits)

lemma situation_of_save [act_simps]: "situation_of (fsm_save req port nid r) x = situation_of r x"
  by (cases nid; cases x) (simp_all add: fsm_save_def situation_of_def blocked_update Let_def)

lemma si_state_of [act_simps]: "si_state (situation_of r x) = state r"
  by (simp add: situation_of_def)

definition effect_of :: "ring_request \<Rightarrow> port_ptr \<Rightarrow> situation \<Rightarrow> effect" where
  "effect_of req port s =
     (if si_state s = RING_STATE_INIT then start_effect s else g8032 req port s)"

theorem ring_fsm_refines:
  assumes "ring_ok r" and "rpl_ok r" and "valid_call req port nid"
    and "length (prev_request_remote_node_id r) = 6"
  defines "e \<equiv> effect_of req port (situation_of r nid)"
  shows "ring_fsm now r req port nid = Inr
    (if repeated r req port nid then r
     else (perform now e (fsm_save req port nid r))\<lparr>state := ef_next e\<rparr>)"
proof -
  let ?r = "fsm_save req port nid r"
  have ok: "ring_ok ?r" "rpl_ok ?r" using assms by (simp_all add: act_simps)
  have "fsm_row now req port nid ?r = Inr (perform now e ?r, ef_next e)"
    using fsm_rows_refine [OF ok assms(3)] fsm_init_refines [OF ok refl, of now nid]
    by (cases "state r") (simp_all add: e_def effect_of_def act_simps)
  then show ?thesis
    by (simp add: ring_fsm_def fsm_dedup_eq [OF assms(3,4)] del: fsm_row.simps fsm_dedup.simps)
qed

section \<open>Observing an effect\<close>

definition blocked_after :: "port_effect \<Rightarrow> er_ring \<Rightarrow> port_id \<Rightarrow> bool" where
  "blocked_after pe r q = (case pe of Keep \<Rightarrow> blocked q r | OnlyBlock p \<Rightarrow> q = p
     | AlsoBlock p \<Rightarrow> q = p \<or> blocked q r | OpenAll \<Rightarrow> False
     | OpenNonfailed \<Rightarrow> blocked q r \<and> is_failed (get_port q r)
     | Open p \<Rightarrow> q \<noteq> p \<and> blocked q r)"

lemma blocked_apply_tx [act_simps]: "blocked q (apply_tx x r) = blocked q r"
  by (cases x) (simp_all add: act_simps)

lemma blocked_apply_timer [act_simps]:
  "blocked q (apply_guard now t r) = blocked q r" "blocked q (apply_wtr now t r) = blocked q r"
  "blocked q (apply_wtb now t r) = blocked q r"
  by (cases t; simp add: act_simps)+

lemma blocked_apply_ports [act_simps]: "blocked q (apply_ports pe r) = blocked_after pe r q"
  by (cases pe) (simp_all add: act_simps blocked_after_def ports.blocked_block ports.blocked_unblock)

lemma blocked_perform [act_simps]: "blocked q (perform now e r) = blocked_after (ef_ports e) r q"
  by (simp add: perform_def act_simps)

lemma apply_frame [act_simps]:
  "ring_ctl (apply_ports pe r) = ring_ctl r" "ring_ctl (apply_tx x r) = ring_ctl r"
  "ring_ctl (apply_guard now t r) = ring_ctl r" "ring_ctl (apply_wtr now t r) = ring_ctl r"
  "ring_ctl (apply_wtb now t r) = ring_ctl r"
  "ring_cfg (apply_ports pe r) = ring_cfg r" "ring_cfg (apply_tx x r) = ring_cfg r"
  "ring_cfg (apply_guard now t r) = ring_cfg r" "ring_cfg (apply_wtr now t r) = ring_cfg r"
  "ring_cfg (apply_wtb now t r) = ring_cfg r"
  by (cases pe; cases x; cases t; simp add: act_simps; simp add: ring_ctl_def ring_cfg_def)+

lemma perform_frame [act_simps]:
  "ring_ctl (perform now e r) = ring_ctl r" "ring_cfg (perform now e r) = ring_cfg r"
  by (simp_all add: perform_def act_simps)

lemma perform_ctl [act_simps]:
  "local_request (perform now e r) = local_request r" "state (perform now e r) = state r"
  "prev_request (perform now e r) = prev_request r"
  "prev_request_port (perform now e r) = prev_request_port r"
  "prev_request_remote_node_id (perform now e r) = prev_request_remote_node_id r"
  using perform_frame(1) [of now e r] by (simp_all add: ring_ctl_def)

lemma perform_cfg [act_simps]:
  "node_id (perform now e r) = node_id r" "version (perform now e r) = version r"
  "is_rpl_owner (perform now e r) = is_rpl_owner r"
  "is_rpl_neighbour (perform now e r) = is_rpl_neighbour r"
  "is_revertive (perform now e r) = is_revertive r" "rpl_port (perform now e r) = rpl_port r"
  using perform_frame(2) [of now e r] by (simp_all add: ring_cfg_def)

lemma apply_ports_tx [act_simps]:
  "raps (apply_ports pe r) = raps r" "raps_frame (apply_ports pe r) = raps_frame r"
  "is_sending_raps (apply_ports pe r) = is_sending_raps r" "node_id (apply_ports pe r) = node_id r"
  "raps_frame_len (apply_ports pe r) = raps_frame_len r"
  "raps_bursts_remain (apply_ports pe r) = raps_bursts_remain r"
  by (cases pe; simp add: act_simps)+

definition tx_after :: "tx_effect \<Rightarrow> er_ring \<Rightarrow> bool \<times> raps_request \<times> u8" where
  "tx_after x r = (case x of
     KeepTx \<Rightarrow> (is_sending_raps r, rp_request (raps r), rp_flags (raps r))
   | Silence \<Rightarrow> (False, rp_request (raps r), rp_flags (raps r))
   | Announce q f \<Rightarrow> (True, q, f))"

lemma perform_tx [act_simps]:
  "(is_sending_raps (perform now e r), rp_request (raps (perform now e r)), rp_flags (raps (perform now e r)))
     = tx_after (ef_tx e) r"
proof -
  have t: "ring_tx (apply_guard now t r) = ring_tx r" "ring_tx (apply_wtr now t r) = ring_tx r"
    "ring_tx (apply_wtb now t r) = ring_tx r" for t and r :: er_ring
    by (cases t; simp add: ring_tx_def)+
  have "ring_tx (perform now e r) = ring_tx (apply_tx (ef_tx e) (apply_ports (ef_ports e) r))"
    by (simp add: perform_def t)
  then have "is_sending_raps (perform now e r) = is_sending_raps (apply_tx (ef_tx e) (apply_ports (ef_ports e) r))"
    "raps (perform now e r) = raps (apply_tx (ef_tx e) (apply_ports (ef_ports e) r))"
    by (simp_all add: ring_tx_def)
  then show ?thesis by (cases "ef_tx e") (simp_all add: tx_after_def act_simps)
qed

text \<open>The transmit side stays set up and the frame buffer stays the encoding of the structure.\<close>

definition tx_coherent :: "er_ring \<Rightarrow> bool" where
  "tx_coherent r \<longleftrightarrow> raps_frame r = raps_bytes (raps r) (node_id r)"

lemma tx_coherent_tx:
  "rp_request (raps r) \<noteq> q \<or> rp_flags (raps r) \<noteq> f \<or> tx_coherent r \<Longrightarrow> tx_coherent (tx q f r)"
  by (auto simp: tx_coherent_def tx_def Let_def)

lemma perform_ok:
  assumes "ring_ok r"
  shows "ring_ok (perform now e r)"
    and "tx_coherent r \<or> (\<exists>q f. ef_tx e = Announce q f \<and> rp_flags (raps r) \<noteq> f) \<Longrightarrow>
      tx_coherent (perform now e r)"
proof -
  have t: "ring_ok (apply_guard now t r) = ring_ok r" "ring_ok (apply_wtr now t r) = ring_ok r"
    "ring_ok (apply_wtb now t r) = ring_ok r" "tx_coherent (apply_guard now t r) = tx_coherent r"
    "tx_coherent (apply_wtr now t r) = tx_coherent r" "tx_coherent (apply_wtb now t r) = tx_coherent r"
    for t and r :: er_ring
    by (cases t; simp add: ring_ok_def tx_coherent_def)+
  have p: "ring_ok (apply_ports (ef_ports e) r)"
    "tx_coherent (apply_ports (ef_ports e) r) = tx_coherent r"
    using assms by (simp_all add: ring_ok_def tx_coherent_def act_simps)
  show "ring_ok (perform now e r)"
    using p(1) by (cases "ef_tx e") (simp_all add: perform_def t act_simps)
  assume "tx_coherent r \<or> (\<exists>q f. ef_tx e = Announce q f \<and> rp_flags (raps r) \<noteq> f)"
  then have "tx_coherent (apply_tx (ef_tx e) (apply_ports (ef_ports e) r))"
    using p(2) tx_coherent_tx [of "apply_ports (ef_ports e) r"]
    by (cases "ef_tx e") (auto simp: apply_ports_tx tx_coherent_def)
  then show "tx_coherent (perform now e r)" by (simp add: perform_def t)
qed

text \<open>Timers after an effect: a timer is started at the current tick, stopped, or left alone.\<close>

definition timer_after :: "i32 \<Rightarrow> timer_effect \<Rightarrow> bool \<times> i32 \<Rightarrow> bool \<times> i32" where
  "timer_after now t x = (case t of KeepTimer \<Rightarrow> x | Start \<Rightarrow> (True, now) | Stop \<Rightarrow> (False, snd x))"

abbreviation guard_timer :: "er_ring \<Rightarrow> bool \<times> i32" where
  "guard_timer r \<equiv> (guard_timer_active r, guard_timer_active_since r)"

abbreviation wtr_timer :: "er_ring \<Rightarrow> bool \<times> i32" where
  "wtr_timer r \<equiv> (wtr_timer_active r, wtr_timer_active_since r)"

abbreviation wtb_timer :: "er_ring \<Rightarrow> bool \<times> i32" where
  "wtb_timer r \<equiv> (wtb_timer_active r, wtb_timer_active_since r)"

lemma apply_timers_ports_tx:
  "ring_timers (apply_ports pe r) = ring_timers r" "ring_timers (apply_tx x r) = ring_timers r"
  by (cases pe; simp add: act_simps)
    (cases x; simp add: act_simps; simp add: ring_timers_def)

lemma perform_timers [act_simps]:
  "guard_timer (perform now e r) = timer_after now (ef_guard e) (guard_timer r)"
  "wtr_timer (perform now e r) = timer_after now (ef_wtr e) (wtr_timer r)"
  "wtb_timer (perform now e r) = timer_after now (ef_wtb e) (wtb_timer r)"
proof -
  let ?r = "apply_tx (ef_tx e) (apply_ports (ef_ports e) r)"
  have "ring_timers ?r = ring_timers r" by (simp add: apply_timers_ports_tx)
  then have t: "guard_timer ?r = guard_timer r" "wtr_timer ?r = wtr_timer r" "wtb_timer ?r = wtb_timer r"
    by (simp_all add: ring_timers_def)
  have "guard_timer (apply_wtb now x (apply_wtr now y (apply_guard now z r))) = timer_after now z (guard_timer r)"
    "wtr_timer (apply_wtb now x (apply_wtr now y (apply_guard now z r))) = timer_after now y (wtr_timer r)"
    "wtb_timer (apply_wtb now x (apply_wtr now y (apply_guard now z r))) = timer_after now x (wtb_timer r)"
    for x y z and r :: er_ring
    by (cases x; cases y; cases z; simp add: timer_after_def)+
  then show "guard_timer (perform now e r) = timer_after now (ef_guard e) (guard_timer r)"
    "wtr_timer (perform now e r) = timer_after now (ef_wtr e) (wtr_timer r)"
    "wtb_timer (perform now e r) = timer_after now (ef_wtb e) (wtb_timer r)"
    unfolding perform_def t(1) [symmetric] t(2) [symmetric] t(3) [symmetric] by blast+
qed

text \<open>The machine announces NR, MS, SF and FS only.\<close>

lemma g8032_announces: "ef_tx (g8032 req port s) = Announce q f \<Longrightarrow> q \<noteq> RAPS_REQ_EVENT"
  by (cases req) (auto simp: table_defs split: option.splits if_splits)

lemma perform_sendable:
  assumes "raps_sendable (raps r)" and "\<And>q f. ef_tx e = Announce q f \<Longrightarrow> q \<noteq> RAPS_REQ_EVENT"
  shows "raps_sendable (raps (perform now e r))"
proof -
  have t: "raps (apply_guard now t r) = raps r" "raps (apply_wtr now t r) = raps r"
    "raps (apply_wtb now t r) = raps r" for t and r :: er_ring
    by (cases t; simp)+
  have "raps_sendable (raps (apply_tx (ef_tx e) r))" if "raps_sendable (raps r)" for r
    using that assms(2) by (cases "ef_tx e") (auto simp: raps_sendable_def tx_def Let_def)
  then show ?thesis using assms(1) by (simp add: perform_def t act_simps)
qed

end
