(* ===== verification/Request.thy ===== *)
theory Request
  imports G8032
begin

text \<open>
  The request logic in front of the state machine: \<^verbatim>\<open>ring_process_request\<close> and
  \<^verbatim>\<open>er_lookup_ring_port\<close> of \<^verbatim>\<open>er_ring.c\<close> (lines 983--1086), the calls the two accept, and the
  invariant that every accepted or refused request keeps.
\<close>

section \<open>Priority logic\<close>

text \<open>Local CLEAR is denied unless a local MS or FS stands, or the RPL owner triggers reversion.\<close>

definition clear_denied :: "er_ring \<Rightarrow> bool" where
  "clear_denied r =
     (let denied = True;
          denied = (if local_request r = RING_REQ_MS \<or> local_request r = RING_REQ_FS
                    then False else denied)
      in if is_rpl_owner r then
           (if state r \<noteq> RING_STATE_FORCED_SWITCH \<and> state r \<noteq> RING_STATE_MANUAL_SWITCH \<and>
               state r \<noteq> RING_STATE_PROTECTION \<and> state r \<noteq> RING_STATE_IDLE
            then False else denied)
         else denied)"

definition ring_process_request ::
  "i32 \<Rightarrow> er_ring \<Rightarrow> ring_request \<Rightarrow> port_ptr \<Rightarrow> bytes option \<Rightarrow> fault + er_ring" where
  "ring_process_request now r request port nid =
     (if version r = 1 \<and> request \<in> {RING_REQ_FS, RING_REQ_MS} then Inr r
      else if request = RING_REQ_SF \<and> state r = RING_STATE_FORCED_SWITCH then Inr r
      else if request = RING_REQ_CLEAR \<and> clear_denied r then Inr r
      else
        let r1 = (if local_request r = RING_REQ_SF \<and> request = RING_REQ_CLEAR_SF
                  then r\<lparr>local_request := RING_REQ_INVALID\<rparr> else r)
        in if local_request r1 < request then
             let r2 = r1\<lparr>local_request := RING_REQ_INVALID\<rparr>;
                 r3 = (if request \<in> {RING_REQ_SF, RING_REQ_FS, RING_REQ_MS}
                       then r2\<lparr>local_request := request\<rparr> else r2)
             in ring_fsm now r3 request port nid
           else if request = local_request r1 then Inr r1
           else Inr r1)"

definition er_lookup_ring_port :: "er_ring \<Rightarrow> string \<Rightarrow> port_ptr" where
  "er_lookup_ring_port r name =
     (if cstr (port_name (port0 r)) = cstr name then Some PORT0
      else if cstr (port_name (port1 r)) = cstr name then Some PORT1
      else None)"

text \<open>The outcome of the filters and of the priority comparison, as a predicate.\<close>

definition request_accepted :: "er_ring \<Rightarrow> ring_request \<Rightarrow> bool" where
  "request_accepted r req \<longleftrightarrow>
     \<not> (version r = 1 \<and> req \<in> {RING_REQ_FS, RING_REQ_MS}) \<and>
     \<not> (req = RING_REQ_SF \<and> state r = RING_STATE_FORCED_SWITCH) \<and>
     \<not> (req = RING_REQ_CLEAR \<and> clear_denied r) \<and>
     (local_request r < req \<or> local_request r = RING_REQ_SF \<and> req = RING_REQ_CLEAR_SF)"

text \<open>The ring the state machine is run on: the new local request is already in place.\<close>

definition note_local :: "ring_request \<Rightarrow> er_ring \<Rightarrow> er_ring" where
  "note_local req r = r\<lparr>local_request := (if req \<in> local_requests then req else RING_REQ_INVALID)\<rparr>"

lemma ring_process_request_eq:
  "ring_process_request now r req port nid =
     (if request_accepted r req then ring_fsm now (note_local req r) req port nid else Inr r)"
  by (cases req)
    (auto simp: ring_process_request_def request_accepted_def note_local_def request_sets req_less Let_def)

section \<open>The invariant\<close>

text \<open>How the local request, the last request and the state agree.\<close>

definition request_inv :: "er_ring \<Rightarrow> bool" where
  "request_inv r \<longleftrightarrow>
     local_request r \<in> {RING_REQ_INVALID, RING_REQ_MS, RING_REQ_SF, RING_REQ_FS} \<and>
     (local_request r \<noteq> RING_REQ_INVALID \<longrightarrow> prev_request r = local_request r) \<and>
     (prev_request r \<in> {RING_REQ_MS, RING_REQ_SF, RING_REQ_FS} \<longrightarrow> local_request r = prev_request r) \<and>
     (local_request r = RING_REQ_FS \<longrightarrow> state r = RING_STATE_FORCED_SWITCH) \<and>
     (local_request r = RING_REQ_SF \<longrightarrow> state r = RING_STATE_PROTECTION) \<and>
     (local_request r = RING_REQ_MS \<longrightarrow>
        state r \<in> {RING_STATE_MANUAL_SWITCH, RING_STATE_PROTECTION, RING_STATE_FORCED_SWITCH})"

text \<open>
  Ports: never both blocked; the port of a standing local FS or SF is blocked and the condition
  is announced; a forced switch of another node has both ports open.
\<close>

definition port_inv :: "er_ring \<Rightarrow> bool" where
  "port_inv r \<longleftrightarrow>
     \<not> (blocked PORT0 r \<and> blocked PORT1 r) \<and>
     (local_request r \<in> {RING_REQ_SF, RING_REQ_FS} \<longrightarrow>
        is_sending_raps r \<and>
        rp_request (raps r) = (if local_request r = RING_REQ_FS then RAPS_REQ_FS else RAPS_REQ_SF) \<and>
        (case prev_request_port r of None \<Rightarrow> False | Some p \<Rightarrow> blocked p r)) \<and>
     (state r = RING_STATE_FORCED_SWITCH \<and> local_request r \<noteq> RING_REQ_FS \<longrightarrow>
        \<not> blocked PORT0 r \<and> \<not> blocked PORT1 r)"

definition ring_inv :: "er_ring \<Rightarrow> bool" where
  "ring_inv r \<longleftrightarrow> ring_ok r \<and> rpl_ok r \<and> tx_coherent r \<and> raps_sendable (raps r) \<and>
     length (prev_request_remote_node_id r) = 6 \<and> state r \<noteq> RING_STATE_INIT \<and>
     request_inv r \<and> port_inv r"

section \<open>Every request keeps the invariant\<close>

lemma note_local_sel [act_simps]:
  "ring_ok (note_local req r) = ring_ok r" "rpl_ok (note_local req r) = rpl_ok r"
  "state (note_local req r) = state r" "blocked p (note_local req r) = blocked p r"
  "prev_request (note_local req r) = prev_request r"
  "prev_request_port (note_local req r) = prev_request_port r"
  "prev_request_remote_node_id (note_local req r) = prev_request_remote_node_id r"
  "is_sending_raps (note_local req r) = is_sending_raps r" "raps (note_local req r) = raps r"
  "raps_frame (note_local req r) = raps_frame r" "node_id (note_local req r) = node_id r"
  "ring_cfg (note_local req r) = ring_cfg r"
  "local_request (note_local req r) = (if req \<in> local_requests then req else RING_REQ_INVALID)"
  "repeated (note_local req r) req port nid = repeated r req port nid"
  by (simp_all add: note_local_def ring_ok_def rpl_ok_def blocked_update ring_cfg_def repeated_def)

lemma situation_of_note [act_simps]: "situation_of (note_local req r) x = situation_of r x"
  by (cases x) (simp_all add: note_local_def situation_of_def blocked_update)

lemma request_invD:
  assumes "request_inv r"
  shows "local_request r = RING_REQ_INVALID \<or> local_request r \<in> local_requests"
    and "local_request r \<noteq> RING_REQ_INVALID \<Longrightarrow> prev_request r = local_request r"
    and "prev_request r \<in> local_requests \<Longrightarrow> local_request r = prev_request r"
  using assms unfolding request_inv_def request_sets by blast+

lemma request_inv_state:
  assumes "request_inv r" and "state r \<in> {RING_STATE_IDLE, RING_STATE_PENDING}"
  shows "local_request r = RING_REQ_INVALID"
proof -
  have "local_request r \<in> {RING_REQ_INVALID, RING_REQ_MS, RING_REQ_SF, RING_REQ_FS}"
    "local_request r = RING_REQ_FS \<Longrightarrow> state r = RING_STATE_FORCED_SWITCH"
    "local_request r = RING_REQ_SF \<Longrightarrow> state r = RING_STATE_PROTECTION"
    "local_request r = RING_REQ_MS \<Longrightarrow>
       state r \<in> {RING_STATE_MANUAL_SWITCH, RING_STATE_PROTECTION, RING_STATE_FORCED_SWITCH}"
    using assms(1) unfolding request_inv_def by blast+
  then show ?thesis using assms(2) by auto
qed

text \<open>A repetition that is accepted leaves the ring as it is.\<close>

lemma repeated_accepted:
  assumes "request_inv r" and "request_accepted r req" and "repeated r req port nid"
  shows "note_local req r = r"
proof -
  have prev: "prev_request r = req" using assms(3) by (simp add: repeated_def)
  have local_prev: "req \<in> local_requests \<Longrightarrow> local_request r = req"
    and prev_local: "local_request r \<noteq> RING_REQ_INVALID \<Longrightarrow> local_request r = req"
    using request_invD [OF assms(1)] unfolding prev by blast+
  have "local_request r \<noteq> req"
    using assms(2) by (auto simp: request_accepted_def)
  then have "req \<notin> local_requests" and "local_request r = RING_REQ_INVALID"
    using local_prev prev_local by blast+
  then show ?thesis by (simp add: note_local_def)
qed

text \<open>The ring after an accepted request.\<close>

definition after :: "i32 \<Rightarrow> er_ring \<Rightarrow> ring_request \<Rightarrow> port_ptr \<Rightarrow> bytes option \<Rightarrow> er_ring" where
  "after now r req port nid =
     (let e = g8032 req port (situation_of r nid)
      in (perform now e (fsm_save req port nid (note_local req r)))\<lparr>state := ef_next e\<rparr>)"

theorem ring_process_request_refines:
  assumes "ring_inv r" and "valid_call req port nid"
  shows "ring_process_request now r req port nid = Inr
    (if request_accepted r req \<and> \<not> repeated r req port nid then after now r req port nid else r)"
proof (cases "request_accepted r req")
  case True
  have inv: "ring_ok r" "rpl_ok r" "length (prev_request_remote_node_id r) = 6"
    "state r \<noteq> RING_STATE_INIT" "request_inv r"
    using assms(1) by (simp_all add: ring_inv_def)
  then have "ring_fsm now (note_local req r) req port nid = Inr
      (if repeated r req port nid then note_local req r else after now r req port nid)"
    using ring_fsm_refines [of "note_local req r" req port nid now] assms(2)
    by (simp add: act_simps after_def effect_of_def Let_def)
  with True repeated_accepted [OF inv(5) True] show ?thesis
    by (auto simp: ring_process_request_eq)
next
  case False
  then show ?thesis by (simp add: ring_process_request_eq)
qed

lemma after_sel [act_simps]:
  "state (after now r req port nid) = ef_next (g8032 req port (situation_of r nid))"
  "local_request (after now r req port nid) = (if req \<in> local_requests then req else RING_REQ_INVALID)"
  "prev_request (after now r req port nid) = req"
  "prev_request_port (after now r req port nid) = port"
  "blocked p (after now r req port nid) =
     blocked_after (ef_ports (g8032 req port (situation_of r nid))) (fsm_save req port nid (note_local req r)) p"
  "(is_sending_raps (after now r req port nid), rp_request (raps (after now r req port nid)),
    rp_flags (raps (after now r req port nid))) = tx_after (ef_tx (g8032 req port (situation_of r nid))) r"
  using perform_tx [of now "g8032 req port (situation_of r nid)" "fsm_save req port nid (note_local req r)"]
  by (simp_all add: after_def Let_def act_simps blocked_update tx_after_def split: tx_effect.splits)

lemma after_cfg [act_simps]: "ring_cfg (after now r req port nid) = ring_cfg r"
proof -
  have "ring_cfg (r\<lparr>state := x\<rparr>) = ring_cfg r" for r x by (simp add: ring_cfg_def)
  then show ?thesis by (simp add: after_def Let_def act_simps)
qed

lemma rpl_ok_cfg: "ring_cfg r = ring_cfg r' \<Longrightarrow> rpl_ok r = rpl_ok r'"
  by (simp add: ring_cfg_def rpl_ok_def)

lemma after_static:
  assumes "ring_inv r" and "valid_call req port nid"
  shows "ring_ok (after now r req port nid)" "rpl_ok (after now r req port nid)"
    "tx_coherent (after now r req port nid)" "raps_sendable (raps (after now r req port nid))"
    "length (prev_request_remote_node_id (after now r req port nid)) = 6"
proof -
  let ?r = "fsm_save req port nid (note_local req r)"
  have ok: "ring_ok ?r" "tx_coherent ?r"
    using assms(1) by (simp_all add: ring_inv_def tx_coherent_def act_simps)
  have upd: "ring_ok (t\<lparr>state := x\<rparr>) = ring_ok t" "tx_coherent (t\<lparr>state := x\<rparr>) = tx_coherent t" for t x
    by (simp_all add: ring_ok_def tx_coherent_def)
  show "ring_ok (after now r req port nid)" "tx_coherent (after now r req port nid)"
    using perform_ok [OF ok(1)] ok(2) by (simp_all add: after_def Let_def upd)
  show "raps_sendable (raps (after now r req port nid))"
    using perform_sendable [of ?r] g8032_announces assms(1)
    by (simp add: after_def Let_def act_simps ring_inv_def)
  show "rpl_ok (after now r req port nid)"
    using rpl_ok_cfg [OF after_cfg] assms(1) by (simp add: ring_inv_def)
  show "length (prev_request_remote_node_id (after now r req port nid)) = 6"
    using assms by (auto simp: after_def Let_def act_simps fsm_save_def ring_inv_def valid_call_def
        split: option.splits)
qed

text \<open>The state reached by an accepted request, and that the machine never returns to INIT.\<close>

lemma g8032_next_local:
  shows "ef_next (g8032 RING_REQ_FS (Some p) (situation_of r nid)) = RING_STATE_FORCED_SWITCH"
    and "state r \<noteq> RING_STATE_FORCED_SWITCH \<Longrightarrow>
      ef_next (g8032 RING_REQ_SF (Some p) (situation_of r nid)) = RING_STATE_PROTECTION"
    and "state r \<noteq> RING_STATE_INIT \<Longrightarrow> ef_next (g8032 RING_REQ_MS (Some p) (situation_of r nid)) \<in>
      {RING_STATE_MANUAL_SWITCH, RING_STATE_PROTECTION, RING_STATE_FORCED_SWITCH}"
  by (cases "state r"; simp add: table_defs act_simps)+

lemma g8032_not_init:
  "state r \<noteq> RING_STATE_INIT \<Longrightarrow> ef_next (g8032 req port (situation_of r nid)) \<noteq> RING_STATE_INIT"
  by (cases req) (auto simp: table_defs act_simps split: option.splits)

lemma after_request_inv:
  assumes "ring_inv r" and "valid_call req port nid" and "request_accepted r req"
  shows "request_inv (after now r req port nid)"
proof (cases "req \<in> local_requests")
  case True
  with assms(2) obtain p where p: "port = Some p" by (rule valid_call_port)
  have init: "state r \<noteq> RING_STATE_INIT" using assms(1) by (simp add: ring_inv_def)
  have sf: "req = RING_REQ_SF \<Longrightarrow> state r \<noteq> RING_STATE_FORCED_SWITCH"
    using assms(3) by (simp add: request_accepted_def)
  from True consider "req = RING_REQ_MS" | "req = RING_REQ_SF" | "req = RING_REQ_FS"
    by (auto simp: request_sets)
  then show ?thesis
  proof cases
    case 1
    then show ?thesis using g8032_next_local(3) [OF init, of p nid] p
      by (simp add: request_inv_def after_sel request_sets)
  next
    case 2
    then show ?thesis using g8032_next_local(2) [OF sf, of p nid] p
      by (simp add: request_inv_def after_sel request_sets)
  next
    case 3
    then show ?thesis using g8032_next_local(1) [of p r nid] p
      by (simp add: request_inv_def after_sel request_sets)
  qed
next
  case False
  then show ?thesis by (auto simp: request_inv_def act_simps request_sets)
qed

text \<open>Ports after an accepted request. A local switch always blocks its port.\<close>

lemma g8032_switch:
  "blocked_after (ef_ports (g8032 RING_REQ_FS (Some p) s)) r p"
  "\<exists>f. ef_tx (g8032 RING_REQ_FS (Some p) s) = Announce RAPS_REQ_FS f"
  "si_state s \<noteq> RING_STATE_FORCED_SWITCH \<Longrightarrow> blocked_after (ef_ports (g8032 RING_REQ_SF (Some p) s)) r p"
  "si_state s \<noteq> RING_STATE_FORCED_SWITCH \<Longrightarrow>
     \<exists>f. ef_tx (g8032 RING_REQ_SF (Some p) s) = Announce RAPS_REQ_SF f"
  by (simp_all add: table_defs blocked_after_def)

lemma after_announce:
  "ef_tx (g8032 req port (situation_of r nid)) = Announce q f \<Longrightarrow>
     is_sending_raps (after now r req port nid) \<and> rp_request (raps (after now r req port nid)) = q"
  using after_sel(6) [of now r req port nid] by (simp add: tx_after_def)

lemma after_local_switch:
  assumes "request_accepted r req"
  shows "req = RING_REQ_FS \<Longrightarrow> blocked p (after now r req (Some p) nid) \<and>
      is_sending_raps (after now r req (Some p) nid) \<and>
      rp_request (raps (after now r req (Some p) nid)) = RAPS_REQ_FS"
    and "req = RING_REQ_SF \<Longrightarrow> blocked p (after now r req (Some p) nid) \<and>
      is_sending_raps (after now r req (Some p) nid) \<and>
      rp_request (raps (after now r req (Some p) nid)) = RAPS_REQ_SF"
proof -
  assume q: "req = RING_REQ_FS"
  from g8032_switch(2) [of p "situation_of r nid"] obtain f
    where "ef_tx (g8032 RING_REQ_FS (Some p) (situation_of r nid)) = Announce RAPS_REQ_FS f" ..
  from after_announce [OF this, of now] g8032_switch(1) q
  show "blocked p (after now r req (Some p) nid) \<and> is_sending_raps (after now r req (Some p) nid) \<and>
      rp_request (raps (after now r req (Some p) nid)) = RAPS_REQ_FS"
    by (simp only: after_sel(5) simp_thms)
next
  assume q: "req = RING_REQ_SF"
  then have st: "si_state (situation_of r nid) \<noteq> RING_STATE_FORCED_SWITCH"
    using assms by (simp add: request_accepted_def act_simps)
  from g8032_switch(4) [OF st, of p] obtain f
    where "ef_tx (g8032 RING_REQ_SF (Some p) (situation_of r nid)) = Announce RAPS_REQ_SF f" ..
  from after_announce [OF this, of now] g8032_switch(3) [OF st] q
  show "blocked p (after now r req (Some p) nid) \<and> is_sending_raps (after now r req (Some p) nid) \<and>
      rp_request (raps (after now r req (Some p) nid)) = RAPS_REQ_SF"
    by (simp only: after_sel(5) simp_thms)
qed

lemma after_not_both:
  assumes "ring_inv r" and "request_accepted r req"
  shows "\<not> (blocked PORT0 (after now r req port nid) \<and> blocked PORT1 (after now r req port nid))"
proof -
  have none: "\<not> (blocked PORT0 r \<and> blocked PORT1 r)"
    and forced: "state r = RING_STATE_FORCED_SWITCH \<Longrightarrow> req = RING_REQ_FS \<Longrightarrow>
      \<not> blocked PORT0 r \<and> \<not> blocked PORT1 r"
    using assms by (auto simp: ring_inv_def port_inv_def request_accepted_def req_less)
  then show ?thesis
    by (cases req)
      (auto simp: act_simps table_defs blocked_after_def split: option.splits port_effect.splits if_splits)
qed

text \<open>A forced switch of another node keeps both ports open.\<close>

lemma after_forced_open:
  assumes "ring_inv r" and "request_accepted r req" and "req \<noteq> RING_REQ_FS"
    and "ef_next (g8032 req port (situation_of r nid)) = RING_STATE_FORCED_SWITCH"
  shows "\<not> blocked q (after now r req port nid)"
proof -
  have "ef_ports (g8032 req port (situation_of r nid)) = OpenAll \<or>
      ef_ports (g8032 req port (situation_of r nid)) = Keep \<and>
      state r = RING_STATE_FORCED_SWITCH \<and> req \<noteq> RING_REQ_CLEAR"
    using assms(3,4)
    by (cases req) (auto simp: table_defs act_simps split: option.splits if_splits)
  then show ?thesis
  proof
    assume "ef_ports (g8032 req port (situation_of r nid)) = OpenAll"
    then show ?thesis by (simp add: after_sel blocked_after_def)
  next
    assume e: "ef_ports (g8032 req port (situation_of r nid)) = Keep \<and>
      state r = RING_STATE_FORCED_SWITCH \<and> req \<noteq> RING_REQ_CLEAR"
    then have "local_request r \<noteq> RING_REQ_FS"
      using assms(2,3) by (cases req) (auto simp: request_accepted_def req_less)
    with e assms(1) have "\<not> blocked q r"
      by (cases q) (simp_all add: ring_inv_def port_inv_def)
    with e show ?thesis by (simp add: after_sel blocked_after_def act_simps)
  qed
qed

lemma after_port_inv:
  assumes "ring_inv r" and "valid_call req port nid" and "request_accepted r req"
  shows "port_inv (after now r req port nid)"
proof -
  let ?r = "after now r req port nid"
  have sw: "req \<in> {RING_REQ_SF, RING_REQ_FS} \<Longrightarrow> is_sending_raps ?r \<and>
      rp_request (raps ?r) = (if req = RING_REQ_FS then RAPS_REQ_FS else RAPS_REQ_SF) \<and>
      (\<exists>p. port = Some p \<and> blocked p ?r)"
  proof -
    assume q: "req \<in> {RING_REQ_SF, RING_REQ_FS}"
    then have "req \<in> local_requests" by (auto simp: request_sets)
    with assms(2) obtain p where p: "port = Some p" by (rule valid_call_port)
    show ?thesis using q after_local_switch [OF assms(3), of p now nid] unfolding p by fastforce
  qed
  have forced: "state ?r = RING_STATE_FORCED_SWITCH \<Longrightarrow> req \<noteq> RING_REQ_FS \<Longrightarrow> \<not> blocked q ?r" for q
    using after_forced_open [OF assms(1,3)] by (simp add: after_sel)
  have loc: "local_request ?r \<in> {RING_REQ_SF, RING_REQ_FS} \<Longrightarrow> local_request ?r = req"
    "local_request ?r = RING_REQ_FS \<longleftrightarrow> req = RING_REQ_FS"
    by (auto simp: after_sel request_sets)
  have prev: "prev_request_port ?r = port" by (simp add: after_sel)
  show ?thesis
    unfolding port_inv_def prev loc(2)
    using after_not_both [OF assms(1,3)] sw loc(1) forced by (auto split: option.split)
qed

theorem ring_process_request_inv:
  assumes "ring_inv r" and "valid_call req port nid" and "ring_process_request now r req port nid = Inr r'"
  shows "ring_inv r'"
proof (cases "request_accepted r req \<and> \<not> repeated r req port nid")
  case True
  then have acc: "request_accepted r req" by simp
  have r': "r' = after now r req port nid"
    using ring_process_request_refines [OF assms(1,2), of now] assms(3) True by simp
  have "state r' \<noteq> RING_STATE_INIT"
    using g8032_not_init assms(1) by (simp add: r' after_sel ring_inv_def)
  then show ?thesis
    using after_static [OF assms(1,2)] after_request_inv [OF assms(1,2) acc]
      after_port_inv [OF assms(1,2) acc]
    by (simp add: ring_inv_def r')
next
  case False
  then have "r' = r"
    using ring_process_request_refines [OF assms(1,2), of now] assms(3) by auto
  with assms(1) show ?thesis by simp
qed

section \<open>Rings as machines\<close>

text \<open>
  A ring is fresh when \<^verbatim>\<open>er_ring_create\<close> has filled it in, and started when the first event
  has taken it out of INIT. From there on it sees requests, the expiry of the guard timer, a reversion timer
  that is reset by its handler, links that go down and up, frames that are sent, and changes of
  its configuration by \<^verbatim>\<open>er_ioctl\<close>.
\<close>

definition fresh_ring :: "er_ring \<Rightarrow> bool" where
  "fresh_ring r \<longleftrightarrow> ring_ok r \<and> rpl_ok r \<and> state r = RING_STATE_INIT \<and>
     local_request r = RING_REQ_INVALID \<and> prev_request r = RING_REQ_INVALID \<and>
     prev_request_port r = None \<and> length (prev_request_remote_node_id r) = 6 \<and>
     rp_flags (raps r) = 0xff \<and> rp_subcode (raps r) = 0 \<and> rp_request (raps r) = RAPS_REQ_NR"

definition ring_started :: "er_ring \<Rightarrow> bool" where
  "ring_started r \<longleftrightarrow>
     (\<exists>r0 now. fresh_ring r0 \<and> ring_fsm now r0 RING_REQ_INVALID None None = Inr r)"

datatype ring_event = Request i32 ring_request port_ptr "bytes option" | GuardExpired | WtrStopped
  | Link port_id bool | Bursts int
  | Configure u8 int u32 u32 u32 bool bool

definition configure :: "u8 \<Rightarrow> int \<Rightarrow> u32 \<Rightarrow> u32 \<Rightarrow> u32 \<Rightarrow> bool \<Rightarrow> bool \<Rightarrow> er_ring \<Rightarrow> er_ring" where
  "configure v vid g w b rv act r =
     r\<lparr>version := v, raps_vid := vid, guard_time := g, wtr_time := w, wtb_time := b,
       is_revertive := rv, active := act\<rparr>"

inductive ring_step :: "er_ring \<Rightarrow> ring_event \<Rightarrow> er_ring \<Rightarrow> bool" where
  step_request: "valid_call req port nid \<Longrightarrow> ring_process_request now r req port nid = Inr r' \<Longrightarrow>
    ring_step r (Request now req port nid) r'"
| step_guard: "ring_step r GuardExpired (r\<lparr>guard_timer_active := False\<rparr>)"
| step_wtr: "ring_step r WtrStopped (r\<lparr>wtr_timer_active := False\<rparr>)"
| step_link: "ring_step r (Link p b) (upd_port p (\<lambda>q. q\<lparr>is_failed := b\<rparr>) r)"
| step_bursts: "ring_step r (Bursts n) (r\<lparr>raps_bursts_remain := n\<rparr>)"
| step_configure: "ring_step r (Configure v vid g w b rv act) (configure v vid g w b rv act r)"

inductive_cases ring_step_RequestE: "ring_step r (Request now req port nid) r'"

lemma start_effect_blocked:
  "blocked_after (ef_ports (start_effect s)) r q \<longleftrightarrow>
     q = (case si_rpl s of Some p \<Rightarrow> if si_owner s \<or> si_neighbour s then p else PORT0 | None \<Rightarrow> PORT0)"
  by (simp add: start_effect_def blocked_after_def)

definition started :: "i32 \<Rightarrow> er_ring \<Rightarrow> er_ring" where
  "started now r = (perform now (start_effect (situation_of r None))
     (fsm_save RING_REQ_INVALID None None r))\<lparr>state := RING_STATE_PENDING\<rparr>"

lemma ring_fsm_start:
  assumes "fresh_ring r"
  shows "ring_fsm now r RING_REQ_INVALID None None = Inr (started now r)"
proof -
  have "valid_call RING_REQ_INVALID None None" by (simp add: valid_call_def request_sets)
  then have "ring_fsm now r RING_REQ_INVALID None None =
      Inr ((perform now (start_effect (situation_of r None)) (fsm_save RING_REQ_INVALID None None r))
        \<lparr>state := ef_next (start_effect (situation_of r None))\<rparr>)"
    using ring_fsm_refines [of r RING_REQ_INVALID None None now] assms
    by (simp add: fresh_ring_def effect_of_def act_simps repeated_def)
  then show ?thesis by (simp add: started_def start_effect_def)
qed

lemma started_inv:
  assumes "fresh_ring r"
  shows "ring_inv (started now r)"
proof -
  let ?s = "fsm_save RING_REQ_INVALID None None r"
  let ?e = "start_effect (situation_of r None)"
  have ok: "ring_ok ?s" and flags: "rp_flags (raps ?s) \<noteq> 0"
    using assms by (simp_all add: fresh_ring_def act_simps)
  have upd: "ring_ok (t\<lparr>state := x\<rparr>) = ring_ok t" "tx_coherent (t\<lparr>state := x\<rparr>) = tx_coherent t"
    "rpl_ok (t\<lparr>state := x\<rparr>) = rpl_ok t" for t x
    by (simp_all add: ring_ok_def tx_coherent_def rpl_ok_def)
  have "ef_tx ?e = Announce RAPS_REQ_NR 0" by (simp add: start_effect_def)
  then have "ring_ok (started now r)" "tx_coherent (started now r)"
    using perform_ok(1) [OF ok, of now ?e] perform_ok(2) [OF ok, of ?e now] flags
    by (simp_all add: started_def upd)
  moreover have "raps_sendable (raps (started now r))"
    using perform_sendable [of ?s ?e now] assms
    by (simp add: started_def raps_sendable_def fresh_ring_def act_simps start_effect_def)
  moreover have "rpl_ok (started now r)"
    using assms rpl_ok_cfg [OF perform_frame(2) [of now ?e ?s]]
    by (simp add: started_def upd fresh_ring_def act_simps)
  moreover have "length (prev_request_remote_node_id (started now r)) = 6"
    using assms by (simp add: started_def act_simps fresh_ring_def fsm_save_def)
  moreover have "request_inv (started now r)" "state (started now r) = RING_STATE_PENDING"
    using assms by (simp_all add: started_def request_inv_def act_simps fresh_ring_def)
  moreover have "port_inv (started now r)"
    using assms
    by (simp add: started_def port_inv_def act_simps fresh_ring_def start_effect_blocked)
  ultimately show ?thesis by (simp add: ring_inv_def)
qed

lemma ring_started_inv: "ring_started r \<Longrightarrow> ring_inv r"
  unfolding ring_started_def using ring_fsm_start started_inv by fastforce

lemma configure_sel [act_simps]:
  "blocked p (configure v vid g w x rv act r) = blocked p r"
  "ring_ok (configure v vid g w x rv act r) = ring_ok r"
  "rpl_ok (configure v vid g w x rv act r) = rpl_ok r"
  "tx_coherent (configure v vid g w x rv act r) = tx_coherent r"
  "ring_ctl (configure v vid g w x rv act r) = ring_ctl r"
  "raps (configure v vid g w x rv act r) = raps r"
  "is_sending_raps (configure v vid g w x rv act r) = is_sending_raps r"
  "local_request (configure v vid g w x rv act r) = local_request r"
  "state (configure v vid g w x rv act r) = state r"
  "rpl_port (configure v vid g w x rv act r) = rpl_port r"
  "is_rpl_owner (configure v vid g w x rv act r) = is_rpl_owner r"
  "is_rpl_neighbour (configure v vid g w x rv act r) = is_rpl_neighbour r"
  "raps_frame (configure v vid g w x rv act r) = raps_frame r"
  by (cases p; simp add: configure_def blocked_def)
    (simp_all add: configure_def ring_ok_def rpl_ok_def tx_coherent_def ring_ctl_def)

lemma guard_sel [act_simps]:
  "blocked p (r\<lparr>guard_timer_active := b\<rparr>) = blocked p r"
  "ring_ok (r\<lparr>guard_timer_active := b\<rparr>) = ring_ok r"
  "rpl_ok (r\<lparr>guard_timer_active := b\<rparr>) = rpl_ok r"
  "tx_coherent (r\<lparr>guard_timer_active := b\<rparr>) = tx_coherent r"
  "ring_ctl (r\<lparr>guard_timer_active := b\<rparr>) = ring_ctl r"
  by (cases p; simp add: blocked_def)
    (simp_all add: ring_ok_def rpl_ok_def tx_coherent_def ring_ctl_def)

lemma wtr_sel [act_simps]:
  "blocked p (r\<lparr>wtr_timer_active := b\<rparr>) = blocked p r"
  "ring_ok (r\<lparr>wtr_timer_active := b\<rparr>) = ring_ok r"
  "rpl_ok (r\<lparr>wtr_timer_active := b\<rparr>) = rpl_ok r"
  "tx_coherent (r\<lparr>wtr_timer_active := b\<rparr>) = tx_coherent r"
  "ring_ctl (r\<lparr>wtr_timer_active := b\<rparr>) = ring_ctl r"
  by (cases p; simp add: blocked_def)
    (simp_all add: ring_ok_def rpl_ok_def tx_coherent_def ring_ctl_def)

lemma bursts_sel [act_simps]:
  "blocked p (r\<lparr>raps_bursts_remain := n\<rparr>) = blocked p r"
  "ring_ok (r\<lparr>raps_bursts_remain := n\<rparr>) = ring_ok r"
  "rpl_ok (r\<lparr>raps_bursts_remain := n\<rparr>) = rpl_ok r"
  "tx_coherent (r\<lparr>raps_bursts_remain := n\<rparr>) = tx_coherent r"
  "ring_ctl (r\<lparr>raps_bursts_remain := n\<rparr>) = ring_ctl r"
  by (cases p; simp add: blocked_def)
    (simp_all add: ring_ok_def rpl_ok_def tx_coherent_def ring_ctl_def)

abbreviation set_failed :: "port_id \<Rightarrow> bool \<Rightarrow> er_ring \<Rightarrow> er_ring" where
  "set_failed p b \<equiv> upd_port p (\<lambda>q. q\<lparr>is_failed := b\<rparr>)"

lemma link_sel [act_simps]:
  "blocked q (set_failed p b r) = blocked q r"
  "ring_ok (set_failed p b r) = ring_ok r" "rpl_ok (set_failed p b r) = rpl_ok r"
  "tx_coherent (set_failed p b r) = tx_coherent r" "ring_ctl (set_failed p b r) = ring_ctl r"
  "raps (set_failed p b r) = raps r" "is_sending_raps (set_failed p b r) = is_sending_raps r"
  "local_request (set_failed p b r) = local_request r" "state (set_failed p b r) = state r"
  "rpl_port (set_failed p b r) = rpl_port r" "is_rpl_owner (set_failed p b r) = is_rpl_owner r"
  "is_rpl_neighbour (set_failed p b r) = is_rpl_neighbour r"
  "raps_frame (set_failed p b r) = raps_frame r" "node_id (set_failed p b r) = node_id r"
  by (cases p; cases q; simp add: upd_port.simps blocked_def)
    (cases p; simp add: upd_port.simps ring_ok_def rpl_ok_def tx_coherent_def ring_ctl_def)+

text \<open>The invariant reads the control state, the ports and the transmit side only.\<close>

lemma ring_inv_cong:
  assumes "ring_ctl r' = ring_ctl r" and "\<And>p. blocked p r' = blocked p r"
    and "ring_ok r' = ring_ok r" and "rpl_ok r' = rpl_ok r" and "tx_coherent r' = tx_coherent r"
    and "raps r' = raps r" and "is_sending_raps r' = is_sending_raps r"
  shows "ring_inv r' = ring_inv r"
proof -
  have ctl: "local_request r' = local_request r" "state r' = state r" "prev_request r' = prev_request r"
    "prev_request_port r' = prev_request_port r"
    "prev_request_remote_node_id r' = prev_request_remote_node_id r"
    using assms(1) by (simp_all add: ring_ctl_def)
  show ?thesis
    unfolding ring_inv_def request_inv_def port_inv_def ctl assms(2-) ..
qed

lemma ring_inv_update:
  "ring_inv (r\<lparr>guard_timer_active := b\<rparr>) = ring_inv r"
  "ring_inv (r\<lparr>wtr_timer_active := b\<rparr>) = ring_inv r"
  "ring_inv (set_failed p b r) = ring_inv r"
  "ring_inv (r\<lparr>raps_bursts_remain := n\<rparr>) = ring_inv r"
  "ring_inv (configure v vid g w x rv act r) = ring_inv r"
  by (rule ring_inv_cong; simp add: act_simps)+

lemma ring_step_inv: "ring_step r ev r' \<Longrightarrow> ring_inv r \<Longrightarrow> ring_inv r'"
  by (cases rule: ring_step.cases) (auto simp: ring_inv_update intro: ring_process_request_inv)

lemma ring_inv_not_both: "ring_inv r \<Longrightarrow> \<not> (blocked PORT0 r \<and> blocked PORT1 r)"
  unfolding ring_inv_def port_inv_def by blast

interpretation ring: safe_machine ring_started ring_step ring_inv
  "\<lambda>r. blocked PORT0 r \<and> blocked PORT1 r"
  by unfold_locales (fact ring_started_inv, erule (1) ring_step_inv, fact ring_inv_not_both)

end
