(* ===== verification/Protection.thy ===== *)
theory Protection
  imports Request
begin

text \<open>
  What the ring promises: the properties of the state machine together with the request logic,
  over every sequence of requests a started ring can see, and the situations in which the code
  leaves the behaviour the recommendation (or its own comments) asks for.
\<close>

section \<open>Concrete rings\<close>

definition sample_port :: "string \<Rightarrow> int \<Rightarrow> er_port" where
  "sample_port name i = er_port_zero\<lparr>port_name := strncpy IFNAMSIZ name, idx := i\<rparr>"

text \<open>A ring as \<^verbatim>\<open>er_ring_create\<close> fills it in; the flag makes it the RPL owner on port 1.\<close>

definition sample_fresh :: "bool \<Rightarrow> er_ring" where
  "sample_fresh owner = \<lparr>ring_addr = 1, port0_addr = 2, port0 = sample_port ''igb0'' 1, port1_addr = 3,
     port1 = sample_port ''igb1'' 2, vale_name = strncpy 16 ''valeR1:'', is_rpl_owner = owner,
     is_rpl_neighbour = False, is_revertive = True, rpl_port = (if owner then Some PORT1 else None),
     version = 2, ring_id = 1, raps_vid = 4093, node_id = [2,4,6,8,10,12],
     guard_timer_active = False, guard_timer_active_since = 0, wtr_timer_active = False,
     wtr_timer_active_since = 0, wtb_timer_active = False, wtb_timer_active_since = 0,
     local_request = RING_REQ_INVALID, state = RING_STATE_INIT, prev_request = RING_REQ_INVALID,
     prev_request_port = None, prev_request_remote_node_id = replicate 6 0, is_sending_raps = False,
     raps_addr = 4, raps = er_raps_zero\<lparr>rp_vid := 4093, rp_ring_id := 1, rp_node_id := NodeRing,
       rp_flags := 0xff\<rparr>, raps_frame_addr = 5, raps_frame = replicate 55 0, raps_frame_len = 55,
     raps_bursts_remain = 0, guard_time = 500, wtr_time = 300000, wtb_time = 5500, active = True\<rparr>"

definition sample_ring :: "bool \<Rightarrow> er_ring" where
  "sample_ring owner = started 0 (sample_fresh owner)"

lemma sample_fresh: "fresh_ring (sample_fresh owner)"
  by (simp add: sample_fresh_def fresh_ring_def ring_ok_def rpl_ok_def er_raps_zero_def)

lemma sample_started: "ring_started (sample_ring owner)"
  unfolding ring_started_def sample_ring_def using sample_fresh ring_fsm_start by blast

lemma sample_inv: "ring_inv (sample_ring owner)"
  using sample_started by (rule ring_started_inv)

lemma started_cfg: "ring_cfg (started now r) = ring_cfg r"
proof -
  have "ring_cfg (r\<lparr>state := x\<rparr>) = ring_cfg r" for r :: er_ring and x by (simp add: ring_cfg_def)
  then show ?thesis by (simp add: started_def act_simps)
qed

lemma started_sel [act_simps]:
  "is_rpl_owner (started now r) = is_rpl_owner r" "version (started now r) = version r"
  "is_rpl_neighbour (started now r) = is_rpl_neighbour r" "rpl_port (started now r) = rpl_port r"
  "is_revertive (started now r) = is_revertive r" "node_id (started now r) = node_id r"
  "state (started now r) = RING_STATE_PENDING" "local_request (started now r) = local_request r"
  "prev_request (started now r) = RING_REQ_INVALID"
  using started_cfg [of now r] by (simp_all add: ring_cfg_def started_def act_simps)

lemma blocked_started:
  "blocked q (started now r) \<longleftrightarrow>
     q = (case rpl_port r of Some p \<Rightarrow> if is_rpl_owner r \<or> is_rpl_neighbour r then p else PORT0 | None \<Rightarrow> PORT0)"
  by (simp add: started_def act_simps blocked_update start_effect_blocked)
    (simp add: situation_of_def split: option.split)

lemma sample_sel [act_simps]:
  "state (sample_ring owner) = RING_STATE_PENDING" "local_request (sample_ring owner) = RING_REQ_INVALID"
  "prev_request (sample_ring owner) = RING_REQ_INVALID" "version (sample_ring owner) = 2"
  "is_rpl_owner (sample_ring owner) = owner" "\<not> is_rpl_neighbour (sample_ring owner)"
  "rpl_port (sample_ring owner) = (if owner then Some PORT1 else None)"
  "is_revertive (sample_ring owner)" "node_id (sample_ring owner) = [2,4,6,8,10,12]"
  "blocked p (sample_ring owner) \<longleftrightarrow> p = (if owner then PORT1 else PORT0)"
  unfolding sample_ring_def started_sel blocked_started by (simp_all add: sample_fresh_def)

text \<open>A ring after one accepted request.\<close>

lemma after_step:
  assumes "ring_inv r" and "valid_call req port nid" and "request_accepted r req"
    and "\<not> repeated r req port nid"
  shows "ring_process_request now r req port nid = Inr (after now r req port nid)"
    and "ring_inv (after now r req port nid)"
    and "ring_step r (Request now req port nid) (after now r req port nid)"
proof -
  show p: "ring_process_request now r req port nid = Inr (after now r req port nid)"
    using ring_process_request_refines [OF assms(1,2)] assms(3,4) by simp
  then show "ring_inv (after now r req port nid)"
    by (rule ring_process_request_inv [OF assms(1,2)])
  from assms(2) p show "ring_step r (Request now req port nid) (after now r req port nid)"
    by (rule step_request)
qed

lemma after_blocked:
  "blocked p (after now r req port nid) =
     blocked_after (ef_ports (g8032 req port (situation_of r nid))) r p"
proof -
  have get: "get_port p (fsm_save req port nid (note_local req r)) = get_port p r" for p
    by (cases p) (simp_all add: fsm_save_def note_local_def Let_def split: option.split)
  show ?thesis
    by (simp add: after_sel(5) blocked_after_def act_simps get split: port_effect.split)
qed

section \<open>Requests are handled as the table says\<close>

lemma after_timers [act_simps]:
  "guard_timer (after now r req port nid) =
     timer_after now (ef_guard (g8032 req port (situation_of r nid))) (guard_timer r)"
  "wtr_timer (after now r req port nid) =
     timer_after now (ef_wtr (g8032 req port (situation_of r nid))) (wtr_timer r)"
  "wtb_timer (after now r req port nid) =
     timer_after now (ef_wtb (g8032 req port (situation_of r nid))) (wtb_timer r)"
proof -
  let ?s = "fsm_save req port nid (note_local req r)"
  have s: "guard_timer ?s = guard_timer r" "wtr_timer ?s = wtr_timer r" "wtb_timer ?s = wtb_timer r"
    by (simp_all add: fsm_save_def note_local_def Let_def split: option.split)
  let ?e = "g8032 req port (situation_of r nid)"
  show "guard_timer (after now r req port nid) = timer_after now (ef_guard ?e) (guard_timer r)"
    using perform_timers(1) [of now ?e ?s] s(1) by (simp add: after_def Let_def)
  show "wtr_timer (after now r req port nid) = timer_after now (ef_wtr ?e) (wtr_timer r)"
    using perform_timers(2) [of now ?e ?s] s(2) by (simp add: after_def Let_def)
  show "wtb_timer (after now r req port nid) = timer_after now (ef_wtb ?e) (wtb_timer r)"
    using perform_timers(3) [of now ?e ?s] s(3) by (simp add: after_def Let_def)
qed

text \<open>Claim C1: every request a started ring can see is handled without a fault, and exactly as
  the table says. A request that the priority logic refuses, or that repeats the last one, leaves
  the ring as it is; any other sets state, blocked ports, announced message and the three
  timers to what the effect of the table prescribes and leaves the configuration alone.\<close>

theorem request_follows_table:
  assumes "ring_inv r" and "valid_call req port nid"
  defines "e \<equiv> g8032 req port (situation_of r nid)"
  shows "\<exists>r'. ring_process_request now r req port nid = Inr r' \<and>
    (if request_accepted r req \<and> \<not> repeated r req port nid then
       state r' = ef_next e \<and> prev_request r' = req \<and>
       local_request r' = (if req \<in> local_requests then req else RING_REQ_INVALID) \<and>
       (\<forall>p. blocked p r' = blocked_after (ef_ports e) r p) \<and>
       (is_sending_raps r', rp_request (raps r'), rp_flags (raps r')) = tx_after (ef_tx e) r \<and>
       guard_timer r' = timer_after now (ef_guard e) (guard_timer r) \<and>
       wtr_timer r' = timer_after now (ef_wtr e) (wtr_timer r) \<and>
       wtb_timer r' = timer_after now (ef_wtb e) (wtb_timer r) \<and> ring_cfg r' = ring_cfg r
     else r' = r)"
proof (cases "request_accepted r req \<and> \<not> repeated r req port nid")
  case True
  with True after_step(1) [OF assms(1,2)] show ?thesis
    unfolding e_def by (simp add: after_sel(1-3,6) after_blocked after_timers after_cfg)
next
  case False
  then show ?thesis using ring_process_request_refines [OF assms(1,2), of now] by auto
qed

lemma request_follows_table_witness:
  "\<exists>r'. ring_process_request 7 (sample_ring True) RING_REQ_SF (Some PORT0) None = Inr r' \<and>
     state r' = RING_STATE_PROTECTION \<and> blocked PORT0 r' \<and> \<not> blocked PORT1 r'"
proof -
  have "request_accepted (sample_ring True) RING_REQ_SF"
    by (simp add: request_accepted_def act_simps req_less)
  moreover have "\<not> repeated (sample_ring True) RING_REQ_SF (Some PORT0) None"
    by (simp add: repeated_def act_simps)
  moreover have "valid_call RING_REQ_SF (Some PORT0) None"
    by (simp add: valid_call_def request_sets)
  ultimately show ?thesis
    using request_follows_table [OF sample_inv, of RING_REQ_SF "Some PORT0" None 7 True]
    by (auto simp: table_defs act_simps blocked_after_def)
qed

section \<open>Safety of every reachable ring\<close>

text \<open>Whatever requests arrive, in whatever order, and however the ring is reconfigured
  meanwhile, a started ring never has both its ports blocked, so the state machine never cuts
  its own node off the ring.\<close>

theorem never_both_blocked:
  assumes "reach ring_started ring_step r"
  shows "\<not> (is_blocked (port0 r) \<and> is_blocked (port1 r))"
  using ring.reach_safe [OF assms] by (simp add: blocked_def)

lemma never_both_blocked_witness:
  "\<not> (is_blocked (port0 (sample_ring True)) \<and> is_blocked (port1 (sample_ring True)))"
  using never_both_blocked [OF reach_init, of "sample_ring True"] sample_started by simp

text \<open>Claim C9: while a local signal fail or forced switch stands, the port it named is blocked,
  the other one is open, the condition is being announced, and the machine is in the state of
  that condition.\<close>

theorem standing_switch_holds:
  assumes "reach ring_started ring_step r" and "local_request r \<in> {RING_REQ_SF, RING_REQ_FS}"
  shows "\<exists>p. prev_request_port r = Some p \<and> blocked p r \<and> \<not> blocked (other_port p) r \<and>
    is_sending_raps r \<and>
    (local_request r = RING_REQ_SF \<longrightarrow> rp_request (raps r) = RAPS_REQ_SF \<and> state r = RING_STATE_PROTECTION) \<and>
    (local_request r = RING_REQ_FS \<longrightarrow> rp_request (raps r) = RAPS_REQ_FS \<and> state r = RING_STATE_FORCED_SWITCH)"
proof -
  from ring.reach_inv [OF assms(1)] have "request_inv r" "port_inv r"
    by (simp_all add: ring_inv_def)
  then have st: "local_request r = RING_REQ_SF \<longrightarrow> state r = RING_STATE_PROTECTION"
      "local_request r = RING_REQ_FS \<longrightarrow> state r = RING_STATE_FORCED_SWITCH"
    and tx: "is_sending_raps r"
      "rp_request (raps r) = (if local_request r = RING_REQ_FS then RAPS_REQ_FS else RAPS_REQ_SF)"
      "case prev_request_port r of None \<Rightarrow> False | Some p \<Rightarrow> blocked p r"
      "\<not> (blocked PORT0 r \<and> blocked PORT1 r)"
    using assms(2) unfolding request_inv_def port_inv_def by blast+
  from tx(3) obtain p where p: "prev_request_port r = Some p" "blocked p r"
    by (cases "prev_request_port r") simp_all
  with tx(4) have "\<not> blocked (other_port p) r" by (cases p) simp_all
  with p tx(1,2) st show ?thesis by (intro exI [of _ p]) auto
qed

definition sample_fs :: er_ring where
  "sample_fs = after 5 (sample_ring True) RING_REQ_FS (Some PORT0) None"

lemma sample_fs_step:
  "ring_step (sample_ring True) (Request 5 RING_REQ_FS (Some PORT0) None) sample_fs"
  "ring_inv sample_fs"
  unfolding sample_fs_def
  by (rule after_step(3) after_step(2); simp add: sample_inv valid_call_def request_sets
      request_accepted_def act_simps req_less repeated_def)+

lemma sample_fs_reach: "reach ring_started ring_step sample_fs"
  using sample_started sample_fs_step(1) by (blast intro: reach_init reach_step)

lemma sample_fs_sel [act_simps]:
  "local_request sample_fs = RING_REQ_FS" "prev_request_port sample_fs = Some PORT0"
  "state sample_fs = RING_STATE_FORCED_SWITCH"
  by (simp_all add: sample_fs_def act_simps request_sets table_defs)

lemma standing_switch_holds_witness:
  "blocked PORT0 sample_fs \<and> \<not> blocked PORT1 sample_fs \<and> rp_request (raps sample_fs) = RAPS_REQ_FS"
  using standing_switch_holds [OF sample_fs_reach] by (simp add: act_simps)

text \<open>Claim C24: a forced switch ordered at this node survives every request except CLEAR: after any
  run without a CLEAR the node is still in FORCED_SWITCH with the same port blocked and the same
  message on the wire.\<close>

theorem forced_switch_persists:
  assumes "reach ring_started ring_step r" and "local_request r = RING_REQ_FS"
    and "run ring_step r evs r'" and "\<forall>now port nid. Request now RING_REQ_CLEAR port nid \<notin> set evs"
  shows "local_request r' = RING_REQ_FS \<and> state r' = RING_STATE_FORCED_SWITCH \<and>
    (\<forall>p. blocked p r' = blocked p r) \<and> is_sending_raps r' \<and> raps_frame r' = raps_frame r"
proof -
  have one: "local_request t = RING_REQ_FS \<and> (\<forall>p. blocked p t = blocked p s) \<and> raps_frame t = raps_frame s"
    if "ring_step s ev t" "local_request s = RING_REQ_FS"
      "\<forall>now port nid. ev \<noteq> Request now RING_REQ_CLEAR port nid" for s ev t
    using that(1)
  proof cases
    case (step_request req port nid now)
    then have "req \<noteq> RING_REQ_CLEAR" using that(3) by simp
    then have "\<not> request_accepted s req"
      using that(2) by (cases req) (simp_all add: request_accepted_def req_less)
    then have "t = s" using step_request by (simp add: ring_process_request_eq)
    then show ?thesis using that(2) by simp
  qed (use that(2) in \<open>simp_all add: act_simps\<close>)
  have "local_request r' = RING_REQ_FS \<and> (\<forall>p. blocked p r' = blocked p r) \<and> raps_frame r' = raps_frame r"
    using assms(3,2,4)
  proof (induction rule: run.induct)
    case (run_cons s ev t es u)
    then have "local_request t = RING_REQ_FS \<and> (\<forall>p. blocked p t = blocked p s) \<and> raps_frame t = raps_frame s"
      by (intro one) auto
    with run_cons show ?case by simp
  qed simp
  moreover have "ring_inv r'" using ring.run_inv [OF assms(3) ring.reach_inv [OF assms(1)]] .
  then have "request_inv r'" "port_inv r'" by (simp_all add: ring_inv_def)
  ultimately show ?thesis unfolding request_inv_def port_inv_def by blast
qed

lemma forced_switch_persists_witness:
  "\<exists>r'. run ring_step sample_fs [GuardExpired, Request 9 RING_REQ_SF (Some PORT1) None] r' \<and>
     local_request r' = RING_REQ_FS \<and> state r' = RING_STATE_FORCED_SWITCH"
proof -
  let ?t = "sample_fs\<lparr>guard_timer_active := False\<rparr>"
  have "ring_process_request 9 ?t RING_REQ_SF (Some PORT1) None = Inr ?t"
    by (simp add: ring_process_request_eq request_accepted_def act_simps req_less)
  then have "ring_step ?t (Request 9 RING_REQ_SF (Some PORT1) None) ?t"
    by (intro step_request) (simp add: valid_call_def request_sets)
  then have r: "run ring_step sample_fs [GuardExpired, Request 9 RING_REQ_SF (Some PORT1) None] ?t"
    by (blast intro: run_cons run_nil step_guard)
  then show ?thesis
    using forced_switch_persists [OF sample_fs_reach _ r] by (auto simp: act_simps)
qed

text \<open>Claim C25: handling a request twice is the same as handling it once: whatever the first call
  did, an immediate second call with the same arguments changes nothing.\<close>

theorem request_idempotent:
  assumes "ring_inv r" and "valid_call req port nid"
    and "ring_process_request now r req port nid = Inr r'"
  shows "ring_process_request now' r' req port nid = Inr r'"
proof (cases "request_accepted r req \<and> \<not> repeated r req port nid")
  case True
  then have r': "r' = after now r req port nid"
    using ring_process_request_refines [OF assms(1,2), of now] assms(3) by simp
  have inv: "ring_inv r'" by (rule ring_process_request_inv [OF assms])
  have prev: "prev_request r' = req" "prev_request_port r' = port"
    "local_request r' = (if req \<in> local_requests then req else RING_REQ_INVALID)"
    by (simp_all add: r' after_sel)
  have nid: "prev_request_remote_node_id r' = n" if "nid = Some n" for n
    using that assms(2) by (simp add: r' after_def Let_def act_simps fsm_save_def valid_call_def)
  have "\<not> request_accepted r' req \<or> repeated r' req port nid"
  proof (cases "req \<in> local_requests")
    case True
    then have "\<not> request_accepted r' req"
      unfolding request_accepted_def prev(3) by (auto simp: request_sets)
    then show ?thesis ..
  next
    case False
    have "req \<noteq> RING_REQ_INVALID" using True by (auto simp: request_accepted_def)
    moreover have "req \<in> remote_requests \<Longrightarrow> nid \<noteq> None" using assms(2) by (simp add: valid_call_def)
    ultimately have "repeated r' req port nid" using prev nid by (auto simp: repeated_def)
    then show ?thesis ..
  qed
  then show ?thesis using ring_process_request_refines [OF inv assms(2), of now'] by auto
next
  case False
  then have "r' = r" using ring_process_request_refines [OF assms(1,2), of now] assms(3) by auto
  with False show ?thesis using ring_process_request_refines [OF assms(1,2), of now'] by auto
qed

lemma request_idempotent_witness:
  "ring_process_request 8 sample_fs RING_REQ_FS (Some PORT0) None = Inr sample_fs"
proof -
  have v: "valid_call RING_REQ_FS (Some PORT0) None" by (simp add: valid_call_def request_sets)
  have "ring_process_request 5 (sample_ring True) RING_REQ_FS (Some PORT0) None = Inr sample_fs"
    unfolding sample_fs_def
    by (rule after_step(1); simp add: sample_inv v request_accepted_def act_simps req_less repeated_def)
  from request_idempotent [OF sample_inv v this] show ?thesis .
qed

text \<open>The frame in the transmit buffer of a reachable ring always parses, and yields the
  request and flags the ring is announcing and the ring's own node id.\<close>

theorem transmit_buffer_decodes:
  assumes "reach ring_started ring_step r"
  shows "\<exists>g. er_raps_parse (Some f) (raps_frame r) (raps_frame_len r) = Inr (True, Some g) \<and>
    rp_request g = rp_request (raps r) \<and> rp_flags g = rp_flags (raps r) AND 0xe0 \<and>
    rp_ring_id g = rp_ring_id (raps r) \<and>
    node_bytes own (raps_frame r) (rp_node_id g) = Inr (node_id r)"
proof -
  from ring.reach_inv [OF assms] have s: "length (node_id r) = 6" "raps_sendable (raps r)"
    "raps_frame_len r = 55" "raps_frame r = raps_bytes (raps r) (node_id r)"
    by (simp_all add: ring_inv_def ring_ok_def tx_coherent_def)
  show ?thesis
    unfolding s(3,4)
    using er_raps_parse_bytes [OF s(1,2), of 55 "[]" f] node_bytes_24 [OF s(1), of own "raps r" "[]"] s(1)
    by simp
qed

lemma transmit_buffer_decodes_witness:
  "\<exists>g. er_raps_parse (Some er_raps_zero) (raps_frame sample_fs) (raps_frame_len sample_fs) = Inr (True, Some g) \<and>
     node_bytes [] (raps_frame sample_fs) (rp_node_id g) = Inr [2,4,6,8,10,12]"
proof -
  have "node_id sample_fs = [2,4,6,8,10,12]"
    using after_cfg [of 5 "sample_ring True" RING_REQ_FS "Some PORT0" None]
    by (simp add: ring_cfg_def sample_fs_def sample_sel(9))
  then show ?thesis using transmit_buffer_decodes [OF sample_fs_reach, of er_raps_zero "[]"] by auto
qed

section \<open>Reversion\<close>

text \<open>Reversion at an owner that is pending.\<close>

lemma pending_reverts:
  assumes "ring_inv r" and "is_rpl_owner r" and "rpl_port r = Some p" and "state r = RING_STATE_PENDING"
    and "req \<in> {RING_REQ_WTR_EXPIRES, RING_REQ_WTB_EXPIRES, RING_REQ_CLEAR}" and "prev_request r \<noteq> req"
  shows "\<exists>r'. ring_process_request now r req None None = Inr r' \<and> state r' = RING_STATE_IDLE \<and>
    (\<forall>q. blocked q r' \<longleftrightarrow> q = p) \<and> is_sending_raps r' \<and> rp_request (raps r') = RAPS_REQ_NR \<and>
    rp_flags (raps r') = (if blocked p r then RAPS_FLAG_RB OR RAPS_FLAG_DNF else RAPS_FLAG_RB) \<and>
    (req = RING_REQ_CLEAR \<longrightarrow> \<not> wtr_timer_active r' \<and> \<not> wtb_timer_active r')"
proof -
  have v: "valid_call req None None" using assms(5) by (auto simp: valid_call_def request_sets)
  have "request_inv r" using assms(1) by (simp add: ring_inv_def)
  then have loc: "local_request r = RING_REQ_INVALID"
    using assms(4) by (simp add: request_inv_state)
  have acc: "request_accepted r req"
    using assms(2,4,5) loc by (auto simp: request_accepted_def req_less clear_denied_def Let_def)
  have rep: "\<not> repeated r req None None" using assms(6) by (simp add: repeated_def)
  have s: "situation_of r None = \<lparr>si_state = RING_STATE_PENDING, si_owner = True,
      si_neighbour = is_rpl_neighbour r, si_revertive = is_revertive r, si_rpl = Some p,
      si_blocked = (\<lambda>p. blocked p r), si_lower = False\<rparr>"
    using assms(2-4) by (simp add: situation_of_def)
  let ?e = "g8032 req None (situation_of r None)" and ?r = "after now r req None None"
  have e: "ef_ports ?e = OnlyBlock p" "ef_next ?e = RING_STATE_IDLE"
    "ef_tx ?e = Announce RAPS_REQ_NR (if blocked p r then RAPS_FLAG_RB OR RAPS_FLAG_DNF else RAPS_FLAG_RB)"
    "req = RING_REQ_CLEAR \<Longrightarrow> ef_wtr ?e = Stop \<and> ef_wtb ?e = Stop"
    using assms(5) unfolding s by (auto simp: table_defs)
  have "state ?r = RING_STATE_IDLE" "blocked q ?r \<longleftrightarrow> q = p" for q
    by (simp_all add: after_sel e blocked_after_def)
  moreover have "is_sending_raps ?r \<and> rp_request (raps ?r) = RAPS_REQ_NR \<and>
    rp_flags (raps ?r) = (if blocked p r then RAPS_FLAG_RB OR RAPS_FLAG_DNF else RAPS_FLAG_RB)"
    using after_sel(6) [of now r req None None] by (simp only: e(3) tx_after_def tx_effect.case prod.inject simp_thms)
  moreover have "req = RING_REQ_CLEAR \<Longrightarrow> \<not> wtr_timer_active ?r \<and> \<not> wtb_timer_active ?r"
    using after_timers(2,3) [of now r req None None] e(4) by (simp add: timer_after_def)
  ultimately show ?thesis using after_step(1) [OF assms(1) v acc rep, of now] by blast
qed

text \<open>Claim C14: when a reversion timer of the RPL owner runs out, or its operator clears, a pending
  ring becomes idle: exactly the ring protection link is blocked, NR with the RB flag is
  announced, and a manual clear has also stopped both timers. The one exception is a request
  that is the last one over again, as the CLEAR of an owner that has become pending by clearing
  its own switch: it is dropped, and the ring stays as it is.\<close>

theorem owner_reverts:
  assumes "ring_inv r" and "is_rpl_owner r" and "rpl_port r = Some p" and "state r = RING_STATE_PENDING"
    and "req \<in> {RING_REQ_WTR_EXPIRES, RING_REQ_WTB_EXPIRES, RING_REQ_CLEAR}"
  shows "\<exists>r'. ring_process_request now r req None None = Inr r' \<and>
    (if prev_request r = req then r' = r
     else state r' = RING_STATE_IDLE \<and>
       (\<forall>q. blocked q r' \<longleftrightarrow> q = p) \<and> is_sending_raps r' \<and> rp_request (raps r') = RAPS_REQ_NR \<and>
       rp_flags (raps r') = (if blocked p r then RAPS_FLAG_RB OR RAPS_FLAG_DNF else RAPS_FLAG_RB) \<and>
       (req = RING_REQ_CLEAR \<longrightarrow> \<not> wtr_timer_active r' \<and> \<not> wtb_timer_active r'))"
proof (cases "prev_request r = req")
  case True
  then have "repeated r req None None" using assms(5) by (auto simp: repeated_def request_sets)
  moreover have "valid_call req None None" using assms(5) by (auto simp: valid_call_def request_sets)
  ultimately have "ring_process_request now r req None None = Inr r"
    using ring_process_request_refines [OF assms(1)] by simp
  with True show ?thesis by simp
next
  case False
  from pending_reverts [OF assms False] False show ?thesis by (simp only: if_False)
qed

lemma owner_reverts_witness:
  "(\<exists>r'. ring_process_request 300000 (sample_ring True) RING_REQ_WTR_EXPIRES None None = Inr r' \<and>
     state r' = RING_STATE_IDLE \<and> blocked PORT1 r' \<and> \<not> blocked PORT0 r') \<and>
   (\<exists>r. ring_process_request 300000 r RING_REQ_CLEAR None None = Inr r \<and> prev_request r = RING_REQ_CLEAR \<and>
     is_rpl_owner r \<and> state r = RING_STATE_PENDING)"
proof
  show "\<exists>r'. ring_process_request 300000 (sample_ring True) RING_REQ_WTR_EXPIRES None None = Inr r' \<and>
     state r' = RING_STATE_IDLE \<and> blocked PORT1 r' \<and> \<not> blocked PORT0 r'"
    using owner_reverts [OF sample_inv, of True PORT1 RING_REQ_WTR_EXPIRES 300000]
    by (auto simp: act_simps)
  let ?r = "after 8 sample_fs RING_REQ_CLEAR None None"
  have v: "valid_call RING_REQ_CLEAR None None" by (simp add: valid_call_def request_sets)
  have "prev_request sample_fs = RING_REQ_FS" by (simp add: sample_fs_def after_sel)
  then have acc: "request_accepted sample_fs RING_REQ_CLEAR" "\<not> repeated sample_fs RING_REQ_CLEAR None None"
    by (simp_all add: request_accepted_def clear_denied_def repeated_def req_less sample_fs_sel)
  have inv: "ring_inv ?r" by (rule after_step(2) [OF sample_fs_step(2) v acc])
  have r: "is_rpl_owner ?r" "rpl_port ?r = Some PORT1" "state ?r = RING_STATE_PENDING" "prev_request ?r = RING_REQ_CLEAR"
    using after_cfg [of 8 sample_fs RING_REQ_CLEAR None None]
      after_cfg [of 5 "sample_ring True" RING_REQ_FS "Some PORT0" None]
    by (simp_all add: ring_cfg_def sample_fs_def [symmetric] sample_sel after_sel g8032.simps release_def
        si_state_of sample_fs_sel)
  from owner_reverts [OF inv r(1,2,3), of RING_REQ_CLEAR 300000] r
  show "\<exists>r. ring_process_request 300000 r RING_REQ_CLEAR None None = Inr r \<and> prev_request r = RING_REQ_CLEAR \<and>
     is_rpl_owner r \<and> state r = RING_STATE_PENDING" by auto
qed

text \<open>
  A ring that follows the protocol: only the owner sends RB, so it never receives one, and only
  the owner runs reversion timers. An idle ring then blocks the ring protection link and
  nothing else.
\<close>

definition protocol_event :: "er_ring \<Rightarrow> ring_event \<Rightarrow> bool" where
  "protocol_event r ev = (case ev of
     Request now req port nid \<Rightarrow> (if is_rpl_owner r then req \<noteq> RING_REQ_RAPS_NR_RB
        else req \<notin> {RING_REQ_WTR_EXPIRES, RING_REQ_WTB_EXPIRES})
   | _ \<Rightarrow> True)"

definition protocol_step :: "er_ring \<Rightarrow> ring_event \<Rightarrow> er_ring \<Rightarrow> bool" where
  "protocol_step r ev r' \<longleftrightarrow> ring_step r ev r' \<and> protocol_event r ev"

definition idle_wrong :: "er_ring \<Rightarrow> bool" where
  "idle_wrong r \<longleftrightarrow> state r = RING_STATE_IDLE \<and>
     \<not> (\<forall>q. blocked q r \<longleftrightarrow> (is_rpl_owner r \<or> is_rpl_neighbour r) \<and> rpl_port r = Some q)"

lemma g8032_to_idle:
  assumes "ef_next (g8032 req port s) = RING_STATE_IDLE" and "si_state s \<noteq> RING_STATE_IDLE"
    and "if si_owner s then req \<noteq> RING_REQ_RAPS_NR_RB
         else req \<notin> {RING_REQ_WTR_EXPIRES, RING_REQ_WTB_EXPIRES, RING_REQ_CLEAR}"
    and "si_owner s \<or> si_neighbour s \<Longrightarrow> si_rpl s = Some p"
  shows "ef_ports (g8032 req port s) =
    (if si_owner s \<or> si_neighbour s then OnlyBlock p else OpenAll)"
  using assms by (cases req) (auto simp: table_defs split: option.splits if_splits)

lemma g8032_in_idle:
  assumes "ef_next (g8032 req port s) = RING_STATE_IDLE" and "si_state s = RING_STATE_IDLE"
    and "si_owner s \<or> si_neighbour s \<Longrightarrow> si_rpl s = Some p"
  shows "ef_ports (g8032 req port s) \<in>
    (if si_owner s \<or> si_neighbour s then {Keep, Open (other_port p)} else {Keep, OpenNonfailed} \<union> range Open)"
  using assms by (cases req) (auto simp: table_defs split: option.splits if_splits)

lemma after_idle:
  assumes "ring_inv r" and "request_accepted r req" and "\<not> idle_wrong r"
    and "protocol_event r (Request now req port nid)"
  shows "\<not> idle_wrong (after now r req port nid)"
proof -
  let ?s = "situation_of r nid" and ?r = "after now r req port nid"
  have cfg: "is_rpl_owner ?r = is_rpl_owner r" "is_rpl_neighbour ?r = is_rpl_neighbour r"
    "rpl_port ?r = rpl_port r"
    using after_cfg [of now r req port nid] by (simp_all add: ring_cfg_def)
  have sit: "si_owner ?s = is_rpl_owner r" "si_neighbour ?s = is_rpl_neighbour r" "si_rpl ?s = rpl_port r"
    by (simp_all add: situation_of_def)
  have "rpl_ok r" "request_inv r" using assms(1) by (simp_all add: ring_inv_def)
  then obtain p where p: "is_rpl_owner r \<or> is_rpl_neighbour r \<Longrightarrow> rpl_port r = Some p"
    by (auto simp: rpl_ok_def)
  have clear: "req \<noteq> RING_REQ_CLEAR" if "\<not> is_rpl_owner r" "ef_next (g8032 req port ?s) = RING_STATE_IDLE"
  proof
    assume q: "req = RING_REQ_CLEAR"
    then have "state r \<in> {RING_STATE_IDLE, RING_STATE_PENDING}"
      using that(2) by (simp add: table_defs act_simps split: if_splits)
    moreover have "local_request r = RING_REQ_MS \<or> local_request r = RING_REQ_FS"
      using q assms(2) that(1) by (auto simp: request_accepted_def clear_denied_def Let_def split: if_splits)
    ultimately show False using request_inv_state [OF \<open>request_inv r\<close>] by auto
  qed
  have ev: "if is_rpl_owner r then req \<noteq> RING_REQ_RAPS_NR_RB
      else req \<notin> {RING_REQ_WTR_EXPIRES, RING_REQ_WTB_EXPIRES}"
    using assms(4) by (simp add: protocol_event_def)
  show ?thesis
  proof (cases "ef_next (g8032 req port ?s) = RING_STATE_IDLE")
    case idle: True
    show ?thesis
    proof (cases "state r = RING_STATE_IDLE")
      case True
      have b: "blocked q r \<longleftrightarrow> (is_rpl_owner r \<or> is_rpl_neighbour r) \<and> rpl_port r = Some q" for q
        using assms(3) True unfolding idle_wrong_def by blast
      have "ef_ports (g8032 req port ?s) \<in> (if is_rpl_owner r \<or> is_rpl_neighbour r
          then {Keep, Open (other_port p)} else {Keep, OpenNonfailed} \<union> range Open)"
        using g8032_in_idle [OF idle, of p] True p unfolding sit by (simp add: act_simps)
      moreover have "blocked_after pe r q \<longleftrightarrow> blocked q r" if "\<not> (is_rpl_owner r \<or> is_rpl_neighbour r)"
        "pe \<in> {Keep, OpenNonfailed} \<union> range Open" for pe q
        using that b [of q] by (auto simp: blocked_after_def)
      moreover have "blocked_after pe r q \<longleftrightarrow> blocked q r" if "is_rpl_owner r \<or> is_rpl_neighbour r"
        "pe \<in> {Keep, Open (other_port p)}" for pe q
        using that b [of q] p ports.other_neq [of p] by (auto simp: blocked_after_def)
      ultimately have "blocked q ?r \<longleftrightarrow> blocked q r" for q
        unfolding after_blocked by (cases "is_rpl_owner r \<or> is_rpl_neighbour r") simp_all
      then show ?thesis unfolding idle_wrong_def cfg using b by blast
    next
      case False
      have "if si_owner ?s then req \<noteq> RING_REQ_RAPS_NR_RB
         else req \<notin> {RING_REQ_WTR_EXPIRES, RING_REQ_WTB_EXPIRES, RING_REQ_CLEAR}"
        using ev clear idle unfolding sit by auto
      from g8032_to_idle [OF idle _ this, of p] False p show ?thesis
        unfolding sit by (auto simp: idle_wrong_def cfg after_blocked blocked_after_def act_simps)
    qed
  qed (simp add: idle_wrong_def after_sel)
qed

lemma protocol_step_inv:
  assumes "protocol_step r ev r'" and "ring_inv r \<and> \<not> idle_wrong r"
  shows "ring_inv r' \<and> \<not> idle_wrong r'"
proof -
  from assms(1) have step: "ring_step r ev r'" and ok: "protocol_event r ev"
    by (simp_all add: protocol_step_def)
  from step show ?thesis
  proof cases
    case (step_request req port nid now)
    then have "r' = (if request_accepted r req \<and> \<not> repeated r req port nid then after now r req port nid else r)"
      using ring_process_request_refines [of r req port nid now] assms(2) by auto
    then show ?thesis
      using after_idle [of r req now port nid] assms(2) ok step_request(1) ring_step_inv [OF step] by auto
  next
    case step_guard
    then show ?thesis using assms(2) ring_step_inv [OF step] by (simp add: idle_wrong_def act_simps)
  next
    case step_wtr
    then show ?thesis using assms(2) ring_step_inv [OF step] by (simp add: idle_wrong_def act_simps)
  next
    case step_link
    then show ?thesis using assms(2) ring_step_inv [OF step] by (simp add: idle_wrong_def act_simps)
  next
    case step_bursts
    then show ?thesis using assms(2) ring_step_inv [OF step] by (simp add: idle_wrong_def act_simps)
  next
    case step_configure
    then show ?thesis using assms(2) ring_step_inv [OF step] by (simp add: idle_wrong_def act_simps)
  qed
qed

lemma started_not_idle: "ring_started r \<Longrightarrow> \<not> idle_wrong r"
  by (auto simp: ring_started_def idle_wrong_def ring_fsm_start act_simps)

interpretation protocol: safe_machine ring_started protocol_step "\<lambda>r. ring_inv r \<and> \<not> idle_wrong r" idle_wrong
  by unfold_locales (use ring_started_inv started_not_idle protocol_step_inv in blast)+

text \<open>Claim C3: in every idle ring that has seen protocol events only, the RPL owner and its
  neighbour block exactly the ring protection link and every other node blocks nothing, so that
  an idle ring of such nodes is cut at the protection link and nowhere else.\<close>

theorem idle_blocks_rpl_only:
  assumes "reach ring_started protocol_step r" and "state r = RING_STATE_IDLE"
  shows "blocked q r \<longleftrightarrow> (is_rpl_owner r \<or> is_rpl_neighbour r) \<and> rpl_port r = Some q"
  using protocol.reach_safe [OF assms(1)] assms(2) unfolding idle_wrong_def by blast

lemma idle_blocks_rpl_only_witness:
  "\<exists>r. state r = RING_STATE_IDLE \<and> blocked PORT1 r \<and> \<not> blocked PORT0 r \<and> is_rpl_owner r"
proof -
  let ?r = "after 9 (sample_ring True) RING_REQ_WTR_EXPIRES None None"
  have "ring_step (sample_ring True) (Request 9 RING_REQ_WTR_EXPIRES None None) ?r"
    by (rule after_step(3); simp add: sample_inv valid_call_def request_sets request_accepted_def
        act_simps req_less repeated_def)
  then have "protocol_step (sample_ring True) (Request 9 RING_REQ_WTR_EXPIRES None None) ?r"
    by (simp add: protocol_step_def protocol_event_def act_simps)
  then have r: "reach ring_started protocol_step ?r"
    using sample_started by (blast intro: reach_init reach_step)
  have cfg: "is_rpl_owner ?r" "rpl_port ?r = Some PORT1"
    using after_cfg [of 9 "sample_ring True" RING_REQ_WTR_EXPIRES None None]
    by (simp_all add: ring_cfg_def sample_sel)
  have st: "state ?r = RING_STATE_IDLE"
    by (simp add: after_sel table_defs act_simps situation_of_def)
  show ?thesis
    using idle_blocks_rpl_only [OF r st, of PORT0] idle_blocks_rpl_only [OF r st, of PORT1] cfg st by auto
qed

section \<open>Signal fail and its end\<close>

text \<open>The end of the failure the node itself has declared.\<close>

lemma clear_sf_after:
  assumes "ring_inv r" and "local_request r = RING_REQ_SF"
    and r2_def: "r2 = after now r RING_REQ_CLEAR_SF (Some p) None"
  shows "ring_process_request now r RING_REQ_CLEAR_SF (Some p) None = Inr r2" and "ring_inv r2"
    and "state r2 = RING_STATE_PENDING" and "blocked q r2 = blocked q r" and "local_request r2 = RING_REQ_INVALID"
    and "guard_timer r2 = (True, now)"
    and "is_rpl_owner r \<and> is_revertive r \<Longrightarrow> wtr_timer r2 = (True, now)"
    and "is_sending_raps r2 \<and> rp_request (raps r2) = RAPS_REQ_NR"
proof -
  have "request_inv r" using assms(1) by (simp add: ring_inv_def)
  then have st: "state r = RING_STATE_PROTECTION" "prev_request r = RING_REQ_SF"
    using assms(2) unfolding request_inv_def by auto
  have acc: "request_accepted r RING_REQ_CLEAR_SF" "\<not> repeated r RING_REQ_CLEAR_SF (Some p) None"
    by (simp_all add: request_accepted_def repeated_def assms(2) st)
  have "valid_call RING_REQ_CLEAR_SF (Some p) None" by (simp add: valid_call_def request_sets)
  from after_step(1,2) [OF assms(1) this acc]
  show "ring_process_request now r RING_REQ_CLEAR_SF (Some p) None = Inr r2" "ring_inv r2" by (simp_all add: r2_def)
  have e: "g8032 RING_REQ_CLEAR_SF (Some p) (situation_of r None) =
      (release (situation_of r None))\<lparr>ef_wtr := start_if (is_rpl_owner r \<and> is_revertive r)\<rparr>"
    using st(1) by (simp add: act_simps) (simp add: situation_of_def)
  show "state r2 = RING_STATE_PENDING" "blocked q r2 = blocked q r" "local_request r2 = RING_REQ_INVALID"
    unfolding r2_def
    by (simp_all add: after_sel(1-3) after_blocked si_state_of st e release_def stay_def blocked_after_def request_sets)
  show "guard_timer r2 = (True, now)" "is_rpl_owner r \<and> is_revertive r \<Longrightarrow> wtr_timer r2 = (True, now)"
    using after_timers(1,2) [of now r RING_REQ_CLEAR_SF "Some p" None]
    unfolding e r2_def by (simp_all add: release_def stay_def timer_after_def start_if_def)
  show "is_sending_raps r2 \<and> rp_request (raps r2) = RAPS_REQ_NR"
    unfolding r2_def by (rule after_announce [where f = 0]) (simp add: e release_def del: g8032.simps)
qed

text \<open>Claim C10: a signal fail on a port of a ring that is not in a forced switch blocks that port,
  opens the other one and is announced; when it clears, the node becomes pending with the port
  still blocked (so that no loop closes before the other nodes have reacted), announces NR,
  ignores older messages from then on through the guard timer, and a revertive owner starts
  waiting to restore.\<close>

theorem failure_cycle:
  assumes "ring_inv r" and "state r \<noteq> RING_STATE_FORCED_SWITCH" and "local_request r \<noteq> RING_REQ_SF"
  shows "\<exists>r1 r2. ring_process_request t1 r RING_REQ_SF (Some p) None = Inr r1 \<and>
    state r1 = RING_STATE_PROTECTION \<and> (\<forall>q. blocked q r1 \<longleftrightarrow> q = p) \<and>
    is_sending_raps r1 \<and> rp_request (raps r1) = RAPS_REQ_SF \<and> local_request r1 = RING_REQ_SF \<and>
    ring_process_request t2 r1 RING_REQ_CLEAR_SF (Some p) None = Inr r2 \<and>
    state r2 = RING_STATE_PENDING \<and> (\<forall>q. blocked q r2 \<longleftrightarrow> q = p) \<and>
    is_sending_raps r2 \<and> rp_request (raps r2) = RAPS_REQ_NR \<and> local_request r2 = RING_REQ_INVALID \<and>
    guard_timer r2 = (True, t2) \<and>
    (is_rpl_owner r \<and> is_revertive r \<longrightarrow> wtr_timer r2 = (True, t2))"
proof -
  let ?r1 = "after t1 r RING_REQ_SF (Some p) None"
  have v: "valid_call RING_REQ_SF (Some p) None" by (simp add: valid_call_def request_sets)
  have req: "request_inv r" using assms(1) by (simp add: ring_inv_def)
  have "local_request r \<noteq> RING_REQ_FS" using req assms(2) unfolding request_inv_def by blast
  then have acc: "request_accepted r RING_REQ_SF"
    using request_invD(1) [OF req] assms(2,3) by (auto simp: request_accepted_def req_less request_sets)
  have rep: "\<not> repeated r RING_REQ_SF (Some p) None"
    using request_invD(3) [OF req] assms(3) by (auto simp: repeated_def request_sets)
  have s1: "state ?r1 = RING_STATE_PROTECTION" "blocked q ?r1 \<longleftrightarrow> q = p" "local_request ?r1 = RING_REQ_SF"
    "prev_request ?r1 = RING_REQ_SF" for q
    using assms(2) by (auto simp: after_sel(1-3) after_blocked table_defs act_simps blocked_after_def request_sets)
  have inv1: "ring_inv ?r1" by (rule after_step(2) [OF assms(1) v acc rep])
  have cfg: "is_rpl_owner ?r1 = is_rpl_owner r" "is_revertive ?r1 = is_revertive r"
    using after_cfg [of t1 r RING_REQ_SF "Some p" None] by (simp_all add: ring_cfg_def)
  have tx1: "is_sending_raps ?r1 \<and> rp_request (raps ?r1) = RAPS_REQ_SF"
    using after_local_switch(2) [OF acc] by blast
  show ?thesis
    using after_step(1) [OF assms(1) v acc rep, of t1] clear_sf_after [OF inv1 s1(3) refl, where now = t2 and p = p]
      s1 tx1 unfolding cfg by blast
qed

lemma failure_cycle_witness:
  "\<exists>r1 r2. ring_process_request 10 (sample_ring True) RING_REQ_SF (Some PORT0) None = Inr r1 \<and>
     ring_process_request 20 r1 RING_REQ_CLEAR_SF (Some PORT0) None = Inr r2 \<and>
     state r2 = RING_STATE_PENDING \<and> blocked PORT0 r2 \<and> wtr_timer r2 = (True, 20)"
  using failure_cycle [OF sample_inv, of True 10 PORT0 20] by (simp add: act_simps) blast

section \<open>Where the code departs\<close>

text \<open>Claim C38: while a signal fail stands, the failure of the other port is ignored, whatever the
  port, so a port that has failed stays open and nothing is announced about it; and the end of
  either failure ends the protection, although the other port may still be down.\<close>

theorem second_failure_ignored:
  assumes "reach ring_started ring_step r" and "local_request r = RING_REQ_SF"
  shows "ring_process_request now r RING_REQ_SF (Some q) None = Inr r \<and>
    (\<exists>r'. ring_process_request now r RING_REQ_CLEAR_SF (Some q) None = Inr r' \<and>
       state r' = RING_STATE_PENDING \<and> local_request r' = RING_REQ_INVALID)"
proof -
  have inv: "ring_inv r" using ring.reach_inv [OF assms(1)] .
  then have req: "request_inv r" by (simp add: ring_inv_def)
  then have st: "state r = RING_STATE_PROTECTION" using assms(2) unfolding request_inv_def by blast
  have prev: "prev_request r = RING_REQ_SF" using request_invD(2) [OF req] assms(2) by simp
  have "\<not> request_accepted r RING_REQ_SF" using assms(2) by (simp add: request_accepted_def)
  then have "ring_process_request now r RING_REQ_SF (Some q) None = Inr r"
    by (simp add: ring_process_request_eq)
  moreover have "ring_process_request now r RING_REQ_CLEAR_SF (Some q) None =
      Inr (after now r RING_REQ_CLEAR_SF (Some q) None)"
    by (rule after_step(1) [OF inv])
      (simp_all add: valid_call_def request_sets request_accepted_def assms(2) repeated_def prev)
  moreover have "state (after now r RING_REQ_CLEAR_SF (Some q) None) = RING_STATE_PENDING"
    "local_request (after now r RING_REQ_CLEAR_SF (Some q) None) = RING_REQ_INVALID"
    using st by (simp_all add: after_sel act_simps release_def request_sets)
  ultimately show ?thesis by blast
qed

definition sample_sf :: er_ring where
  "sample_sf = after 5 (sample_ring True) RING_REQ_SF (Some PORT0) None"

lemma sample_sf_reach: "reach ring_started ring_step sample_sf"
proof -
  have "ring_step (sample_ring True) (Request 5 RING_REQ_SF (Some PORT0) None) sample_sf"
    unfolding sample_sf_def
    by (rule after_step(3); simp add: sample_inv valid_call_def request_sets
        request_accepted_def act_simps req_less repeated_def)
  then show ?thesis using sample_started by (blast intro: reach_init reach_step)
qed

lemma second_failure_ignored_witness:
  "ring_process_request 9 sample_sf RING_REQ_SF (Some PORT1) None = Inr sample_sf \<and> \<not> blocked PORT1 sample_sf"
  using second_failure_ignored [OF sample_sf_reach, of 9 PORT1]
  by (simp add: sample_sf_def act_simps request_sets table_defs blocked_after_def)

text \<open>Claim C40: a manual switch ordered while the ring is protecting against a remote failure has
  no effect on ports or messages, but is retained as local request; from then on the messages
  that end the protection (NR, NR RB) and every reversion timer are refused, so the node stays
  in PROTECTION until a CLEAR or a request above MS comes.\<close>

theorem manual_switch_masks_recovery:
  assumes "ring_inv r" and "state r = RING_STATE_PROTECTION" and "local_request r = RING_REQ_INVALID"
    and "version r \<noteq> 1"
  shows "\<exists>r'. ring_process_request now r RING_REQ_MS (Some p) None = Inr r' \<and>
    state r' = RING_STATE_PROTECTION \<and> (\<forall>q. blocked q r' = blocked q r) \<and>
    is_sending_raps r' = is_sending_raps r \<and> raps r' = raps r \<and> local_request r' = RING_REQ_MS \<and>
    (\<forall>req now' port nid. req \<le> RING_REQ_MS \<longrightarrow> ring_process_request now' r' req port nid = Inr r')"
proof -
  let ?r' = "after now r RING_REQ_MS (Some p) None"
  have req: "request_inv r" using assms(1) by (simp add: ring_inv_def)
  have v: "valid_call RING_REQ_MS (Some p) None" by (simp add: valid_call_def request_sets)
  have acc: "request_accepted r RING_REQ_MS"
    using assms(3,4) by (simp add: request_accepted_def req_less)
  have rep: "\<not> repeated r RING_REQ_MS (Some p) None"
    using request_invD(3) [OF req] assms(3) by (auto simp: repeated_def request_sets)
  have e: "g8032 RING_REQ_MS (Some p) (situation_of r None) = stay (situation_of r None)"
    using assms(2) by (simp add: on_port_def act_simps)
  have st: "state ?r' = RING_STATE_PROTECTION" "blocked q ?r' = blocked q r" "local_request ?r' = RING_REQ_MS" for q
    using assms(2)
    by (simp_all add: after_sel(1-3) after_blocked e stay_def act_simps blocked_after_def request_sets
        del: g8032.simps)
  have tx: "is_sending_raps ?r' = is_sending_raps r" "raps ?r' = raps r"
    by (simp_all add: after_def e perform_def stay_def act_simps Let_def del: g8032.simps)
  have "\<not> request_accepted ?r' req" if "req \<le> RING_REQ_MS" for req
    using that by (cases req) (simp_all add: request_accepted_def st req_less)
  then have "ring_process_request now' ?r' req port nid = Inr ?r'" if "req \<le> RING_REQ_MS" for now' req port nid
    using that by (simp add: ring_process_request_eq)
  then show ?thesis using after_step(1) [OF assms(1) v acc rep, of now] st tx by blast
qed

text \<open>A ring that protects against a remote failure, with no local request.\<close>

definition sample_remote :: "ring_request \<Rightarrow> er_ring" where
  "sample_remote req = after 5 (sample_ring True) req (Some PORT0) (Some [3,3,3,3,3,3])"

lemma sample_remote_inv:
  assumes "req \<in> {RING_REQ_RAPS_SF, RING_REQ_RAPS_MS, RING_REQ_RAPS_FS}"
  shows "ring_inv (sample_remote req)" "local_request (sample_remote req) = RING_REQ_INVALID"
    "prev_request (sample_remote req) = req" "version (sample_remote req) = 2"
    "is_rpl_owner (sample_remote req)"
proof -
  show "ring_inv (sample_remote req)"
    unfolding sample_remote_def using assms
    by (intro after_step(2)) (auto simp: sample_inv valid_call_def request_sets request_accepted_def
        act_simps req_less repeated_def)
  show "local_request (sample_remote req) = RING_REQ_INVALID" "prev_request (sample_remote req) = req"
    using assms by (auto simp: sample_remote_def after_sel request_sets)
  show "version (sample_remote req) = 2" "is_rpl_owner (sample_remote req)"
    using after_cfg [of 5 "sample_ring True" req "Some PORT0" "Some [3,3,3,3,3,3]"]
    by (simp_all add: ring_cfg_def sample_remote_def sample_sel)
qed

lemma sample_remote_state:
  "state (sample_remote RING_REQ_RAPS_SF) = RING_STATE_PROTECTION"
  "state (sample_remote RING_REQ_RAPS_MS) = RING_STATE_MANUAL_SWITCH"
  by (simp_all add: sample_remote_def after_sel table_defs act_simps)

lemma manual_switch_masks_recovery_witness:
  "\<exists>r'. ring_process_request 9 (sample_remote RING_REQ_RAPS_SF) RING_REQ_MS (Some PORT0) None = Inr r' \<and>
     state r' = RING_STATE_PROTECTION \<and>
     ring_process_request 10 r' RING_REQ_RAPS_NR (Some PORT0) (Some [3,3,3,3,3,3]) = Inr r'"
  using manual_switch_masks_recovery [of "sample_remote RING_REQ_RAPS_SF" 9 PORT0]
  by (simp add: sample_remote_inv sample_remote_state req_less) fastforce

text \<open>A remote signal fail that reaches a node in MANUAL_SWITCH opens its ports and
  silences it as in every other state below PROTECTION, but the node remains in MANUAL_SWITCH
  (row 35), whereas from IDLE and PENDING (rows 07 and 63) it enters PROTECTION.\<close>

theorem remote_failure_by_state:
  assumes "ring_inv r" and "state r \<in> {RING_STATE_IDLE, RING_STATE_PENDING, RING_STATE_MANUAL_SWITCH}"
    and "length n = 6" and "prev_request r \<noteq> RING_REQ_RAPS_SF"
  shows "\<exists>r'. ring_process_request now r RING_REQ_RAPS_SF port (Some n) = Inr r' \<and>
    (\<forall>q. blocked q r' \<longleftrightarrow> blocked q r \<and> is_failed (get_port q r)) \<and> \<not> is_sending_raps r' \<and>
    local_request r' = RING_REQ_INVALID \<and>
    state r' = (if state r = RING_STATE_MANUAL_SWITCH then RING_STATE_MANUAL_SWITCH else RING_STATE_PROTECTION)"
proof -
  let ?e = "g8032 RING_REQ_RAPS_SF port (situation_of r (Some n))"
  let ?r' = "after now r RING_REQ_RAPS_SF port (Some n)"
  have v: "valid_call RING_REQ_RAPS_SF port (Some n)" using assms(3) by (simp add: valid_call_def request_sets)
  have "request_inv r" using assms(1) by (simp add: ring_inv_def)
  then have "local_request r \<in> {RING_REQ_INVALID, RING_REQ_MS, RING_REQ_SF, RING_REQ_FS}"
    "local_request r = RING_REQ_FS \<Longrightarrow> state r = RING_STATE_FORCED_SWITCH"
    "local_request r = RING_REQ_SF \<Longrightarrow> state r = RING_STATE_PROTECTION"
    unfolding request_inv_def by blast+
  then have acc: "request_accepted r RING_REQ_RAPS_SF"
    using assms(2) by (auto simp: request_accepted_def req_less)
  have rep: "\<not> repeated r RING_REQ_RAPS_SF port (Some n)" using assms(4) by (simp add: repeated_def)
  have e: "ef_ports ?e = OpenNonfailed" "ef_tx ?e = Silence"
    "ef_next ?e = (if state r = RING_STATE_MANUAL_SWITCH then RING_STATE_MANUAL_SWITCH else RING_STATE_PROTECTION)"
    using assms(2) by (auto simp: table_defs act_simps)
  have "blocked q ?r' \<longleftrightarrow> blocked q r \<and> is_failed (get_port q r)" for q
    unfolding after_blocked e(1) by (simp add: blocked_after_def)
  moreover have "\<not> is_sending_raps ?r'"
    using after_sel(6) [of now r RING_REQ_RAPS_SF port "Some n"] unfolding e(2) by (simp add: tx_after_def)
  moreover have "local_request ?r' = RING_REQ_INVALID" "state ?r' = ef_next ?e"
    by (simp_all add: after_sel(1,2) request_sets)
  ultimately show ?thesis
    using after_step(1) [OF assms(1) v acc rep, of now] e(3) by (intro exI [of _ ?r']) simp
qed

lemma remote_failure_by_state_witness:
  "\<exists>r'. ring_process_request 9 (sample_remote RING_REQ_RAPS_MS) RING_REQ_RAPS_SF (Some PORT0)
     (Some [4,4,4,4,4,4]) = Inr r' \<and> state r' = RING_STATE_MANUAL_SWITCH \<and> \<not> is_sending_raps r'"
  using remote_failure_by_state [of "sample_remote RING_REQ_RAPS_MS" "[4,4,4,4,4,4]" 9 "Some PORT0"]
  by (auto simp: sample_remote_inv sample_remote_state)

text \<open>When the RPL owner has cleared its own forced or manual switch, the ring is pending
  and the operator's next CLEAR, which the filter allows in order to revert at once, is taken
  for a repetition and dropped: nothing changes, and the ring stays pending.\<close>

theorem second_clear_dropped:
  assumes "ring_inv r" and "is_rpl_owner r"
    and "local_request r = RING_REQ_FS \<or> local_request r = RING_REQ_MS \<and> state r = RING_STATE_MANUAL_SWITCH"
  shows "\<exists>r'. ring_process_request now r RING_REQ_CLEAR None None = Inr r' \<and>
    state r' = RING_STATE_PENDING \<and> request_accepted r' RING_REQ_CLEAR \<and>
    ring_process_request now' r' RING_REQ_CLEAR None None = Inr r'"
proof -
  let ?r' = "after now r RING_REQ_CLEAR None None"
  have v: "valid_call RING_REQ_CLEAR None None" by (simp add: valid_call_def request_sets)
  have req: "request_inv r" using assms(1) by (simp add: ring_inv_def)
  have "state r \<in> {RING_STATE_MANUAL_SWITCH, RING_STATE_FORCED_SWITCH}"
    using req assms(3) unfolding request_inv_def by blast
  then have st: "state ?r' = RING_STATE_PENDING"
    by (auto simp: after_sel(1) act_simps release_def)
  have acc: "request_accepted r RING_REQ_CLEAR"
    using assms(3) by (auto simp: request_accepted_def clear_denied_def req_less)
  have "prev_request r = local_request r" using request_invD(2) [OF req] assms(3) by auto
  then have rep: "\<not> repeated r RING_REQ_CLEAR None None" using assms(3) by (auto simp: repeated_def)
  have own: "is_rpl_owner ?r'"
    using after_cfg [of now r RING_REQ_CLEAR None None] assms(2) by (simp add: ring_cfg_def)
  have loc: "local_request ?r' = RING_REQ_INVALID" "prev_request ?r' = RING_REQ_CLEAR"
    by (simp_all add: after_sel request_sets)
  have acc': "request_accepted ?r' RING_REQ_CLEAR"
    by (simp add: request_accepted_def clear_denied_def st own loc req_less)
  moreover have "repeated ?r' RING_REQ_CLEAR None None" by (simp add: repeated_def loc request_sets)
  ultimately have "ring_process_request now' ?r' RING_REQ_CLEAR None None = Inr ?r'"
    using ring_process_request_refines [OF after_step(2) [OF assms(1) v acc rep] v, of now'] by simp
  then show ?thesis using after_step(1) [OF assms(1) v acc rep, of now] st acc' by blast
qed

lemma second_clear_dropped_witness:
  "\<exists>r'. ring_process_request 8 sample_fs RING_REQ_CLEAR None None = Inr r' \<and>
     ring_process_request 9 r' RING_REQ_CLEAR None None = Inr r' \<and> state r' = RING_STATE_PENDING"
proof -
  have "is_rpl_owner sample_fs"
    using after_cfg [of 5 "sample_ring True" RING_REQ_FS "Some PORT0" None]
    by (simp add: ring_cfg_def sample_fs_def sample_sel(5))
  then show ?thesis
    using second_clear_dropped [OF sample_fs_step(2), of 8 9] by (auto simp: sample_fs_sel)
qed

text \<open>Claim C39: repetitions of NR,RB never bring a node back to IDLE once the first of them found it in
  PROTECTION. A ring in PROTECTION without a local request, whose last request was another one,
  becomes pending when it hears NR,RB of some node (row 28); each further NR,RB of that node is
  taken for a duplicate, so that after any number of them, with timers, link states, burst
  counter and configuration changing in between, the ring is still pending, and its ports and its
  own announcement are as they were in PROTECTION.\<close>

theorem missed_reversion:
  assumes "ring_inv r" and "state r = RING_STATE_PROTECTION" and "local_request r = RING_REQ_INVALID"
    and "prev_request r \<noteq> RING_REQ_RAPS_NR_RB"
    and "run ring_step r (Request now RING_REQ_RAPS_NR_RB p (Some n) # evs) r'"
    and "\<forall>ev\<in>set evs. \<forall>t req q nid. ev = Request t req q nid \<longrightarrow> req = RING_REQ_RAPS_NR_RB \<and> nid = Some n"
  shows "state r' = RING_STATE_PENDING \<and> local_request r' = RING_REQ_INVALID \<and>
    (\<forall>q. blocked q r' = blocked q r) \<and> is_sending_raps r' = is_sending_raps r \<and> raps_frame r' = raps_frame r"
proof -
  let ?a = "after now r RING_REQ_RAPS_NR_RB p (Some n)"
  define waits where "waits t \<longleftrightarrow> ring_inv t \<and> state t = RING_STATE_PENDING \<and> local_request t = RING_REQ_INVALID \<and>
      prev_request t = RING_REQ_RAPS_NR_RB \<and> prev_request_remote_node_id t = n \<and>
      (\<forall>q. blocked q t = blocked q r) \<and> is_sending_raps t = is_sending_raps r \<and> raps_frame t = raps_frame r" for t
  have kept: "prev_request (configure v vid g w b rv act s) = prev_request s"
    "prev_request_remote_node_id (configure v vid g w b rv act s) = prev_request_remote_node_id s" for v vid g w b rv act s
    by (simp_all add: configure_def)
  have stays: "waits t" if "ring_step s ev t" "waits s"
    "\<forall>now req q nid. ev = Request now req q nid \<longrightarrow> req = RING_REQ_RAPS_NR_RB \<and> nid = Some n" for s ev t
    using that(1)
  proof cases
    case (step_request req port nid now)
    then have "repeated s req port nid"
      using that(2,3) by (auto simp: waits_def repeated_def request_sets)
    then have "t = s"
      using step_request that(2) ring_process_request_refines [of s req port nid now] by (simp add: waits_def)
    then show ?thesis using that(2) by simp
  qed (use that(2) ring_step_inv [OF that(1)] in \<open>simp_all add: waits_def act_simps kept\<close>)
  from assms(5) obtain t where t: "ring_step r (Request now RING_REQ_RAPS_NR_RB p (Some n)) t" "run ring_step t evs r'"
    by cases
  from t(1) have v: "valid_call RING_REQ_RAPS_NR_RB p (Some n)"
    and p: "ring_process_request now r RING_REQ_RAPS_NR_RB p (Some n) = Inr t"
    by (auto elim: ring_step_RequestE)
  have "request_accepted r RING_REQ_RAPS_NR_RB" "\<not> repeated r RING_REQ_RAPS_NR_RB p (Some n)"
    using assms(3,4) by (simp_all add: request_accepted_def repeated_def req_less)
  from after_step(1,2) [OF assms(1) v this, of now] p have ta: "t = ?a" "ring_inv t" by simp_all
  have e: "g8032 RING_REQ_RAPS_NR_RB p (situation_of r (Some n)) =
      (stay (situation_of r (Some n)))\<lparr>ef_next := RING_STATE_PENDING\<rparr>"
    using assms(2) by (simp add: act_simps)
  have "state ?a = RING_STATE_PENDING" "blocked q ?a = blocked q r" "local_request ?a = RING_REQ_INVALID"
    "prev_request ?a = RING_REQ_RAPS_NR_RB" for q
    by (simp_all add: after_sel(1-3) after_blocked e stay_def act_simps blocked_after_def request_sets del: g8032.simps)
  moreover have "is_sending_raps ?a = is_sending_raps r" "raps_frame ?a = raps_frame r" "prev_request_remote_node_id ?a = n"
    using v by (simp_all add: after_def e perform_def stay_def act_simps Let_def fsm_save_def valid_call_def del: g8032.simps)
  ultimately have "waits t" using ta by (simp add: waits_def)
  with t(2) assms(6) have "waits r'"
  proof (induction rule: run.induct)
    case (run_cons s ev u es w)
    then have "waits u" by (intro stays [of s ev u]) auto
    with run_cons show ?case by simp
  qed simp
  then show ?thesis by (simp add: waits_def)
qed

lemma missed_reversion_witness:
  "\<exists>r'. run ring_step (sample_remote RING_REQ_RAPS_SF)
     [Request 9 RING_REQ_RAPS_NR_RB (Some PORT0) (Some [4,4,4,4,4,4]), GuardExpired,
      Request 5009 RING_REQ_RAPS_NR_RB (Some PORT1) (Some [4,4,4,4,4,4])] r' \<and> state r' = RING_STATE_PENDING"
proof -
  let ?r = "sample_remote RING_REQ_RAPS_SF" and ?n = "[4,4,4,4,4,4] :: bytes"
  note sample = sample_remote_inv [of RING_REQ_RAPS_SF, simplified] sample_remote_state(1)
  have v: "valid_call RING_REQ_RAPS_NR_RB q (Some ?n)" for q by (simp add: valid_call_def request_sets)
  have one: "\<exists>t'. ring_step t (Request now RING_REQ_RAPS_NR_RB q (Some ?n)) t' \<and> ring_inv t'" if "ring_inv t" for t now q
    using ring_process_request_refines [OF that v, of now q] ring_process_request_inv [OF that v] v step_request by metis
  obtain s where s: "ring_step ?r (Request 9 RING_REQ_RAPS_NR_RB (Some PORT0) (Some ?n)) s" "ring_inv s"
    using one [OF sample(1)] by blast
  have "ring_inv (s\<lparr>guard_timer_active := False\<rparr>)" by (rule ring_step_inv [OF step_guard s(2)])
  then obtain t where t: "ring_step (s\<lparr>guard_timer_active := False\<rparr>) (Request 5009 RING_REQ_RAPS_NR_RB (Some PORT1) (Some ?n)) t"
    using one by blast
  have run: "run ring_step ?r [Request 9 RING_REQ_RAPS_NR_RB (Some PORT0) (Some ?n), GuardExpired,
      Request 5009 RING_REQ_RAPS_NR_RB (Some PORT1) (Some ?n)] t"
    by (rule run_cons, rule s(1), rule run_cons, rule step_guard, rule run_one, rule t)
  from missed_reversion [OF sample(1) sample(6) sample(2) _ run] sample(3) run show ?thesis by auto
qed

end
