(* ===== verification/Frames.thy ===== *)
theory Frames
  imports Protection
begin

text \<open>
  Frames: \<^verbatim>\<open>process_raps_frame\<close> and \<^verbatim>\<open>er_forward_lookup\<close> of \<^verbatim>\<open>er_ring.c\<close> (lines 1103--1149 and
  1181--1247), \<^verbatim>\<open>er_lookup_ring\<close>, \<^verbatim>\<open>er_raps_create\<close> and \<^verbatim>\<open>er_raps_destroy\<close>, and the bridge callback
  \<^verbatim>\<open>er_netmap_on_recv\<close> of \<^verbatim>\<open>er_netmap.c\<close> (lines 183--219), with what they do to the ring and to
  the kernel's memory.

  \<open>data\<close> is the object \<^verbatim>\<open>ft_buf\<close> points at and \<open>len\<close> the \<^verbatim>\<open>ft_len\<close> that netmap passes; the
  handler runs at one value \<open>now\<close> of \<^verbatim>\<open>ticks\<close>.
\<close>

section \<open>Operations\<close>

text \<open>A created structure is its address and its contents.\<close>

definition er_raps_create :: "'s kapi \<Rightarrow> 's \<Rightarrow> (nat \<times> er_raps) option \<times> 's" where
  "er_raps_create api s =
     (case er_malloc api OBJ_RAPS s of
        (None, s') \<Rightarrow> (None, s')
      | (Some a, s') \<Rightarrow> (Some (a, er_raps_zero), s'))"

definition er_raps_destroy :: "'s kapi \<Rightarrow> nat \<Rightarrow> 's \<Rightarrow> 's" where
  "er_raps_destroy api addr s = er_free api addr s"

text \<open>The \<^verbatim>\<open>switch\<close> of \<^verbatim>\<open>process_raps_frame\<close>; \<open>None\<close> is its default branch.\<close>

definition raps_ring_request :: "er_raps \<Rightarrow> ring_request option" where
  "raps_ring_request f = (case rp_request f of
     RAPS_REQ_NR \<Rightarrow> Some (if rp_flags f AND RAPS_FLAG_RB \<noteq> 0 then RING_REQ_RAPS_NR_RB else RING_REQ_RAPS_NR)
   | RAPS_REQ_MS \<Rightarrow> Some RING_REQ_RAPS_MS
   | RAPS_REQ_SF \<Rightarrow> Some RING_REQ_RAPS_SF
   | RAPS_REQ_FS \<Rightarrow> Some RING_REQ_RAPS_FS
   | _ \<Rightarrow> None)"

text \<open>
  After the guard timer. The two early returns leave the allocated structure behind; the log
  line before the switch dereferences \<open>origin\<close>.
\<close>

definition process_raps_body ::
  "'s kapi \<Rightarrow> i32 \<Rightarrow> er_ring \<Rightarrow> bytes \<Rightarrow> int \<Rightarrow> port_ptr \<Rightarrow> 's \<Rightarrow> fault + (er_ring \<times> 's)" where
  "process_raps_body api now r data len origin s =
     (case er_raps_create api s of (created, s1) \<Rightarrow>
      bind_res (er_raps_parse (map_option snd created) data len) (\<lambda>(ok, parsed).
      if \<not> ok then Inr (r, s1)
      else case (created, parsed, origin) of
        (Some (addr, _), Some f, Some _) \<Rightarrow>
          bind_res (node_bytes (node_id r) data (rp_node_id f)) (\<lambda>nid.
          case raps_ring_request f of
            None \<Rightarrow> Inr (r, s1)
          | Some request \<Rightarrow>
              bind_res (ring_process_request now r request origin (Some nid)) (\<lambda>r'.
              Inr (r', er_raps_destroy api addr s1)))
      | _ \<Rightarrow> Inl NullPtr))"

definition process_raps_frame ::
  "'s kapi \<Rightarrow> i32 \<Rightarrow> er_ring \<Rightarrow> bytes \<Rightarrow> int \<Rightarrow> port_ptr \<Rightarrow> 's \<Rightarrow> fault + (er_ring \<times> 's)" where
  "process_raps_frame api now r data len origin s =
     (if guard_timer_active r then
        (if TICK_DIFF_MSEC (hz api) now (guard_timer_active_since r) < 500 then Inr (r, s)
         else process_raps_body api now (r\<lparr>guard_timer_active := False\<rparr>) data len origin s)
      else process_raps_body api now r data len origin s)"

text \<open>
  The debugging dump reads the first 20 bytes of the frame. The function returns \<^verbatim>\<open>bool\<close>: the
  index of the other port is converted, so index 0 is \<open>False\<close> and every other index is \<open>True\<close>.
\<close>

definition er_forward_lookup ::
  "'s kapi \<Rightarrow> i32 \<Rightarrow> er_ring \<Rightarrow> port_ptr \<Rightarrow> bytes \<Rightarrow> int \<Rightarrow> 's \<Rightarrow> fault + (bool \<times> er_ring \<times> 's)" where
  "er_forward_lookup api now ring recv_port data len s =
     (if er_is_keepalive_frame data len then Inr (False, ring, s)
      else bind_res (er_is_raps_frame data len) (\<lambda>is_raps.
      if is_raps then
        (case recv_port of
           None \<Rightarrow> Inr (False, ring, s)
         | Some p \<Rightarrow>
             bind_res (load_n data 0 20) (\<lambda>dbg.
             if er_is_valid_raps_frame data len then
               bind_res (er_is_local_raps_frame (node_id ring) data len) (\<lambda>local.
               if local then Inr (False, ring, s)
               else bind_res (process_raps_frame api now ring data len recv_port s) (\<lambda>(ring', s').
                 case er_ring_other_port recv_port of
                   Some other \<Rightarrow>
                     if \<not> is_blocked (get_port p ring') \<and> \<not> is_blocked (get_port other ring')
                     then Inr (idx (get_port other ring') \<noteq> 0, ring', s')
                     else Inr (False, ring', s')
                 | None \<Rightarrow> Inr (False, ring', s')))
             else Inr (False, ring, s)))
      else (case recv_port of
              None \<Rightarrow> Inr (True, ring, s)
            | Some p \<Rightarrow> if is_blocked (get_port p ring) then Inr (False, ring, s) else Inr (True, ring, s))))"

text \<open>\<open>er_global\<close> is the single ring of the module.\<close>

definition er_lookup_ring :: "er_ring option \<Rightarrow> int \<Rightarrow> er_ring option" where
  "er_lookup_ring er_global i = er_global"

definition er_netmap_on_recv ::
  "'s kapi \<Rightarrow> i32 \<Rightarrow> er_ring option \<Rightarrow> bytes \<Rightarrow> int \<Rightarrow> u8 \<Rightarrow> int \<Rightarrow> 's
     \<Rightarrow> fault + (int \<times> er_ring option \<times> 's)" where
  "er_netmap_on_recv api now er_global ft_buf ft_len ring_nr bdg_port s =
     (case er_lookup_ring er_global (uint ring_nr) of
        None \<Rightarrow> Inr (NM_BDG_NOPORT api, er_global, s)
      | Some ring \<Rightarrow>
          if \<not> active ring then Inr (NM_BDG_NOPORT api, er_global, s)
          else
            let recv_port = (if idx (port0 ring) = bdg_port then Some PORT0
                             else if idx (port1 ring) = bdg_port then Some PORT1 else None)
            in bind_res (er_forward_lookup api now ring recv_port ft_buf ft_len s) (\<lambda>(fwd, ring', s').
               if \<not> fwd then Inr (NM_BDG_NOPORT api, Some ring', s')
               else (case netmap_bdg_learning api ft_buf ring_nr bdg_port s' of
                       (dst, s'') \<Rightarrow> Inr (dst, Some ring', s''))))"

section \<open>Closed forms\<close>

text \<open>What a frame asks the ring to do: the request and the sender.\<close>

definition frame_request :: "bytes \<Rightarrow> ring_request" where
  "frame_request data = (case raps_ring_request (raps_fields data) of Some q \<Rightarrow> q | None \<Rightarrow> RING_REQ_INVALID)"

definition frame_sender :: "bytes \<Rightarrow> bytes" where
  "frame_sender data = take 6 (drop (cfm_off data + 6) data)"

lemma raps_fields_request:
  assumes "raps_accept data"
  shows "raps_ring_request (raps_fields data) = Some (frame_request data)"
    and "frame_request data \<in> remote_requests"
proof -
  from assms obtain q where q: "raps_known (drop_bit 4 (data ! (cfm_off data + 4))) = Some q"
    by (auto simp: raps_accept_def)
  then have "q \<noteq> RAPS_REQ_EVENT" by (simp add: raps_known_Some)
  moreover have "rp_request (raps_fields data) = q"
    using q by (simp add: raps_fields_def)
  ultimately obtain x where "raps_ring_request (raps_fields data) = Some x" "x \<in> remote_requests"
    by (cases q) (auto simp: raps_ring_request_def request_sets)
  then show "raps_ring_request (raps_fields data) = Some (frame_request data)"
    "frame_request data \<in> remote_requests"
    by (simp_all add: frame_request_def)
qed

lemma frame_sender_length:
  "55 \<le> length data \<Longrightarrow> length (frame_sender data) = 6"
  using cfm_off_le [of data] by (simp add: frame_sender_def)

lemma node_bytes_fields:
  "55 \<le> length data \<Longrightarrow> node_bytes own data (rp_node_id (raps_fields data)) = Inr (frame_sender data)"
  using cfm_off_le [of data] by (simp add: node_bytes_def raps_fields_def load_n_ok frame_sender_def)

lemma process_raps_body_eq:
  assumes "55 \<le> len" and "len \<le> int (length data)" and "k_malloc api OBJ_RAPS s = (m, s1)"
  shows "process_raps_body api now r data len (Some p) s =
    (if \<not> raps_accept data then Inr (r, s1)
     else case m of None \<Rightarrow> Inl NullPtr
       | Some a \<Rightarrow> bind_res (ring_process_request now r (frame_request data) (Some p) (Some (frame_sender data)))
           (\<lambda>r'. Inr (r', k_free api a s1)))"
proof -
  have len: "55 \<le> length data" using assms by linarith
  show ?thesis
    using assms(3) raps_fields_request(1) [of data] node_bytes_fields [OF len]
    by (cases m) (simp_all add: process_raps_body_def er_raps_create_def er_malloc_def er_free_def
        er_raps_destroy_def er_raps_parse_eq [OF assms(1,2)])
qed

lemma er_forward_lookup_data:
  assumes "er_is_raps_frame data len = Inr False"
  shows "er_forward_lookup api now r port data len s =
    Inr (case port of None \<Rightarrow> True | Some p \<Rightarrow> \<not> blocked p r, r, s)"
  using assms
  by (simp add: er_forward_lookup_def er_is_keepalive_frame_def blocked_def split: option.split)

lemma er_forward_lookup_raps:
  assumes "len \<le> int (length data)" and "length (node_id r) = 6" and "er_is_raps_frame data len = Inr True"
  shows "er_forward_lookup api now r (Some p) data len s =
    (if frame_sender data = node_id r then Inr (False, r, s)
     else bind_res (process_raps_frame api now r data len (Some p) s) (\<lambda>(r', s').
       Inr (\<not> blocked p r' \<and> \<not> blocked (other_port p) r' \<and> idx (get_port (other_port p) r') \<noteq> 0, r', s')))"
proof -
  have len: "55 \<le> len" using assms(1,3) er_is_raps_frame_eq [OF assms(1)] by simp
  then have "load_n data 0 20 = Inr (take 20 data)" using assms(1) by (simp add: load_n_ok)
  then show ?thesis
    using assms(3) er_is_local_raps_frame_eq [OF assms(1,2)] len
    by (cases "process_raps_frame api now r data len (Some p) s")
      (auto simp: er_forward_lookup_def er_is_keepalive_frame_def er_is_valid_raps_frame_def
        er_ring_other_port_Some frame_sender_def blocked_def)
qed

section \<open>The guard timer\<close>

text \<open>Claim C33: a frame that arrives less than 500 ms after the guard timer was started changes
  neither the ring nor the kernel's memory; the first one that arrives later, up to the point
  where the tick arithmetic overflows, is handled as if the timer had been stopped.\<close>

theorem guard_timer_window:
  assumes "guard_timer_active r" and "now - guard_timer_active_since r = of_nat ticks"
    and "0 < sint (hz api)" and "ticks * 1000 < 2 ^ 31"
  shows "process_raps_frame api now r data len origin s =
    (if int (ticks * 1000) div sint (hz api) < 500 then Inr (r, s)
     else process_raps_frame api now (r\<lparr>guard_timer_active := False\<rparr>) data len origin s)"
  using assms TICK_DIFF_MSEC_small [OF assms(2,4,3)] by (simp add: process_raps_frame_def)

lemma guard_timer_window_witness:
  "process_raps_frame sample_api 499 ((sample_ring True)\<lparr>guard_timer_active := True, guard_timer_active_since := 0\<rparr>)
     [] 0 None sample_kstate =
   Inr ((sample_ring True)\<lparr>guard_timer_active := True, guard_timer_active_since := 0\<rparr>, sample_kstate)"
  using guard_timer_window [of "(sample_ring True)\<lparr>guard_timer_active := True, guard_timer_active_since := 0\<rparr>"
      499 499 sample_api "[]" 0 None sample_kstate]
  by (simp add: sample_api_def)

text \<open>Claim C37: the tick arithmetic is in 32 bits, and the timer is only noticed to have expired when
  a frame arrives. At 1000 ticks per second, a guard timer that was started between 2147484 and
  4294967 ticks ago (from about 36 minutes on, for as long again) counts as running: the frame
  is dropped as if it had arrived within the window.\<close>

theorem guard_timer_wraps:
  assumes "guard_timer_active r" and "now - guard_timer_active_since r = of_nat ticks"
    and "hz api = 1000" and "2147484 \<le> ticks" and "ticks \<le> 4294967"
  shows "process_raps_frame api now r data len origin s = Inr (r, s)"
proof -
  have "(now - guard_timer_active_since r) * 1000 = (of_nat (ticks * 1000) :: i32)"
    using assms(2) by simp
  moreover have "sint (of_nat (ticks * 1000) :: i32) < 0"
  proof -
    let ?k = "int (ticks * 1000) - 2 ^ 32"
    have "(of_nat (ticks * 1000) :: i32) = word_of_int ?k" by simp
    then have "sint (of_nat (ticks * 1000) :: i32) = signed_take_bit 31 ?k"
      by (simp only: signed_of_int) simp
    also have "\<dots> = ?k" using assms(4,5) by (intro signed_take_bit_int_eq_self) auto
    finally show ?thesis using assms(5) by simp
  qed
  ultimately have neg: "sint ((now - guard_timer_active_since r) * 1000) < 0" by simp
  have "TICK_DIFF_MSEC (hz api) now (guard_timer_active_since r) \<le> 0"
    using neg by (simp add: TICK_DIFF_MSEC_def assms(3) signed_divide_int_def sgn_if)
  then show ?thesis using assms(1) by (simp add: process_raps_frame_def)
qed

lemma guard_timer_wraps_witness:
  "process_raps_frame sample_api 2200000 ((sample_ring True)\<lparr>guard_timer_active := True, guard_timer_active_since := 0\<rparr>)
     [] 0 None sample_kstate =
   Inr ((sample_ring True)\<lparr>guard_timer_active := True, guard_timer_active_since := 0\<rparr>, sample_kstate)"
  by (rule guard_timer_wraps [where ticks = 2200000]) (simp_all add: sample_api_def)

section \<open>Memory\<close>

text \<open>Claim C36: a frame that is long enough but does not parse costs the module one structure: it
  is allocated before the frame is parsed and never freed, and the ring does not change. A
  frame that parses leaves no allocation behind: what it allocates it frees.\<close>

theorem frame_memory:
  assumes "ring_inv r" and "\<not> guard_timer_active r" and "55 \<le> len" and "len \<le> int (length data)"
    and "k_malloc api OBJ_RAPS s = (Some a, s1)"
  shows "\<exists>r'. process_raps_frame api now r data len (Some p) s =
      Inr (r', if raps_accept data then k_free api a s1 else s1) \<and>
    (\<not> raps_accept data \<longrightarrow> r' = r)"
proof (cases "raps_accept data")
  case True
  have "length (frame_sender data) = 6" using assms(3,4) by (intro frame_sender_length) linarith
  then have "valid_call (frame_request data) (Some p) (Some (frame_sender data))"
    by (simp add: valid_call_def)
  from ring_process_request_refines [OF assms(1) this, of now] True show ?thesis
    using process_raps_body_eq [OF assms(3-5)] assms(2) by (simp add: process_raps_frame_def)
next
  case False
  then show ?thesis
    using process_raps_body_eq [OF assms(3-5)] assms(2) by (simp add: process_raps_frame_def)
qed

definition bad_frame :: bytes where "bad_frame = RAPS_DST @ replicate 50 0"

lemma bad_frame: "length bad_frame = 55" "\<not> raps_accept bad_frame"
  by (simp_all add: bad_frame_def RAPS_DST_def raps_accept_def cfm_off_def)

lemma sample_ring_guard: "\<not> guard_timer_active (sample_ring owner)"
proof -
  have "guard_timer (sample_ring owner) = timer_after 0 Stop
      (guard_timer (fsm_save RING_REQ_INVALID None None (sample_fresh owner)))"
    using perform_timers(1) [of 0 "start_effect (situation_of (sample_fresh owner) None)"]
    by (simp add: sample_ring_def started_def start_effect_def)
  then show ?thesis by (simp add: timer_after_def)
qed

lemma sample_remote_guard:
  "\<not> guard_timer_active (sample_remote RING_REQ_RAPS_SF)" "\<not> guard_timer_active (sample_remote RING_REQ_RAPS_FS)"
  using after_timers(1) [of 5 "sample_ring True" RING_REQ_RAPS_SF "Some PORT0" "Some [3,3,3,3,3,3]"]
    after_timers(1) [of 5 "sample_ring True" RING_REQ_RAPS_FS "Some PORT0" "Some [3,3,3,3,3,3]"]
    sample_ring_guard
  by (simp_all add: sample_remote_def table_defs timer_after_def si_state_of sample_sel(1)
      del: after_timers split: if_split_asm)

lemma frame_memory_witness:
  "process_raps_frame sample_api 9 (sample_remote RING_REQ_RAPS_SF) bad_frame 55 (Some PORT0) sample_kstate =
     Inr (sample_remote RING_REQ_RAPS_SF, sample_kstate\<lparr>ks_next := 2, ks_live := [(1, OBJ_RAPS)], ks_budget := 99\<rparr>)"
  using frame_memory [of "sample_remote RING_REQ_RAPS_SF" 55 bad_frame sample_api sample_kstate 1
      "sample_kstate\<lparr>ks_next := 2, ks_live := [(1, OBJ_RAPS)], ks_budget := 99\<rparr>" 9 PORT0]
  by (simp add: sample_remote_inv sample_remote_guard bad_frame) (simp add: sample_api_def sample_kstate_def)

text \<open>When the kernel has no memory left, the module does not drop a well-formed frame but
  hands the NULL structure to the parser, which dereferences it.\<close>

theorem frame_without_memory_faults:
  assumes "\<not> guard_timer_active r" and "55 \<le> len" and "len \<le> int (length data)"
    and "k_malloc api OBJ_RAPS s = (None, s1)"
  shows "process_raps_frame api now r data len (Some p) s =
    (if raps_accept data then Inl NullPtr else Inr (r, s1))"
  using process_raps_body_eq [OF assms(2-4)] assms(1) by (simp add: process_raps_frame_def)

lemma frame_without_memory_faults_witness:
  "process_raps_frame sample_api 9 ((sample_ring True)\<lparr>guard_timer_active := False\<rparr>)
     (raps_frame_of sample_raps [3,3,3,3,3,3]) 55 (Some PORT0) (sample_kstate\<lparr>ks_budget := 0\<rparr>) = Inl NullPtr"
proof -
  have "raps_sendable sample_raps" by (simp add: sample_raps_def raps_sendable_def er_raps_zero_def)
  then have "raps_accept (raps_frame_of sample_raps [3,3,3,3,3,3])"
    using raps_bytes_accept [of "[3,3,3,3,3,3]" sample_raps "[]"] by (simp add: raps_frame_of_eq)
  then show ?thesis
    using frame_without_memory_faults [of "(sample_ring True)\<lparr>guard_timer_active := False\<rparr>" 55
        "raps_frame_of sample_raps [3,3,3,3,3,3]" sample_api "sample_kstate\<lparr>ks_budget := 0\<rparr>"
        "sample_kstate\<lparr>ks_budget := 0\<rparr>" 9 PORT0]
    by (simp add: raps_frame_of_eq) (simp add: sample_api_def)
qed

section \<open>What the bridge forwards\<close>

text \<open>Claim C31: a frame that is not R-APS never changes the ring or the kernel's memory, and is
  forwarded unless it came in on a ring port that is blocked. A port of the ring that is blocked
  therefore passes no traffic in, and frames from other ports of the bridge always pass.\<close>

theorem data_frames:
  assumes "len \<le> int (length data)" and "\<not> (55 \<le> len \<and> take 5 data = RAPS_DST)"
  shows "er_forward_lookup api now r port data len s =
    Inr (case port of None \<Rightarrow> True | Some p \<Rightarrow> \<not> is_blocked (get_port p r), r, s)"
  using er_forward_lookup_data [of data len api now r port s] er_is_raps_frame_eq [OF assms(1)] assms(2)
  by (simp add: blocked_def split: option.split)

lemma data_frames_witness:
  "er_forward_lookup sample_api 9 (sample_ring True) (Some PORT1) (replicate 60 0) 60 sample_kstate =
     Inr (False, sample_ring True, sample_kstate)"
  using data_frames [of 60 "replicate 60 0" sample_api 9 "sample_ring True" "Some PORT1" sample_kstate]
    sample_sel(10) [of PORT1 True]
  by (simp add: RAPS_DST_def blocked_def eval_nat_numeral)

text \<open>Events a frame can cause: the guard timer is found expired, or a request of another node.\<close>

definition frame_event :: "ring_event \<Rightarrow> bool" where
  "frame_event ev = (case ev of Request now req port nid \<Rightarrow> req \<in> remote_requests \<and> port \<noteq> None
     | GuardExpired \<Rightarrow> True | _ \<Rightarrow> False)"

lemma process_raps_run:
  assumes "ring_inv r" and "55 \<le> len" and "len \<le> int (length data)" and "k_malloc api OBJ_RAPS s = (Some a, s1)"
  shows "\<exists>r' s' evs. process_raps_frame api now r data len (Some p) s = Inr (r', s') \<and>
    run ring_step r evs r' \<and> (\<forall>ev\<in>set evs. frame_event ev)"
proof -
  have body: "\<exists>t s' evs. process_raps_body api now r data len (Some p) s = Inr (t, s') \<and>
    run ring_step r evs t \<and> (\<forall>ev\<in>set evs. frame_event ev)" if inv: "ring_inv r" for r
  proof (cases "raps_accept data")
    case True
    let ?q = "frame_request data" and ?n = "Some (frame_sender data)"
    have "length (frame_sender data) = 6" using assms(2,3) by (intro frame_sender_length) linarith
    then have v: "valid_call ?q (Some p) ?n" by (simp add: valid_call_def)
    obtain t where t: "ring_process_request now r ?q (Some p) ?n = Inr t"
      using ring_process_request_refines [OF inv v, of now] by blast
    have "run ring_step r [Request now ?q (Some p) ?n] t"
      by (rule run_one, rule step_request [OF v t])
    moreover have "frame_event (Request now ?q (Some p) ?n)"
      using raps_fields_request(2) [OF True] by (simp add: frame_event_def)
    ultimately show ?thesis
      using process_raps_body_eq [OF assms(2-4), of now r p] True t by auto
  next
    case False
    then show ?thesis using process_raps_body_eq [OF assms(2-4), of now r p] run_nil by fastforce
  qed
  show ?thesis
  proof (cases "guard_timer_active r")
    case True
    let ?r = "r\<lparr>guard_timer_active := False\<rparr>"
    obtain t s' evs where t: "process_raps_body api now ?r data len (Some p) s = Inr (t, s')"
      "run ring_step ?r evs t" "\<forall>ev\<in>set evs. frame_event ev"
      using body [of ?r] assms(1) by (auto simp: ring_inv_update)
    have "run ring_step r (GuardExpired # evs) t" by (rule run_cons [OF step_guard t(2)])
    moreover have "frame_event GuardExpired" by (simp add: frame_event_def)
    ultimately show ?thesis
      using t True run_nil [of ring_step r]
      by (cases "TICK_DIFF_MSEC (hz api) now (guard_timer_active_since r) < 500")
        (force simp: process_raps_frame_def)+
  next
    case False
    then show ?thesis using body [OF assms(1)] by (simp add: process_raps_frame_def)
  qed
qed

lemma er_forward_lookup_run:
  assumes "ring_inv r" and "len \<le> int (length data)" and "k_malloc api OBJ_RAPS s = (Some a, s1)"
  shows "\<exists>b r' s' evs. er_forward_lookup api now r port data len s = Inr (b, r', s') \<and>
    run ring_step r evs r' \<and> (\<forall>ev\<in>set evs. frame_event ev)"
proof (cases "\<exists>p. port = Some p \<and> er_is_raps_frame data len = Inr True")
  case True
  then obtain p where p: "port = Some p" "er_is_raps_frame data len = Inr True" by blast
  then have len: "55 \<le> len" using er_is_raps_frame_eq [OF assms(2)] by simp
  have nid: "length (node_id r) = 6" using assms(1) by (simp add: ring_inv_def ring_ok_def)
  obtain r' s' evs where "process_raps_frame api now r data len (Some p) s = Inr (r', s')"
    "run ring_step r evs r'" "\<forall>ev\<in>set evs. frame_event ev"
    using process_raps_run [OF assms(1) len assms(2,3), of now p] by blast
  note processed = this
  show ?thesis
  proof (cases "frame_sender data = node_id r")
    case True
    then show ?thesis
      unfolding p(1) er_forward_lookup_raps [OF assms(2) nid p(2)]
      by (intro exI [of _ False] exI [of _ r] exI [of _ s] exI [of _ "[]"]) (simp add: run_nil)
  next
    case False
    then show ?thesis
      unfolding p(1) er_forward_lookup_raps [OF assms(2) nid p(2)]
      using processed by (intro exI [of _ r'] exI [of _ s'] exI [of _ evs] exI) simp
  qed
next
  case False
  then have "\<exists>b. er_forward_lookup api now r port data len s = Inr (b, r, s)"
    using er_is_raps_frame_eq [OF assms(2)] er_forward_lookup_data [of data len api now r port s]
    by (cases port) (auto simp: er_forward_lookup_def er_is_keepalive_frame_def)
  moreover have "run ring_step r [] r" "\<forall>ev\<in>set []. frame_event ev" by (simp_all add: run_nil)
  ultimately show ?thesis by metis
qed

text \<open>Claim C4: whatever frame the bridge hands to the module, on whatever port, the callback
  returns without a fault as long as memory is available, and the ring it leaves is reached
  from the old one by steps of the ring machine that stand for messages of other nodes and the
  guard timer only. All that holds of reachable rings thus holds of a ring that receives
  arbitrary frames.\<close>

theorem received_frame_is_a_run:
  assumes "ring_inv r" and "len \<le> int (length data)" and "k_malloc api OBJ_RAPS s = (Some a, s1)"
  shows "\<exists>dst r' s' evs. er_netmap_on_recv api now (Some r) data len nr port s = Inr (dst, Some r', s') \<and>
    run ring_step r evs r' \<and> (\<forall>ev\<in>set evs. frame_event ev) \<and> ring_inv r'"
proof (cases "active r")
  case True
  let ?p = "if idx (port0 r) = port then Some PORT0 else if idx (port1 r) = port then Some PORT1 else None"
  obtain b r' s' evs where f: "er_forward_lookup api now r ?p data len s = Inr (b, r', s')"
    and evs: "run ring_step r evs r'" "\<forall>ev\<in>set evs. frame_event ev"
    using er_forward_lookup_run [OF assms, of now ?p] by blast
  obtain dst s'' where "er_netmap_on_recv api now (Some r) data len nr port s = Inr (dst, Some r', s'')"
    using True f by (cases b; cases "netmap_bdg_learning api data nr port s'")
      (simp_all add: er_netmap_on_recv_def er_lookup_ring_def Let_def)
  with evs ring.run_inv [OF evs(1) assms(1)] show ?thesis
    by (intro exI [of _ dst] exI [of _ r'] exI [of _ s''] exI [of _ evs] conjI)
next
  case False
  with assms(1) show ?thesis
    by (intro exI [of _ "NM_BDG_NOPORT api"] exI [of _ r] exI [of _ s] exI [of _ "[]"] conjI)
      (simp_all add: er_netmap_on_recv_def er_lookup_ring_def run_nil)
qed

lemma received_frame_is_a_run_witness:
  "\<exists>dst r' s'. er_netmap_on_recv sample_api 9 (Some (sample_ring True)) bad_frame 55 0 1 sample_kstate =
     Inr (dst, Some r', s') \<and> ring_inv r'"
  using received_frame_is_a_run [OF sample_inv, of 55 bad_frame sample_api sample_kstate 1
      "sample_kstate\<lparr>ks_next := 2, ks_live := [(1, OBJ_RAPS)], ks_budget := 99\<rparr>" 9 True 0 1]
  by (simp add: bad_frame) (simp add: sample_api_def sample_kstate_def, blast)

lemma frame_run_cfg:
  assumes "run ring_step r evs r'" and "\<forall>ev\<in>set evs. frame_event ev" and "ring_inv r"
  shows "ring_cfg r' = ring_cfg r"
  using assms
proof (induction rule: run.induct)
  case (run_cons r ev t es u)
  from run_cons(1) have "ring_cfg t = ring_cfg r"
  proof cases
    case (step_request req port nid now)
    with ring_process_request_refines [of r req port nid now] run_cons.prems show ?thesis
      by (auto simp: after_cfg)
  next
    case step_configure
    then show ?thesis using run_cons.prems by (simp add: frame_event_def)
  next
    case step_link
    then show ?thesis using run_cons.prems by (simp add: frame_event_def)
  qed (simp_all add: ring_cfg_def)
  moreover have "ring_inv t" using run_cons(1) run_cons.prems(2) by (rule ring_step_inv)
  ultimately show ?case using run_cons by simp
qed simp

text \<open>Claim C32: an R-APS frame is passed on to the other port of the ring exactly when another node
  sent it, both ports are open after it has been processed, and the bridge index of the other
  port is not 0. The last condition is an artefact of the code: the index is returned as
  \<^verbatim>\<open>bool\<close>, so a ring whose other port has index 0 forwards no signalling to it.\<close>

theorem raps_forwarded_iff:
  assumes "ring_inv r" and "55 \<le> len" and "len \<le> int (length data)" and "take 5 data = RAPS_DST"
    and "k_malloc api OBJ_RAPS s = (Some a, s1)"
    and "er_forward_lookup api now r (Some p) data len s = Inr (b, r', s')"
  shows "b \<longleftrightarrow> frame_sender data \<noteq> node_id r \<and> \<not> is_blocked (get_port p r') \<and>
    \<not> is_blocked (get_port (other_port p) r') \<and> idx (get_port (other_port p) r) \<noteq> 0"
proof -
  have nid: "length (node_id r) = 6" using assms(1) by (simp add: ring_inv_def ring_ok_def)
  have raps: "er_is_raps_frame data len = Inr True"
    using er_is_raps_frame_eq [OF assms(3)] assms(2,4) by simp
  obtain t s'' evs where t: "process_raps_frame api now r data len (Some p) s = Inr (t, s'')"
    "run ring_step r evs t" "\<forall>ev\<in>set evs. frame_event ev"
    using process_raps_run [OF assms(1-3,5), of now p] by blast
  have "ring_cfg t = ring_cfg r" by (rule frame_run_cfg [OF t(2,3) assms(1)])
  then have "idx (get_port (other_port p) t) = idx (get_port (other_port p) r)"
    by (cases p) (simp_all add: ring_cfg_def)
  then show ?thesis
    using assms(6) t(1) unfolding er_forward_lookup_raps [OF assms(3) nid raps]
    by (cases "frame_sender data = node_id r") (auto simp: blocked_def)
qed

lemma raps_forwarded_iff_witness:
  "er_forward_lookup sample_api 9 (sample_remote RING_REQ_RAPS_FS) (Some PORT0) bad_frame 55 sample_kstate =
     Inr (True, sample_remote RING_REQ_RAPS_FS,
       sample_kstate\<lparr>ks_next := 2, ks_live := [(1, OBJ_RAPS)], ks_budget := 99\<rparr>)"
proof -
  let ?r = "sample_remote RING_REQ_RAPS_FS"
  let ?s = "sample_kstate\<lparr>ks_next := 2, ks_live := [(1, OBJ_RAPS)], ks_budget := 99\<rparr>"
  have inv: "ring_inv ?r" by (simp add: sample_remote_inv)
  have m: "k_malloc sample_api OBJ_RAPS sample_kstate = (Some 1, ?s)"
    by (simp add: sample_api_def sample_kstate_def)
  have cfg: "ring_cfg ?r = ring_cfg (sample_fresh True)"
    by (simp add: sample_remote_def sample_ring_def after_cfg started_cfg)
  then have node: "node_id ?r = [2,4,6,8,10,12]" and i: "idx (port1 ?r) = 2"
    by (simp_all add: ring_cfg_def sample_fresh_def sample_port_def)
  have d: "take 5 bad_frame = RAPS_DST" "frame_sender bad_frame = [0,0,0,0,0,0]"
    by (simp_all add: bad_frame_def RAPS_DST_def frame_sender_def cfm_off_def eval_nat_numeral)
  have raps: "er_is_raps_frame bad_frame 55 = Inr True"
    using er_is_raps_frame_eq [of 55 bad_frame] d bad_frame(1) by simp
  have "process_raps_frame sample_api 9 ?r bad_frame 55 (Some PORT0) sample_kstate = Inr (?r, ?s)"
    using process_raps_body_eq [of 55 bad_frame sample_api sample_kstate "Some 1" ?s 9 ?r PORT0] bad_frame m
      sample_remote_guard by (simp add: process_raps_frame_def)
  then obtain b where b: "er_forward_lookup sample_api 9 ?r (Some PORT0) bad_frame 55 sample_kstate = Inr (b, ?r, ?s)"
    using er_forward_lookup_raps [of 55 bad_frame ?r sample_api 9 PORT0 sample_kstate] bad_frame(1) raps node d
    by simp
  have "\<not> blocked q ?r" for q
    by (simp add: sample_remote_def after_blocked table_defs act_simps blocked_after_def)
  from this [of PORT0] this [of PORT1] have "b"
    using raps_forwarded_iff [OF inv _ _ d(1) m b] bad_frame(1) node d i by (simp add: blocked_def)
  with b show ?thesis by simp
qed

section \<open>From node to node\<close>

text \<open>The transmit buffer of a reachable ring, as a receiver sees it.\<close>

lemma announced_frame:
  assumes "reach ring_started ring_step t"
  shows "raps_frame_len t = 55" "length (raps_frame t) = 55" "take 5 (raps_frame t) = RAPS_DST"
    "frame_sender (raps_frame t) = node_id t" "raps_accept (raps_frame t)"
    "raps_ring_request (raps t) = Some (frame_request (raps_frame t))"
proof -
  from ring.reach_inv [OF assms] have t: "length (node_id t) = 6" "raps_sendable (raps t)"
    "raps_frame t = raps_bytes (raps t) (node_id t)" and l: "raps_frame_len t = 55"
    by (simp_all add: ring_inv_def ring_ok_def tx_coherent_def)
  note d = raps_bytes_append(1,3,4) [OF t(1), of "raps t" "[]"] raps_bytes_accept [OF t(1,2), of "[]"]
  show "raps_frame_len t = 55" by (rule l)
  show "length (raps_frame t) = 55" "take 5 (raps_frame t) = RAPS_DST" "frame_sender (raps_frame t) = node_id t"
    and acc: "raps_accept (raps_frame t)"
    using d t by (simp_all add: frame_sender_def)
  have "(rp_flags (raps t) AND 0xe0) AND RAPS_FLAG_RB = rp_flags (raps t) AND RAPS_FLAG_RB"
    by (simp add: RAPS_FLAG_RB_def and.assoc)
  moreover have "raps_fields (raps_frame t) = er_raps_zero\<lparr>rp_ring_id := rp_ring_id (raps t),
      rp_request := rp_request (raps t), rp_flags := rp_flags (raps t) AND 0xe0, rp_node_id := NodeFrame 24\<rparr>"
    using d t(3) by simp
  ultimately show "raps_ring_request (raps t) = Some (frame_request (raps_frame t))"
    using raps_fields_request(1) [OF acc] by (cases "rp_request (raps t)") (simp_all add: raps_ring_request_def)
qed

text \<open>Claim C16: what one node announces is what the next one processes. The buffer a reachable ring
  transmits from, received by another ring whose guard timer is not running, is taken as its own
  frame and dropped when the two node ids are equal, and otherwise causes exactly the request
  that corresponds to the announced message, from the port of arrival and with the sender's node
  id, and the memory it needed is released.\<close>

theorem announcement_is_heard:
  assumes "reach ring_started ring_step t" and "ring_inv r" and "\<not> guard_timer_active r"
    and "k_malloc api OBJ_RAPS s = (Some a, s1)"
  shows "\<exists>q. raps_ring_request (raps t) = Some q \<and>
    (if node_id t = node_id r
     then er_forward_lookup api now r (Some p) (raps_frame t) (raps_frame_len t) s = Inr (False, r, s)
     else \<exists>b r'. ring_process_request now r q (Some p) (Some (node_id t)) = Inr r' \<and>
       er_forward_lookup api now r (Some p) (raps_frame t) (raps_frame_len t) s = Inr (b, r', k_free api a s1))"
proof -
  let ?d = "raps_frame t"
  note d = announced_frame [OF assms(1)]
  have nid: "length (node_id r) = 6" using assms(2) by (simp add: ring_inv_def ring_ok_def)
  have l: "length (node_id t) = 6" using frame_sender_length [of ?d] d(2,4) by simp
  have raps: "er_is_raps_frame ?d 55 = Inr True" using er_is_raps_frame_eq [of 55 ?d] d by simp
  show ?thesis
  proof (cases "node_id t = node_id r")
    case True
    then show ?thesis
      using d er_forward_lookup_raps [of 55 ?d r api now p s] nid raps by simp
  next
    case False
    have v: "valid_call (frame_request ?d) (Some p) (Some (node_id t))"
      using l by (simp add: valid_call_def)
    obtain r' where r': "ring_process_request now r (frame_request ?d) (Some p) (Some (node_id t)) = Inr r'"
      using ring_process_request_refines [OF assms(2) v, of now] by blast
    have "process_raps_frame api now r ?d 55 (Some p) s = Inr (r', k_free api a s1)"
      using process_raps_body_eq [of 55 ?d api s "Some a" s1 now r p] assms(3,4) d r'
      by (simp add: process_raps_frame_def)
    then have "\<exists>b. er_forward_lookup api now r (Some p) ?d 55 s = Inr (b, r', k_free api a s1)"
      using er_forward_lookup_raps [of 55 ?d r api now p s] d nid raps False by simp
    then show ?thesis using d(1,6) r' False by auto
  qed
qed

text \<open>A second node of the same ring, neither owner nor neighbour.\<close>

definition sample_peer :: er_ring where
  "sample_peer = started 0 ((sample_fresh False)\<lparr>node_id := [3,3,3,3,3,3]\<rparr>)"

lemma sample_peer: "ring_inv sample_peer" "node_id sample_peer = [3,3,3,3,3,3]" "\<not> guard_timer_active sample_peer"
proof -
  let ?f = "(sample_fresh False)\<lparr>node_id := [3,3,3,3,3,3]\<rparr>"
  have "fresh_ring ?f"
    using sample_fresh [of False] by (simp add: fresh_ring_def ring_ok_def rpl_ok_def)
  then show "ring_inv sample_peer" unfolding sample_peer_def by (rule started_inv)
  show "node_id sample_peer = [3,3,3,3,3,3]" by (simp add: sample_peer_def started_sel)
  have "guard_timer sample_peer = timer_after 0 Stop (guard_timer (fsm_save RING_REQ_INVALID None None ?f))"
    using perform_timers(1) [of 0 "start_effect (situation_of ?f None)"]
    by (simp add: sample_peer_def started_def start_effect_def)
  then show "\<not> guard_timer_active sample_peer" by (simp add: timer_after_def)
qed

lemma announcement_is_heard_witness:
  "\<exists>b r'. ring_process_request 9 sample_peer RING_REQ_RAPS_FS (Some PORT0) (Some [2,4,6,8,10,12]) = Inr r' \<and>
     er_forward_lookup sample_api 9 sample_peer (Some PORT0) (raps_frame sample_fs) (raps_frame_len sample_fs)
       sample_kstate = Inr (b, r', sample_kstate\<lparr>ks_next := 2, ks_budget := 99\<rparr>)"
proof -
  let ?s = "sample_kstate\<lparr>ks_next := 2, ks_live := [(1, OBJ_RAPS)], ks_budget := 99\<rparr>"
  have m: "k_malloc sample_api OBJ_RAPS sample_kstate = (Some 1, ?s)"
    and f: "k_free sample_api 1 ?s = sample_kstate\<lparr>ks_next := 2, ks_budget := 99\<rparr>"
    by (simp_all add: sample_api_def sample_kstate_def)
  have n: "node_id sample_fs = [2,4,6,8,10,12]"
    using after_cfg [of 5 "sample_ring True" RING_REQ_FS "Some PORT0" None]
    by (simp add: ring_cfg_def sample_fs_def sample_sel(9))
  have "rp_request (raps sample_fs) = RAPS_REQ_FS"
    using after_local_switch(1) [of "sample_ring True" RING_REQ_FS PORT0 5 None]
    by (simp add: sample_fs_def request_accepted_def sample_sel req_less)
  then have "raps_ring_request (raps sample_fs) = Some RING_REQ_RAPS_FS"
    by (simp add: raps_ring_request_def)
  then show ?thesis
    using announcement_is_heard [OF sample_fs_reach sample_peer(1,3) m, of 9 PORT0] n sample_peer(2) f by simp
qed

end
