(* ===== verification/Netmap.thy ===== *)
theory Netmap
  imports Frames
begin

text \<open>
  The module's side of netmap and the life of a port: \<^verbatim>\<open>er_netmap.c\<close> lines 10--180 and
  \<^verbatim>\<open>er_port_create\<close>, \<^verbatim>\<open>er_port_destroy\<close> of \<^verbatim>\<open>er_port.c\<close>. netmap itself is the record of
  kernel functions. The global netmap lock, which every function that takes it releases on
  every path, is left out; \<^verbatim>\<open>FBSD12\<close> is not defined by any build file, so the branches
  without it are modelled.
\<close>

section \<open>Requests to netmap\<close>

definition nmreq_zero :: nmreq where
  "nmreq_zero = \<lparr>nr_name = '''', nr_version = 0, nr_cmd = NETMAP_NO_CMD, nr_flags = 0,
     nr_arg1 = 0, nr_arg2 = 0\<rparr>"

text \<open>\<^verbatim>\<open>snprintf(nmr.nr_name, sizeof(nmr.nr_name)-1, ...)\<close>\<close>

definition nm_name :: "'s kapi \<Rightarrow> string \<Rightarrow> string" where
  "nm_name api txt = snprintf_s (sizeof_nr_name api - 1) txt"

definition er_netmap_attach :: "'s kapi \<Rightarrow> er_ring \<Rightarrow> er_port \<Rightarrow> 's \<Rightarrow> int \<times> 's" where
  "er_netmap_attach api ring port s =
     (let nmr = nmreq_zero\<lparr>nr_cmd := NETMAP_BDG_ATTACH, nr_flags := NR_REG_ALL_NIC api,
            nr_version := NETMAP_API api,
            nr_name := nm_name api (cstr (vale_name ring) @ cstr (port_name port))\<rparr>
      in case netmap_bdg_ctl api nmr False s of (err, _, s') \<Rightarrow> (err, s'))"

definition er_netmap_detach :: "'s kapi \<Rightarrow> er_ring \<Rightarrow> er_port \<Rightarrow> 's \<Rightarrow> int \<times> 's" where
  "er_netmap_detach api ring port s =
     (let nmr = nmreq_zero\<lparr>nr_cmd := NETMAP_BDG_DETACH, nr_version := NETMAP_API api,
            nr_name := nm_name api (cstr (vale_name ring) @ cstr (port_name port))\<rparr>
      in case netmap_bdg_ctl api nmr False s of (err, _, s') \<Rightarrow> (err, s'))"

text \<open>\<^verbatim>\<open>valeR%d:%s\<close>; the two indices are written only on success.\<close>

definition vale_ring_name :: "int \<Rightarrow> string" where
  "vale_ring_name i = ''valeR'' @ (if i < 0 then CHR ''-'' # show_nat (nat (- i)) else show_nat (nat i)) @ '':''"

definition er_netmap_get_indices ::
  "'s kapi \<Rightarrow> int \<Rightarrow> string \<Rightarrow> int \<times> int \<Rightarrow> 's \<Rightarrow> int \<times> (int \<times> int) \<times> 's" where
  "er_netmap_get_indices api i name indices s =
     (let nmr = nmreq_zero\<lparr>nr_version := NETMAP_API api, nr_cmd := NETMAP_BDG_LIST,
            nr_name := nm_name api (vale_ring_name i @ cstr name)\<rparr>
      in case netmap_bdg_ctl api nmr False s of (err, nmr', s') \<Rightarrow>
         if err \<noteq> 0 then (err, indices, s')
         else (0, (nr_arg1 nmr', nr_arg2 nmr'), s'))"

definition er_netmap_unget_adapter :: "'s kapi \<Rightarrow> er_port \<Rightarrow> 's \<Rightarrow> int \<times> 's" where
  "er_netmap_unget_adapter api port s = (0, netmap_adapter_put api (port_na port) s)"

definition er_netmap_get_adapter :: "'s kapi \<Rightarrow> er_port \<Rightarrow> 's \<Rightarrow> int \<times> er_port \<times> 's" where
  "er_netmap_get_adapter api port s =
     (let nmr = nmreq_zero\<lparr>nr_version := NETMAP_API api, nr_name := nm_name api (cstr (port_name port))\<rparr>
      in case netmap_get_na api nmr s of (err, na, s') \<Rightarrow>
         let port' = port\<lparr>port_na := na\<rparr> in
         if err \<noteq> 0 then (EINVAL, port', s')
         else if na = None then
           (case er_netmap_unget_adapter api port' s' of (_, s'') \<Rightarrow> (EINVAL, port', s''))
         else (0, port', s'))"

definition er_netmap_regops :: "'s kapi \<Rightarrow> er_ring \<Rightarrow> 's \<Rightarrow> int \<times> 's" where
  "er_netmap_regops api ring s =
     (let nmr = nmreq_zero\<lparr>nr_version := NETMAP_API api, nr_cmd := NETMAP_BDG_REGOPS,
            nr_name := nm_name api (cstr (vale_name ring))\<rparr>
      in case netmap_bdg_ctl api nmr True s of (err, _, s') \<Rightarrow>
         if err \<noteq> 0 then (err, s') else (0, s'))"

section \<open>Ports\<close>

text \<open>The \<^verbatim>\<open>cleanup\<close> label of \<^verbatim>\<open>er_port_create\<close>, for a port that was allocated.\<close>

definition er_port_cleanup :: "'s kapi \<Rightarrow> er_ring \<Rightarrow> nat \<Rightarrow> er_port \<Rightarrow> 's \<Rightarrow> 's" where
  "er_port_cleanup api ring addr port s =
     (let (_, s1) = er_netmap_unget_adapter api port s;
          (_, s2) = er_netmap_detach api ring port s1
      in er_free api addr s2)"

text \<open>A port as it is before it is attached: \<^verbatim>\<open>strncpy\<close>, then the last byte is cleared.\<close>

definition er_port_named :: "'s kapi \<Rightarrow> string \<Rightarrow> er_port" where
  "er_port_named api name =
     er_port_zero\<lparr>port_name := (strncpy IFNAMSIZ name)[IFNAMSIZ - 1 := NUL], idx := NM_BDG_NOPORT api\<rparr>"

definition er_port_create :: "'s kapi \<Rightarrow> er_ring \<Rightarrow> string \<Rightarrow> 's \<Rightarrow> (nat \<times> er_port) option \<times> 's" where
  "er_port_create api ring name s =
     (case er_malloc api OBJ_PORT s of
        (None, s1) \<Rightarrow> (None, s1)
      | (Some addr, s1) \<Rightarrow>
          let port = er_port_named api name in
          case er_netmap_attach api ring port s1 of (err, s2) \<Rightarrow>
          if err \<noteq> 0 then (None, er_port_cleanup api ring addr port s2)
          else case er_netmap_get_adapter api port s2 of (err, port', s3) \<Rightarrow>
          if err \<noteq> 0 then (None, er_port_cleanup api ring addr port' s3)
          else case er_netmap_get_indices api (ring_id ring) (port_name port') (0, idx port') s3 of
            (_, (_, i), s4) \<Rightarrow> (Some (addr, port'\<lparr>idx := i\<rparr>), s4))"

definition er_port_destroy :: "'s kapi \<Rightarrow> er_ring \<Rightarrow> nat \<Rightarrow> er_port \<Rightarrow> 's \<Rightarrow> 's" where
  "er_port_destroy api ring addr port s =
     (let s1 = (case link_event port of None \<Rightarrow> s | Some tag \<Rightarrow> eventhandler_deregister api tag s);
          (_, s2) = er_netmap_unget_adapter api port s1;
          (_, s3) = er_netmap_detach api ring port s2
      in er_free api addr s3)"

section \<open>Facts about new ports\<close>

lemma er_port_named_sel [simp]:
  "port_na (er_port_named api name) = None" "link_event (er_port_named api name) = None"
  "\<not> is_blocked (er_port_named api name)" "\<not> is_failed (er_port_named api name)"
  "idx (er_port_named api name) = NM_BDG_NOPORT api"
  by (simp_all add: er_port_named_def er_port_zero_def)

lemma er_netmap_get_adapter_port:
  "er_netmap_get_adapter api port s = (err, port', s') \<Longrightarrow> \<exists>na. port' = port\<lparr>port_na := na\<rparr>"
  by (auto simp: er_netmap_get_adapter_def Let_def split: prod.splits if_splits)

text \<open>A created port is open, not failed, and carries the name it was given.\<close>

lemma er_port_create_Some:
  assumes "er_port_create api ring name s = (Some (addr, port), s')"
  shows "port_name port = port_name (er_port_named api name)" "\<not> is_blocked port" "\<not> is_failed port"
    "link_event port = None"
  using assms
  by (auto simp: er_port_create_def Let_def split: option.splits prod.splits if_splits
      dest!: er_netmap_get_adapter_port)

lemma length_port_name: "length (port_name (er_port_named api name)) = IFNAMSIZ"
  by (simp add: er_port_named_def)

lemma last_port_name: "port_name (er_port_named api name) ! 15 = NUL"
  by (simp add: er_port_named_def)

lemma cstr_port_named: "length (cstr name) < IFNAMSIZ \<Longrightarrow> cstr (port_name (er_port_named api name)) = cstr name"
proof -
  assume l: "length (cstr name) < IFNAMSIZ"
  have "strncpy IFNAMSIZ name ! 15 = NUL"
    using l by (cases "length (cstr name) = 15") (auto simp: strncpy_def nth_append)
  then have "(strncpy IFNAMSIZ name)[IFNAMSIZ - 1 := NUL] = strncpy IFNAMSIZ name"
    by (simp add: list_update_same_conv)
  then show ?thesis using l by (simp add: er_port_named_def cstr_strncpy)
qed

text \<open>
  A port whose attachment fails is not only released: the same name is detached, even when it
  was attached before by another port.
\<close>

lemma er_port_create_attach_failed:
  assumes "k_malloc api OBJ_PORT s = (Some addr, s1)"
    and "er_netmap_attach api ring (er_port_named api name) s1 = (err, s2)" and "err \<noteq> 0"
  shows "er_port_create api ring name s =
    (None, er_free api addr (snd (er_netmap_detach api ring (er_port_named api name)
       (netmap_adapter_put api None s2))))"
  using assms
  by (simp add: er_port_create_def er_malloc_def er_port_cleanup_def er_netmap_unget_adapter_def
      case_prod_beta Let_def)

end
