(* ===== verification/Lifecycle.thy ===== *)
theory Lifecycle
  imports Netmap
begin

text \<open>
  The life of a ring: \<^verbatim>\<open>er_ring_create\<close>, \<^verbatim>\<open>er_ring_destroy\<close>, \<^verbatim>\<open>er_activate_ring\<close>,
  \<^verbatim>\<open>er_deactivate_ring\<close> and \<^verbatim>\<open>er_destroy_all_rings\<close> of \<^verbatim>\<open>er_ring.c\<close> (lines 834--966, 1151--1179 and
  1251--1258), with the order of the kernel calls and every failure path.
\<close>

section \<open>Creation\<close>

text \<open>The zeroed object that \<^verbatim>\<open>er_malloc(sizeof(struct er_ring))\<close> yields at \<open>addr\<close>.\<close>

definition er_ring_zero :: "nat \<Rightarrow> er_ring" where
  "er_ring_zero addr = \<lparr>ring_addr = addr, port0_addr = 0, port0 = er_port_zero, port1_addr = 0,
     port1 = er_port_zero, vale_name = replicate IFNAMSIZ NUL, is_rpl_owner = False,
     is_rpl_neighbour = False, is_revertive = False, rpl_port = None, version = 0, ring_id = 0,
     raps_vid = 0, node_id = replicate 6 0, guard_timer_active = False, guard_timer_active_since = 0,
     wtr_timer_active = False, wtr_timer_active_since = 0, wtb_timer_active = False,
     wtb_timer_active_since = 0, local_request = RING_REQ_INVALID, state = RING_STATE_INIT,
     prev_request = RING_REQ_INVALID, prev_request_port = None,
     prev_request_remote_node_id = replicate 6 0, is_sending_raps = False, raps_addr = 0,
     raps = er_raps_zero, raps_frame_addr = 0, raps_frame = [], raps_frame_len = 0,
     raps_bursts_remain = 0, guard_time = 0, wtr_time = 0, wtb_time = 0, active = False\<rparr>"

text \<open>Lines 852--860.\<close>

definition ring_new :: "nat \<Rightarrow> u16 \<Rightarrow> er_ring" where
  "ring_new addr i = (er_ring_zero addr)\<lparr>active := False, ring_id := uint i, is_revertive := False,
     raps_vid := 4093,
     vale_name := strncpy IFNAMSIZ (snprintf_s (IFNAMSIZ - 1) (vale_ring_name (uint i)))\<rparr>"

text \<open>Lines 893--900; \<^verbatim>\<open>ERPS_RPL_NONE\<close> is 0 and \<^verbatim>\<open>ERPS_RPL_PORT0\<close> is 1, anything else is port 1.\<close>

abbreviation (input) ERPS_RPL_NONE :: "'a::zero" where "ERPS_RPL_NONE \<equiv> 0"
abbreviation (input) ERPS_RPL_PORT0 :: "'a::one" where "ERPS_RPL_PORT0 \<equiv> 1"

definition ring_set_rpl :: "u8 \<Rightarrow> u8 \<Rightarrow> er_ring \<Rightarrow> er_ring" where
  "ring_set_rpl rpl_owner rpl_neighbour ret =
     (let ret = (if rpl_owner \<noteq> ERPS_RPL_NONE
                 then ret\<lparr>is_rpl_owner := True,
                          rpl_port := Some (if rpl_owner = ERPS_RPL_PORT0 then PORT0 else PORT1)\<rparr> else ret)
      in if rpl_neighbour \<noteq> ERPS_RPL_NONE
         then ret\<lparr>is_rpl_neighbour := True,
                  rpl_port := Some (if rpl_neighbour = ERPS_RPL_PORT0 then PORT0 else PORT1)\<rparr> else ret)"

text \<open>Lines 903--911 and 921--924.\<close>

definition ring_set_raps :: "nat \<Rightarrow> er_raps \<Rightarrow> er_ring \<Rightarrow> er_ring" where
  "ring_set_raps addr rp ret =
     (let rp = rp\<lparr>rp_vid := word_of_int (raps_vid ret), rp_ring_id := word_of_int (ring_id ret),
                 rp_node_id := NodeRing, rp_subcode := 0, rp_flags := 0xff\<rparr>
      in ret\<lparr>raps_addr := addr, raps := rp, raps_frame_len := er_raps_get_len rp\<rparr>)"

definition ring_set_fsm :: "nat \<Rightarrow> er_ring \<Rightarrow> er_ring" where
  "ring_set_fsm addr ret = ret\<lparr>raps_frame_addr := addr, raps_frame := replicate (nat (raps_frame_len ret)) 0,
     local_request := RING_REQ_INVALID, prev_request_port := None, prev_request := RING_REQ_INVALID,
     prev_request_remote_node_id := replicate 6 0\<rparr>"

text \<open>
  \<^verbatim>\<open>er_ring_create\<close>. The node id argument is never read. The result of \<^verbatim>\<open>er_raps_create\<close> is
  dereferenced without a test; the failure paths free the ring and nothing else.
\<close>

definition er_ring_create ::
  "'s kapi \<Rightarrow> i32 \<Rightarrow> u16 \<Rightarrow> string \<Rightarrow> string \<Rightarrow> u8 \<Rightarrow> u8 \<Rightarrow> bytes \<Rightarrow> 's \<Rightarrow> fault + (er_ring option \<times> 's)" where
  "er_ring_create api now i port0_name port1_name rpl_owner rpl_neighbour nid s =
     (case er_malloc api OBJ_RING s of
        (None, s1) \<Rightarrow> Inr (None, s1)
      | (Some addr, s1) \<Rightarrow>
        let ret = ring_new addr i in
        case er_port_create api ret port0_name s1 of
          (None, s2) \<Rightarrow> Inr (None, er_free api addr s2)
        | (Some (a0, p0), s2) \<Rightarrow>
        let ret = ret\<lparr>port0_addr := a0, port0 := p0\<rparr> in
        case er_port_create api ret port1_name s2 of
          (None, s3) \<Rightarrow> Inr (None, er_free api addr s3)
        | (Some (a1, p1), s3) \<Rightarrow>
        let ret = ret\<lparr>port1_addr := a1, port1 := p1\<rparr> in
        case er_netmap_regops api ret s3 of (_, s4) \<Rightarrow>
        let ret = ring_set_rpl rpl_owner rpl_neighbour ret in
        case er_raps_create api s4 of
          (None, s5) \<Rightarrow> Inl NullPtr
        | (Some (ra, rp), s5) \<Rightarrow>
        let ret = ring_set_raps ra rp ret in
        case er_malloc api (OBJ_FRAME (raps_frame_len ret)) s5 of
          (None, s6) \<Rightarrow> Inr (None, er_free api addr s6)
        | (Some fa, s6) \<Rightarrow>
        bind_res (ring_fsm now (ring_set_fsm fa ret) RING_REQ_INVALID None None) (\<lambda>r.
          Inr (Some r, s6)))"

section \<open>Activation and destruction\<close>

definition er_activate_ring :: "'s kapi \<Rightarrow> er_ring \<Rightarrow> 's \<Rightarrow> bool \<times> er_ring \<times> 's" where
  "er_activate_ring api ring s =
     (let s = mtx_init api (ring_addr ring) s;
          s = callout_init_mtx api (ring_addr ring) s;
          s = mtx_lock api (ring_addr ring) s;
          s = mtx_unlock api (ring_addr ring) s
      in (True, ring\<lparr>active := True\<rparr>, s))"

definition er_deactivate_ring :: "'s kapi \<Rightarrow> er_ring \<Rightarrow> 's \<Rightarrow> bool \<times> er_ring \<times> 's" where
  "er_deactivate_ring api ring s =
     (let ring = ring\<lparr>active := False\<rparr>;
          s = callout_drain api (ring_addr ring) s;
          s = mtx_destroy api (ring_addr ring) s
      in (True, ring, s))"

text \<open>The pointers to ports and \<^verbatim>\<open>raps\<close> of a created ring are not NULL.\<close>

definition er_ring_destroy :: "'s kapi \<Rightarrow> er_ring \<Rightarrow> 's \<Rightarrow> 's" where
  "er_ring_destroy api ring s =
     (let (_, ring, s) = (if active ring then er_deactivate_ring api ring s else (True, ring, s));
          s = er_port_destroy api ring (port0_addr ring) (port0 ring) s;
          s = er_port_destroy api ring (port1_addr ring) (port1 ring) s;
          s = er_raps_destroy api (raps_addr ring) s
      in er_free api (ring_addr ring) s)"

definition er_destroy_all_rings :: "'s kapi \<Rightarrow> er_ring option \<Rightarrow> 's \<Rightarrow> er_ring option \<times> 's" where
  "er_destroy_all_rings api er_global s = (case er_global of
     None \<Rightarrow> (None, s) | Some ring \<Rightarrow> (None, er_ring_destroy api ring s))"

section \<open>What creation yields\<close>

definition rpl_choice :: "u8 \<Rightarrow> port_id" where
  "rpl_choice p = (if p = ERPS_RPL_PORT0 then PORT0 else PORT1)"

text \<open>The ring just before the first event.\<close>

definition ring_ready :: "nat \<Rightarrow> u16 \<Rightarrow> nat \<times> er_port \<Rightarrow> nat \<times> er_port \<Rightarrow> u8 \<Rightarrow> u8 \<Rightarrow> nat \<Rightarrow> nat \<Rightarrow> er_ring" where
  "ring_ready addr i q0 q1 rpl_owner rpl_neighbour ra fa =
     ring_set_fsm fa (ring_set_raps ra er_raps_zero (ring_set_rpl rpl_owner rpl_neighbour
       ((ring_new addr i)\<lparr>port0_addr := fst q0, port0 := snd q0, port1_addr := fst q1, port1 := snd q1\<rparr>)))"

lemma ring_ready_sel [act_simps]:
  "state (ring_ready a i q0 q1 o' n ra fa) = RING_STATE_INIT"
  "local_request (ring_ready a i q0 q1 o' n ra fa) = RING_REQ_INVALID"
  "prev_request (ring_ready a i q0 q1 o' n ra fa) = RING_REQ_INVALID"
  "is_rpl_owner (ring_ready a i q0 q1 o' n ra fa) = (o' \<noteq> 0)"
  "is_rpl_neighbour (ring_ready a i q0 q1 o' n ra fa) = (n \<noteq> 0)"
  "\<not> is_revertive (ring_ready a i q0 q1 o' n ra fa)"
  "rpl_port (ring_ready a i q0 q1 o' n ra fa) =
     (if n \<noteq> 0 then Some (rpl_choice n) else if o' \<noteq> 0 then Some (rpl_choice o') else None)"
  "version (ring_ready a i q0 q1 o' n ra fa) = 0" "node_id (ring_ready a i q0 q1 o' n ra fa) = replicate 6 0"
  "raps_vid (ring_ready a i q0 q1 o' n ra fa) = 4093" "\<not> active (ring_ready a i q0 q1 o' n ra fa)"
  "port0 (ring_ready a i q0 q1 o' n ra fa) = snd q0" "port1 (ring_ready a i q0 q1 o' n ra fa) = snd q1"
  "ring_addr (ring_ready a i q0 q1 o' n ra fa) = a" "raps_frame_addr (ring_ready a i q0 q1 o' n ra fa) = fa"
  "raps_addr (ring_ready a i q0 q1 o' n ra fa) = ra" "ring_id (ring_ready a i q0 q1 o' n ra fa) = uint i"
  "rp_vid (raps (ring_ready a i q0 q1 o' n ra fa)) = 4093"
  by (simp_all add: ring_ready_def ring_set_fsm_def ring_set_raps_def ring_set_rpl_def ring_new_def
      er_ring_zero_def rpl_choice_def Let_def)

lemma ring_ready_fresh: "\<not> (o' \<noteq> 0 \<and> n \<noteq> 0) \<Longrightarrow> fresh_ring (ring_ready a i q0 q1 o' n ra fa)"
  by (auto simp: fresh_ring_def rpl_ok_def act_simps)
    (simp_all add: ring_ok_def ring_ready_def ring_set_fsm_def ring_set_raps_def ring_set_rpl_def ring_new_def
      er_ring_zero_def er_raps_get_len_def er_raps_zero_def Let_def)

text \<open>Every way \<^verbatim>\<open>er_ring_create\<close> can return a ring, for a role the ioctl lets through.\<close>

lemma ring_ready_start:
  assumes "\<not> (o' \<noteq> 0 \<and> n \<noteq> 0)"
  shows "ring_fsm now (ring_set_fsm fa (ring_set_raps ra er_raps_zero (ring_set_rpl o' n
      ((ring_new a i)\<lparr>port0_addr := a0, port0 := p0, port1_addr := a1, port1 := p1\<rparr>))))
      RING_REQ_INVALID None None = Inr (started now (ring_ready a i (a0, p0) (a1, p1) o' n ra fa))"
  using ring_fsm_start [OF ring_ready_fresh [OF assms], of now a i "(a0, p0)" "(a1, p1)" ra fa]
  by (simp add: ring_ready_def)

lemma er_ring_create_Some:
  assumes "er_ring_create api now i name0 name1 o' n nid s = Inr (Some r, s')" and "\<not> (o' \<noteq> 0 \<and> n \<noteq> 0)"
  obtains a a0 p0 a1 p1 ra fa s1 s2 s3
  where "r = started now (ring_ready a i (a0, p0) (a1, p1) o' n ra fa)"
    and "er_port_create api (ring_new a i) name0 s1 = (Some (a0, p0), s2)"
    and "er_port_create api ((ring_new a i)\<lparr>port0_addr := a0, port0 := p0\<rparr>) name1 s2 = (Some (a1, p1), s3)"
  using assms(1)
  by (auto simp: er_ring_create_def Let_def er_raps_create_def er_malloc_def bind_res_Inr_iff
      ring_ready_start [OF assms(2)] split: option.splits prod.splits)

section \<open>Properties\<close>

text \<open>Claim C30: a ring that \<^verbatim>\<open>er_ring_create\<close> returns is a started ring of the state machine: it is
  pending, announces NR, blocks exactly the ring protection link if it has one and port 0
  otherwise, has no failed port and no standing request, and is not active yet. Its node id is
  all zeros whatever node id the caller passed, and it is never revertive.\<close>

theorem created_ring:
  assumes "er_ring_create api now i name0 name1 rpl_owner rpl_neighbour nid s = Inr (Some r, s')"
    and "\<not> (rpl_owner \<noteq> 0 \<and> rpl_neighbour \<noteq> 0)"
  shows "ring_started r \<and> state r = RING_STATE_PENDING \<and> local_request r = RING_REQ_INVALID \<and>
    is_rpl_owner r = (rpl_owner \<noteq> 0) \<and> is_rpl_neighbour r = (rpl_neighbour \<noteq> 0) \<and>
    (\<forall>q. blocked q r \<longleftrightarrow> q = (if rpl_owner \<noteq> 0 then rpl_choice rpl_owner
        else if rpl_neighbour \<noteq> 0 then rpl_choice rpl_neighbour else PORT0)) \<and>
    \<not> is_failed (port0 r) \<and> \<not> is_failed (port1 r) \<and>
    is_sending_raps r \<and> rp_request (raps r) = RAPS_REQ_NR \<and>
    \<not> active r \<and> \<not> is_revertive r \<and> node_id r = replicate 6 0"
proof -
  obtain a a0 p0 a1 p1 ra fa s1 s2 s3
    where r: "r = started now (ring_ready a i (a0, p0) (a1, p1) rpl_owner rpl_neighbour ra fa)"
    and p: "er_port_create api (ring_new a i) name0 s1 = (Some (a0, p0), s2)"
      "er_port_create api ((ring_new a i)\<lparr>port0_addr := a0, port0 := p0\<rparr>) name1 s2 = (Some (a1, p1), s3)"
    by (rule er_ring_create_Some [OF assms])
  let ?f = "ring_ready a i (a0, p0) (a1, p1) rpl_owner rpl_neighbour ra fa"
  have fresh: "fresh_ring ?f" using assms(2) by (rule ring_ready_fresh)
  have "ring_started r" unfolding ring_started_def r using ring_fsm_start fresh by blast
  moreover have "\<not> is_failed (port0 r)" "\<not> is_failed (port1 r)" "\<not> active r"
    using started_cfg [of now ?f] er_port_create_Some(3) [OF p(1)] er_port_create_Some(3) [OF p(2)]
    by (simp_all add: ring_cfg_def r ring_ready_sel)
  moreover have "is_sending_raps r \<and> rp_request (raps r) = RAPS_REQ_NR"
    using perform_tx [of now "start_effect (situation_of ?f None)" "fsm_save RING_REQ_INVALID None None ?f"]
    by (simp add: r started_def start_effect_def tx_after_def)
  moreover have "blocked q r \<longleftrightarrow> q = (if rpl_owner \<noteq> 0 then rpl_choice rpl_owner
        else if rpl_neighbour \<noteq> 0 then rpl_choice rpl_neighbour else PORT0)" for q
    using assms(2) unfolding r blocked_started by (auto simp: ring_ready_sel)
  ultimately show ?thesis by (simp add: r started_sel ring_ready_sel)
qed

lemma created_ring_witness:
  "\<exists>r s'. er_ring_create sample_api 0 1 ''igb0'' ''igb1'' 2 0 [2,4,6,8,10,12] sample_kstate = Inr (Some r, s') \<and>
     blocked PORT1 r \<and> \<not> blocked PORT0 r \<and> node_id r = [0,0,0,0,0,0]"
proof -
  have "case er_ring_create sample_api 0 1 ''igb0'' ''igb1'' 2 0 [2,4,6,8,10,12] sample_kstate of
      Inr (Some r, s') \<Rightarrow> True | _ \<Rightarrow> False" by code_simp
  then have "\<exists>r s'. er_ring_create sample_api 0 1 ''igb0'' ''igb1'' 2 0 [2,4,6,8,10,12] sample_kstate = Inr (Some r, s')"
    by (auto split: sum.splits option.splits)
  then show ?thesis
    using created_ring [of sample_api 0 1 "''igb0''" "''igb1''" 2 0 "[2,4,6,8,10,12]" sample_kstate]
    by (fastforce simp: rpl_choice_def eval_nat_numeral)
qed

text \<open>
  Documented behaviour of the kernel's allocator, over a set \<open>live\<close> of live addresses: \<^verbatim>\<open>free\<close>
  releases its argument, and the other functions that destruction calls release nothing.
\<close>

definition heap_laws :: "'s kapi \<Rightarrow> ('s \<Rightarrow> nat set) \<Rightarrow> bool" where
  "heap_laws api live \<longleftrightarrow>
     (\<forall>a s. live (k_free api a s) = live s - {a}) \<and>
     (\<forall>q ops s. live (snd (snd (netmap_bdg_ctl api q ops s))) = live s) \<and>
     (\<forall>na s. live (netmap_adapter_put api na s) = live s) \<and>
     (\<forall>tag s. live (eventhandler_deregister api tag s) = live s) \<and>
     (\<forall>r s. live (callout_drain api r s) = live s) \<and>
     (\<forall>r s. live (mtx_destroy api r s) = live s)"

lemma live_er_port_destroy:
  assumes "heap_laws api live"
  shows "live (er_port_destroy api ring addr port s) = live s - {addr}"
  using assms
  by (simp add: heap_laws_def er_port_destroy_def er_netmap_unget_adapter_def er_netmap_detach_def
      er_free_def Let_def case_prod_beta split: option.split)

text \<open>Destroying a ring releases exactly four objects: the ring, its two ports and its
  R-APS structure. The frame buffer that creation allocated is never freed, so every ring that
  is created and destroyed costs the kernel one buffer.\<close>

theorem destroy_releases:
  assumes "heap_laws api live"
  shows "live (er_ring_destroy api r s) =
    live s - {ring_addr r, port0_addr r, port1_addr r, raps_addr r}"
proof -
  have d: "live (snd (snd (er_deactivate_ring api r s))) = live s"
    "er_deactivate_ring api r s = (True, r\<lparr>active := False\<rparr>, snd (snd (er_deactivate_ring api r s)))"
    using assms by (simp_all add: heap_laws_def er_deactivate_ring_def Let_def)
  have f: "live (er_free api a s) = live s - {a}" for a s
    using assms by (simp add: heap_laws_def er_free_def)
  show ?thesis
  proof (cases "active r")
    case True
    then show ?thesis
      unfolding er_ring_destroy_def
      by (subst d(2)) (simp add: Let_def f er_raps_destroy_def live_er_port_destroy [OF assms] d(1), blast)
  next
    case False
    then show ?thesis
      by (simp add: er_ring_destroy_def Let_def f er_raps_destroy_def live_er_port_destroy [OF assms]) blast
  qed
qed

lemma destroy_releases_witness:
  "5 \<in> fst ` set (ks_live (er_ring_destroy sample_api (sample_fresh True)
     (sample_kstate\<lparr>ks_live := [(1, OBJ_RING), (2, OBJ_PORT), (3, OBJ_PORT), (4, OBJ_RAPS), (5, OBJ_FRAME 55)]\<rparr>)))"
proof -
  have b: "ks_live (snd (snd (sample_bdg_ctl q ops s))) = ks_live s" for q ops s
    by (cases "nr_cmd q") simp_all
  have "heap_laws sample_api (\<lambda>s. fst ` set (ks_live s))"
    unfolding heap_laws_def by (auto simp: sample_api_def b simp del: sample_bdg_ctl.simps split: option.split)
  from destroy_releases [OF this] show ?thesis by (simp add: sample_fresh_def)
qed

end
