(* ===== verification/Ioctl.thy ===== *)
theory Ioctl
  imports Lifecycle
begin

text \<open>
  The device and the module: \<^verbatim>\<open>src/src/sys/net/erps.h\<close> and \<^verbatim>\<open>src/src/sys/dev/erps/erps.c\<close>.
  \<open>er_global\<close>, the single ring, is threaded through; \<^verbatim>\<open>caddr_t data\<close> is \<open>None\<close> when it is NULL.
  Open, close, read and write of the device return 0 and do nothing.
\<close>

section \<open>The request block\<close>

record erreq =
  er_port0 :: string
  er_port1 :: string
  er_port0_failed :: u8
  er_port1_failed :: u8
  er_port0_blocked :: u8
  er_port1_blocked :: u8
  er_node_id :: bytes
  er_id :: u8
  er_version :: u8
  er_guard_time :: u32
  er_wtr_time :: u32
  er_raps_vid :: u16
  er_revertive :: u8
  er_rpl_port :: u16
  er_rpl_owner :: u8
  er_rpl_neighbour :: u8
  er_cmd :: u16

datatype ioctl_cmd = ERIOCINIT | ERIOCADDIF | ERIOCDELIF | ERIOCSTATUS | ERIOCCOMMAND | ERIOC_OTHER nat

fun u8_of_bool :: "bool \<Rightarrow> u8" where
  "u8_of_bool b = (if b then 1 else 0)"

section \<open>\<^verbatim>\<open>er_ioctl\<close>\<close>

text \<open>Lines 68--79.\<close>

definition rpl_config_invalid :: "erreq \<Rightarrow> bool" where
  "rpl_config_invalid req =
     (if er_rpl_owner req \<noteq> 0 \<and> er_rpl_neighbour req \<noteq> 0 then True
      else if er_rpl_owner req = 0 \<and> er_rpl_neighbour req = 0 then er_rpl_port req \<noteq> ERPS_RPL_NONE
      else er_rpl_port req = ERPS_RPL_NONE)"

text \<open>Lines 107--119. \<^verbatim>\<open>ring->raps_vid\<close> is an \<^verbatim>\<open>int\<close>, the times are \<^verbatim>\<open>uint32_t\<close>.\<close>

definition configure_ring :: "erreq \<Rightarrow> er_ring \<Rightarrow> er_ring" where
  "configure_ring req ring =
     (let ring = (if version ring = 0 then ring\<lparr>version := 2\<rparr> else ring);
          ring = ring\<lparr>raps_vid := uint (er_raps_vid req)\<rparr>;
          ring = (if raps_vid ring \<le> 0 \<or> 4094 \<le> raps_vid ring then ring\<lparr>raps_vid := 2000\<rparr> else ring);
          ring = ring\<lparr>guard_time := er_guard_time req\<rparr>;
          ring = (if guard_time ring < 10 \<or> 2000 < guard_time ring then ring\<lparr>guard_time := 500\<rparr> else ring);
          ring = ring\<lparr>wtr_time := er_wtr_time req\<rparr>;
          ring = (if wtr_time ring < 1*60000 \<or> 12*60000 < wtr_time ring then ring\<lparr>wtr_time := 5*60000\<rparr> else ring);
          ring = ring\<lparr>wtb_time := guard_time ring + 5000\<rparr>
      in ring\<lparr>is_revertive := er_revertive req \<noteq> 0\<rparr>)"

text \<open>Lines 61--128. The RPL port is narrowed to \<^verbatim>\<open>uint8_t\<close> on its way to \<^verbatim>\<open>er_ring_create\<close>.\<close>

definition er_ioctl_init ::
  "'s kapi \<Rightarrow> i32 \<Rightarrow> erreq \<Rightarrow> er_ring option \<Rightarrow> 's \<Rightarrow> fault + (int \<times> er_ring option \<times> 's)" where
  "er_ioctl_init api now req er_global s =
     (if er_lookup_ring er_global (uint (er_id req)) \<noteq> None then Inr (EINVAL, er_global, s)
      else if rpl_config_invalid req then Inr (EINVAL, er_global, s)
      else
        let rpl_owner_port = (if er_rpl_owner req \<noteq> 0 then ucast (er_rpl_port req) else ERPS_RPL_NONE);
            rpl_neighbour_port = (if er_rpl_neighbour req \<noteq> 0 then ucast (er_rpl_port req) else ERPS_RPL_NONE)
        in if er_global \<noteq> None then Inr (EINVAL, er_global, s)
        else bind_res (er_ring_create api now (ucast (er_id req)) (er_port0 req) (er_port1 req)
                         rpl_owner_port rpl_neighbour_port (er_node_id req) s) (\<lambda>(created, s1).
          case created of
            None \<Rightarrow> Inr (EINVAL, er_global, s1)
          | Some ring \<Rightarrow>
              (case er_activate_ring api (configure_ring req ring) s1 of (ok, ring', s2) \<Rightarrow>
                 Inr (if \<not> ok then EINVAL else 0, Some ring', s2))))"

text \<open>Lines 140--147.\<close>

definition ring_status :: "er_ring \<Rightarrow> erreq \<Rightarrow> erreq" where
  "ring_status ring req = req
     \<lparr>er_port0 := strncpy IFNAMSIZ (port_name (port0 ring)),
      er_port1 := strncpy IFNAMSIZ (port_name (port1 ring)),
      er_port0_failed := u8_of_bool (is_failed (port0 ring)),
      er_port1_failed := u8_of_bool (is_failed (port1 ring)),
      er_port0_blocked := u8_of_bool (is_blocked (port0 ring)),
      er_port1_blocked := u8_of_bool (is_blocked (port1 ring)),
      er_rpl_owner := u8_of_bool (is_rpl_owner ring),
      er_rpl_neighbour := u8_of_bool (is_rpl_neighbour ring)\<rparr>"

definition er_ioctl ::
  "'s kapi \<Rightarrow> i32 \<Rightarrow> ioctl_cmd \<Rightarrow> erreq option \<Rightarrow> er_ring option \<Rightarrow> 's
     \<Rightarrow> fault + (int \<times> erreq option \<times> er_ring option \<times> 's)" where
  "er_ioctl api now cmd data er_global s =
     (case data of
        None \<Rightarrow> Inr (EINVAL, data, er_global, s)
      | Some req \<Rightarrow>
          (case cmd of
             ERIOCINIT \<Rightarrow>
               bind_res (er_ioctl_init api now req er_global s) (\<lambda>(err, g, s'). Inr (err, data, g, s'))
           | ERIOCDELIF \<Rightarrow> Inr (0, data, er_global, s)
           | ERIOCSTATUS \<Rightarrow>
               (case er_lookup_ring er_global (uint (er_id req)) of
                  None \<Rightarrow> Inr (EINVAL, data, er_global, s)
                | Some ring \<Rightarrow> Inr (0, Some (ring_status ring req), er_global, s))
           | ERIOCCOMMAND \<Rightarrow>
               (case er_lookup_ring er_global (uint (er_id req)) of
                  None \<Rightarrow> Inr (EINVAL, data, er_global, s)
                | Some _ \<Rightarrow> Inr (EINVAL, data, er_global, s))
           | _ \<Rightarrow> Inr (ENXIO, data, er_global, s)))"

section \<open>The module\<close>

datatype module_event_type = MOD_LOAD | MOD_UNLOAD | MOD_OTHER nat

definition er_module_init :: "'s kapi \<Rightarrow> 's \<Rightarrow> int \<times> er_ring option \<times> 's" where
  "er_module_init api s = (case make_dev_p api s of (err, s') \<Rightarrow>
     if err \<noteq> 0 then (err, None, s') else (0, None, s'))"

definition er_module_fini :: "'s kapi \<Rightarrow> er_ring option \<Rightarrow> 's \<Rightarrow> er_ring option \<times> 's" where
  "er_module_fini api er_global s =
     (case er_destroy_all_rings api er_global s of (g, s') \<Rightarrow> (g, destroy_dev api s'))"

definition er_module_handler ::
  "'s kapi \<Rightarrow> module_event_type \<Rightarrow> er_ring option \<Rightarrow> 's \<Rightarrow> int \<times> er_ring option \<times> 's" where
  "er_module_handler api event er_global s = (case event of
     MOD_LOAD \<Rightarrow> er_module_init api s
   | MOD_UNLOAD \<Rightarrow> (case er_module_fini api er_global s of (g, s') \<Rightarrow> (0, g, s'))
   | MOD_OTHER _ \<Rightarrow> (EOPNOTSUPP, er_global, s))"

section \<open>Closed forms\<close>

lemma er_ioctl_init_None:
  assumes "\<not> rpl_config_invalid req"
  shows "er_ioctl_init api now req None s =
    bind_res (er_ring_create api now (ucast (er_id req)) (er_port0 req) (er_port1 req)
        (if er_rpl_owner req \<noteq> 0 then ucast (er_rpl_port req) else 0)
        (if er_rpl_neighbour req \<noteq> 0 then ucast (er_rpl_port req) else 0) (er_node_id req) s)
      (\<lambda>(created, s1). case created of None \<Rightarrow> Inr (EINVAL, None, s1)
        | Some ring \<Rightarrow> Inr (0, Some ((configure_ring req ring)\<lparr>active := True\<rparr>),
            snd (snd (er_activate_ring api (configure_ring req ring) s1))))"
proof -
  have k: "(\<lambda>(created, s1). case created of None \<Rightarrow> Inr (EINVAL, None, s1)
      | Some ring \<Rightarrow> (case er_activate_ring api (configure_ring req ring) s1 of (ok, ring', s2) \<Rightarrow>
          Inr (if \<not> ok then EINVAL else 0, Some ring', s2))) =
    (\<lambda>(created, s1). case created of None \<Rightarrow> Inr (EINVAL, None, s1)
      | Some ring \<Rightarrow> Inr (0, Some ((configure_ring req ring)\<lparr>active := True\<rparr>),
          snd (snd (er_activate_ring api (configure_ring req ring) s1))))"
    by (auto simp: fun_eq_iff er_activate_ring_def Let_def split: option.split)
  show ?thesis
    using assms by (simp add: er_ioctl_init_def er_lookup_ring_def Let_def k)
qed

text \<open>The whole configuration step is one of the \<open>Configure\<close> events of the ring machine.\<close>

definition clamp :: "'a::linorder \<Rightarrow> 'a \<Rightarrow> 'a \<Rightarrow> 'a \<Rightarrow> 'a" where
  "clamp lo hi dflt x = (if x < lo \<or> hi < x then dflt else x)"

lemma configure_ring_eq:
  "(configure_ring req r)\<lparr>active := True\<rparr> =
     configure (if version r = 0 then 2 else version r) (clamp 1 4093 2000 (uint (er_raps_vid req)))
       (clamp 10 2000 500 (er_guard_time req)) (clamp 60000 720000 300000 (er_wtr_time req))
       (clamp 10 2000 500 (er_guard_time req) + 5000) (er_revertive req \<noteq> 0) True r"
proof -
  have vid: "uint (er_raps_vid req) \<le> 0 \<or> 4094 \<le> uint (er_raps_vid req) \<longleftrightarrow>
      uint (er_raps_vid req) < 1 \<or> 4093 < uint (er_raps_vid req)" by linarith
  have upd: "(if b then t\<lparr>version := x\<rparr> else t) = t\<lparr>version := if b then x else version t\<rparr>"
    "(if b then t\<lparr>raps_vid := y\<rparr> else t) = t\<lparr>raps_vid := if b then y else raps_vid t\<rparr>"
    "(if b then t\<lparr>guard_time := z\<rparr> else t) = t\<lparr>guard_time := if b then z else guard_time t\<rparr>"
    "(if b then t\<lparr>wtr_time := z\<rparr> else t) = t\<lparr>wtr_time := if b then z else wtr_time t\<rparr>"
    for b x y z and t :: er_ring
    by simp_all
  show ?thesis
    unfolding configure_ring_def configure_def Let_def clamp_def upd vid [symmetric] by simp
qed

text \<open>What a successful INIT leaves behind: a created ring, configured.\<close>

lemma er_ioctl_init_ring:
  assumes "er_ioctl_init api now req None s = Inr (e, Some r, s')"
  obtains r0 s0 o' n where "r = (configure_ring req r0)\<lparr>active := True\<rparr>" and "\<not> rpl_config_invalid req"
    and "e = 0" and "\<not> (o' \<noteq> 0 \<and> n \<noteq> 0)"
    and "o' = (if er_rpl_owner req \<noteq> 0 then ucast (er_rpl_port req) else 0)"
    and "n = (if er_rpl_neighbour req \<noteq> 0 then ucast (er_rpl_port req) else 0)"
    and "er_ring_create api now (ucast (er_id req)) (er_port0 req) (er_port1 req) o' n (er_node_id req) s = Inr (Some r0, s0)"
proof -
  have ok: "\<not> rpl_config_invalid req"
    using assms by (auto simp: er_ioctl_init_def er_lookup_ring_def)
  then have role: "\<not> (er_rpl_owner req \<noteq> 0 \<and> er_rpl_neighbour req \<noteq> 0)"
    by (auto simp: rpl_config_invalid_def split: if_splits)
  let ?o = "if er_rpl_owner req \<noteq> 0 then ucast (er_rpl_port req) else (0 :: u8)"
  let ?n = "if er_rpl_neighbour req \<noteq> 0 then ucast (er_rpl_port req) else (0 :: u8)"
  obtain c s1 where c: "er_ring_create api now (ucast (er_id req)) (er_port0 req) (er_port1 req) ?o ?n
      (er_node_id req) s = Inr (c, s1)"
    using assms unfolding er_ioctl_init_None [OF ok] bind_res_Inr_iff by fastforce
  then obtain r0 where "c = Some r0" "e = 0" "r = (configure_ring req r0)\<lparr>active := True\<rparr>"
    using assms unfolding er_ioctl_init_None [OF ok] by (auto split: option.splits)
  moreover have "\<not> (?o \<noteq> 0 \<and> ?n \<noteq> 0)" using role by auto
  ultimately show thesis using that [of r0 ?o ?n s1] c ok by blast
qed

lemma created_ring_inv:
  assumes "er_ring_create api now i name0 name1 o' n nid s = Inr (Some r, s')" and "\<not> (o' \<noteq> 0 \<and> n \<noteq> 0)"
  shows "ring_started r" "version r = 0" "is_rpl_owner r = (o' \<noteq> 0)" "is_rpl_neighbour r = (n \<noteq> 0)"
    "rp_vid (raps r) = 4093"
proof -
  obtain a a0 p0 a1 p1 ra fa where r: "r = started now (ring_ready a i (a0, p0) (a1, p1) o' n ra fa)"
    by (rule er_ring_create_Some [OF assms])
  let ?f = "ring_ready a i (a0, p0) (a1, p1) o' n ra fa"
  show "ring_started r"
    unfolding ring_started_def r using ring_fsm_start [OF ring_ready_fresh [OF assms(2)]] ring_ready_fresh [OF assms(2)]
    by blast
  show "version r = 0" "is_rpl_owner r = (o' \<noteq> 0)" "is_rpl_neighbour r = (n \<noteq> 0)"
    by (simp_all add: r started_sel ring_ready_sel)
  show "rp_vid (raps r) = 4093"
    using started_cfg [of now ?f] by (simp add: r ring_cfg_def ring_ready_sel)
qed

section \<open>Creating a ring\<close>

text \<open>Claim C23: a ring that INIT creates is active, satisfies the invariant of the state machine, and
  is configured within its documented bounds whatever the request says: protocol version 2 in
  every case, VLAN 1 to 4093, guard time 10 to 2000 ms, wait-to-restore 1 to 12 minutes,
  wait-to-block guard time plus 5 s without overflow; requested times in range are taken over.
  The VLAN of the outgoing frames is 4093 whatever VLAN was configured.\<close>

theorem init_configures:
  assumes "er_ioctl api now ERIOCINIT (Some req) None s = Inr (e, d, Some r, s')"
  shows "e = 0 \<and> active r \<and> ring_inv r \<and> version r = 2 \<and>
    1 \<le> raps_vid r \<and> raps_vid r \<le> 4093 \<and> rp_vid (raps r) = 4093 \<and>
    10 \<le> unat (guard_time r) \<and> unat (guard_time r) \<le> 2000 \<and>
    (10 \<le> er_guard_time req \<and> er_guard_time req \<le> 2000 \<longrightarrow> guard_time r = er_guard_time req) \<and>
    60000 \<le> unat (wtr_time r) \<and> unat (wtr_time r) \<le> 720000 \<and>
    (60000 \<le> er_wtr_time req \<and> er_wtr_time req \<le> 720000 \<longrightarrow> wtr_time r = er_wtr_time req) \<and>
    unat (wtb_time r) = unat (guard_time r) + 5000 \<and> is_revertive r = (er_revertive req \<noteq> 0)"
proof -
  have i: "er_ioctl_init api now req None s = Inr (e, Some r, s')"
    using assms by (auto simp: er_ioctl_def bind_res_Inr_iff)
  obtain r0 s0 o' n where r: "r = (configure_ring req r0)\<lparr>active := True\<rparr>" "e = 0" "\<not> (o' \<noteq> 0 \<and> n \<noteq> 0)"
    and c: "er_ring_create api now (ucast (er_id req)) (er_port0 req) (er_port1 req) o' n (er_node_id req) s
      = Inr (Some r0, s0)"
    by (rule er_ioctl_init_ring [OF i])
  note r0 = created_ring_inv [OF c r(3)]
  let ?g = "clamp 10 2000 500 (er_guard_time req)" and ?w = "clamp 60000 720000 300000 (er_wtr_time req)"
  have g: "10 \<le> unat ?g \<and> unat ?g \<le> 2000"
    by (auto simp: clamp_def word_less_nat_alt not_less)
  have w: "60000 \<le> unat ?w \<and> unat ?w \<le> 720000"
    by (auto simp: clamp_def word_less_nat_alt not_less)
  have b: "unat (?g + 5000) = unat ?g + 5000" using g by (simp add: unat_word_ariths)
  have eq: "r = configure 2 (clamp 1 4093 2000 (uint (er_raps_vid req))) ?g ?w (?g + 5000) (er_revertive req \<noteq> 0) True r0"
    using r(1) r0(2) by (simp add: configure_ring_eq)
  then have "ring_inv r" using ring_started_inv [OF r0(1)] by (simp add: ring_inv_update)
  moreover have "rp_vid (raps r) = 4093" using r0(5) by (simp add: eq configure_sel)
  moreover have f: "version r = 2" "raps_vid r = clamp 1 4093 2000 (uint (er_raps_vid req))" "guard_time r = ?g"
    "wtr_time r = ?w" "wtb_time r = ?g + 5000" "is_revertive r = (er_revertive req \<noteq> 0)" "active r"
    by (simp_all add: eq configure_def)
  moreover have "1 \<le> raps_vid r \<and> raps_vid r \<le> 4093" by (auto simp: f clamp_def)
  ultimately show ?thesis using r(2) g w b by (auto simp: clamp_def)
qed

definition sample_req :: erreq where
  "sample_req = \<lparr>er_port0 = ''igb0'', er_port1 = ''igb1'', er_port0_failed = 0, er_port1_failed = 0,
     er_port0_blocked = 0, er_port1_blocked = 0, er_node_id = [2,4,6,8,10,12], er_id = 1, er_version = 1,
     er_guard_time = 5, er_wtr_time = 60000, er_raps_vid = 100, er_revertive = 1, er_rpl_port = 2,
     er_rpl_owner = 1, er_rpl_neighbour = 0, er_cmd = 0\<rparr>"

lemma sample_init:
  assumes "case er_ioctl sample_api 0 ERIOCINIT (Some req) None sample_kstate of
      Inr (_, _, Some r, s') \<Rightarrow> True | _ \<Rightarrow> False"
  shows "\<exists>e d r s'. er_ioctl sample_api 0 ERIOCINIT (Some req) None sample_kstate = Inr (e, d, Some r, s')"
  using assms by (auto split: sum.splits option.splits)

lemma init_configures_witness:
  "\<exists>e d r s'. er_ioctl sample_api 0 ERIOCINIT (Some sample_req) None sample_kstate = Inr (e, d, Some r, s') \<and>
     version r = 2 \<and> wtr_time r = 60000 \<and> ring_inv r"
proof -
  have "\<exists>e d r s'. er_ioctl sample_api 0 ERIOCINIT (Some sample_req) None sample_kstate = Inr (e, d, Some r, s')"
    by (rule sample_init) code_simp
  then obtain e d r s' where i: "er_ioctl sample_api 0 ERIOCINIT (Some sample_req) None sample_kstate = Inr (e, d, Some r, s')"
    by blast
  from init_configures [OF i] i show ?thesis by (auto simp: sample_req_def)
qed

text \<open>Claim C35: INIT is refused with EINVAL, and changes nothing, when there is a ring already,
  whatever its id, and when the request is inconsistent: owner and neighbour at once, a role
  without a port, or a port without a role. Every other INIT goes on to create a ring.\<close>

theorem init_refused:
  assumes "er_global \<noteq> None \<or> er_rpl_owner req \<noteq> 0 \<and> er_rpl_neighbour req \<noteq> 0 \<or>
    (er_rpl_owner req \<noteq> 0 \<or> er_rpl_neighbour req \<noteq> 0) \<noteq> (er_rpl_port req \<noteq> 0)"
  shows "er_ioctl api now ERIOCINIT (Some req) er_global s = Inr (EINVAL, Some req, er_global, s)"
proof -
  have "er_global \<noteq> None \<or> rpl_config_invalid req"
    using assms by (auto simp: rpl_config_invalid_def)
  then show ?thesis by (auto simp: er_ioctl_def er_ioctl_init_def er_lookup_ring_def)
qed

lemma init_refused_witness:
  "er_ioctl sample_api 0 ERIOCINIT (Some (sample_req\<lparr>er_id := 2\<rparr>)) (Some (sample_ring True)) sample_kstate =
     Inr (EINVAL, Some (sample_req\<lparr>er_id := 2\<rparr>), Some (sample_ring True), sample_kstate)"
  by (rule init_refused) simp

text \<open>The port number of the ring protection link passes the consistency check as a
  16-bit value and is then cut to 8 bits. An owner whose port number is a nonzero multiple of
  256 is accepted, but the ring it gets is no owner and has no protection link.\<close>

theorem rpl_port_truncated:
  assumes "er_rpl_owner req \<noteq> 0" and "er_rpl_neighbour req = 0"
    and "er_rpl_port req \<noteq> 0" and "ucast (er_rpl_port req) = (0 :: u8)"
    and "er_ioctl api now ERIOCINIT (Some req) None s = Inr (e, d, Some r, s')"
  shows "e = 0 \<and> \<not> is_rpl_owner r \<and> \<not> is_rpl_neighbour r"
proof -
  have i: "er_ioctl_init api now req None s = Inr (e, Some r, s')"
    using assms(5) by (auto simp: er_ioctl_def bind_res_Inr_iff)
  obtain r0 s0 o' n where r: "r = (configure_ring req r0)\<lparr>active := True\<rparr>" "e = 0" "\<not> (o' \<noteq> 0 \<and> n \<noteq> 0)"
    and n: "o' = (if er_rpl_owner req \<noteq> 0 then ucast (er_rpl_port req) else 0)"
      "n = (if er_rpl_neighbour req \<noteq> 0 then ucast (er_rpl_port req) else 0)"
    and c: "er_ring_create api now (ucast (er_id req)) (er_port0 req) (er_port1 req) o' n (er_node_id req) s
      = Inr (Some r0, s0)"
    by (rule er_ioctl_init_ring [OF i])
  have "o' = 0" "n = 0" using n assms(1,2,4) by simp_all
  then have "\<not> is_rpl_owner r0" "\<not> is_rpl_neighbour r0" using created_ring_inv(3,4) [OF c r(3)] by simp_all
  then show ?thesis using r(1,2) by (simp add: configure_ring_eq configure_sel)
qed

lemma rpl_port_truncated_witness:
  "\<exists>e d r s'. er_ioctl sample_api 0 ERIOCINIT (Some (sample_req\<lparr>er_rpl_port := 256\<rparr>)) None sample_kstate =
     Inr (e, d, Some r, s') \<and> e = 0 \<and> \<not> is_rpl_owner r"
proof -
  have "\<exists>e d r s'. er_ioctl sample_api 0 ERIOCINIT (Some (sample_req\<lparr>er_rpl_port := 256\<rparr>)) None sample_kstate =
      Inr (e, d, Some r, s')"
    by (rule sample_init) code_simp
  then obtain e d r s' where i: "er_ioctl sample_api 0 ERIOCINIT (Some (sample_req\<lparr>er_rpl_port := 256\<rparr>)) None sample_kstate =
      Inr (e, d, Some r, s')"
    by blast
  then show ?thesis
    using rpl_port_truncated [OF _ _ _ _ i] by (auto simp: sample_req_def)
qed

section \<open>Status and the other commands\<close>

text \<open>STATUS reports the ring as it is: the names of both ports, which of them are
  blocked or failed, and the role; it leaves the ring and every other field of the request
  alone. For a reachable ring at most one port is reported blocked.\<close>

theorem status_reports_ring:
  assumes "reach ring_started ring_step r" and "length (port_name (port0 r)) = IFNAMSIZ"
    and "length (port_name (port1 r)) = IFNAMSIZ"
  shows "\<exists>req'. er_ioctl api now ERIOCSTATUS (Some req) (Some r) s = Inr (0, Some req', Some r, s) \<and>
    cstr (er_port0 req') = cstr (port_name (port0 r)) \<and> cstr (er_port1 req') = cstr (port_name (port1 r)) \<and>
    (er_port0_blocked req' = 1) = is_blocked (port0 r) \<and> (er_port1_blocked req' = 1) = is_blocked (port1 r) \<and>
    (er_port0_failed req' = 1) = is_failed (port0 r) \<and> (er_port1_failed req' = 1) = is_failed (port1 r) \<and>
    (er_rpl_owner req' = 1) = is_rpl_owner r \<and> (er_rpl_neighbour req' = 1) = is_rpl_neighbour r \<and>
    \<not> (er_port0_blocked req' = 1 \<and> er_port1_blocked req' = 1) \<and>
    er_id req' = er_id req \<and> er_node_id req' = er_node_id req"
proof -
  have "length (cstr (port_name (port0 r))) \<le> IFNAMSIZ" "length (cstr (port_name (port1 r))) \<le> IFNAMSIZ"
    using assms(2,3) unfolding cstr_def by (metis length_takeWhile_le)+
  moreover have "\<not> (is_blocked (port0 r) \<and> is_blocked (port1 r))"
    using ring.reach_safe [OF assms(1)] by (simp add: blocked_def)
  ultimately show ?thesis
    by (simp add: er_ioctl_def er_lookup_ring_def ring_status_def cstr_strncpy)
qed

lemma status_reports_ring_witness:
  "\<exists>req'. er_ioctl sample_api 0 ERIOCSTATUS (Some sample_req) (Some (sample_ring True)) sample_kstate =
      Inr (0, Some req', Some (sample_ring True), sample_kstate) \<and>
    (er_port1_blocked req' = 1) = is_blocked (port1 (sample_ring True))"
proof -
  have "length (port_name (port0 (sample_ring True))) = IFNAMSIZ" "length (port_name (port1 (sample_ring True))) = IFNAMSIZ"
    using started_cfg [of 0 "sample_fresh True"]
    by (simp_all add: ring_cfg_def sample_ring_def) (simp_all add: sample_fresh_def sample_port_def)
  moreover have "reach ring_started ring_step (sample_ring True)" by (rule reach_init) (rule sample_started)
  ultimately show ?thesis
    using status_reports_ring [of "sample_ring True" sample_api 0 sample_req sample_kstate] by blast
qed

text \<open>No ioctl other than INIT changes the ring or the kernel. COMMAND, the command by which
  an operator would order a manual or forced switch, clear one, or report a failed port, is
  refused with EINVAL whether there is a ring or not; DELIF claims success without doing
  anything; ADDIF and unknown commands are refused with ENXIO.\<close>

theorem other_ioctls_change_nothing:
  assumes "cmd \<noteq> ERIOCINIT"
  shows "\<exists>e data'. er_ioctl api now cmd (Some req) er_global s = Inr (e, data', er_global, s) \<and>
    (cmd = ERIOCCOMMAND \<longrightarrow> e = EINVAL) \<and> (cmd = ERIOCDELIF \<longrightarrow> e = 0) \<and>
    (cmd = ERIOCSTATUS \<longrightarrow> (e = 0) = (er_global \<noteq> None)) \<and>
    (cmd = ERIOCADDIF \<or> (\<exists>n. cmd = ERIOC_OTHER n) \<longrightarrow> e = ENXIO)"
  using assms by (cases cmd; cases er_global) (simp_all add: er_ioctl_def er_lookup_ring_def)

lemma other_ioctls_change_nothing_witness:
  "\<exists>data'. er_ioctl sample_api 0 ERIOCCOMMAND (Some sample_req) (Some (sample_ring True)) sample_kstate =
     Inr (EINVAL, data', Some (sample_ring True), sample_kstate)"
  using other_ioctls_change_nothing [of ERIOCCOMMAND sample_api 0 sample_req "Some (sample_ring True)" sample_kstate]
  by auto

end
