(* ===== verification/Module.thy ===== *)
theory Module
  imports Ioctl
begin

text \<open>
  The module as a whole: a machine whose state is \<open>er_global\<close> and the kernel, and whose events
  are the entry points of the module: the ioctl of the device, frames from the bridge, and
  loading and unloading. What holds of the ring in every reachable state of this machine holds
  whatever users, frames and the kernel do.
\<close>

section \<open>The machine\<close>

datatype module_event = Ioctl i32 ioctl_cmd "erreq option" | Frame i32 bytes int u8 int
  | Handler module_event_type

type_synonym 's module_state = "er_ring option \<times> 's"

inductive module_step :: "'s kapi \<Rightarrow> 's module_state \<Rightarrow> module_event \<Rightarrow> 's module_state \<Rightarrow> bool"
  for api where
  step_ioctl: "er_ioctl api now cmd data g s = Inr (err, data', g', s') \<Longrightarrow>
    module_step api (g, s) (Ioctl now cmd data) (g', s')"
| step_frame: "len \<le> int (length buf) \<Longrightarrow>
    er_netmap_on_recv api now g buf len nr port s = Inr (dst, g', s') \<Longrightarrow>
    module_step api (g, s) (Frame now buf len nr port) (g', s')"
| step_handler: "er_module_handler api ev g s = (err, g', s') \<Longrightarrow>
    module_step api (g, s) (Handler ev) (g', s')"

definition module_start :: "'s module_state \<Rightarrow> bool" where
  "module_start m \<longleftrightarrow> fst m = None"

definition module_inv :: "'s module_state \<Rightarrow> bool" where
  "module_inv m \<longleftrightarrow> (case fst m of None \<Rightarrow> True | Some r \<Rightarrow> ring_inv r \<and> active r)"

definition module_cut_off :: "'s module_state \<Rightarrow> bool" where
  "module_cut_off m \<longleftrightarrow> (case fst m of None \<Rightarrow> False | Some r \<Rightarrow> blocked PORT0 r \<and> blocked PORT1 r)"

section \<open>Every entry point keeps the invariant\<close>

text \<open>A frame the callback survives leaves a good ring, also when memory has run out.\<close>

lemma process_raps_frame_inv:
  assumes "ring_inv r" and "55 \<le> len" and "len \<le> int (length data)"
    and "process_raps_frame api now r data len (Some p) s = Inr (r', s')"
  shows "ring_inv r' \<and> ring_cfg r' = ring_cfg r"
proof (cases "k_malloc api OBJ_RAPS s")
  case (Pair m s1)
  show ?thesis
  proof (cases m)
    case None
    have "process_raps_body api now t data len (Some p) s = Inr (r', s') \<Longrightarrow> r' = t" for t
      using process_raps_body_eq [OF assms(2,3) Pair, of now t p] None by (simp split: if_splits)
    moreover have "ring_cfg (r\<lparr>guard_timer_active := False\<rparr>) = ring_cfg r" by (simp add: ring_cfg_def)
    ultimately have "r' = r \<or> r' = r\<lparr>guard_timer_active := False\<rparr>"
      using assms(4) by (auto simp: process_raps_frame_def split: if_splits)
    then show ?thesis using assms(1) \<open>ring_cfg (r\<lparr>guard_timer_active := False\<rparr>) = ring_cfg r\<close>
      by (auto simp: ring_inv_update)
  next
    case (Some a)
    with Pair have m: "k_malloc api OBJ_RAPS s = (Some a, s1)" by simp
    obtain evs where "run ring_step r evs r'" "\<forall>ev\<in>set evs. frame_event ev"
      using process_raps_run [OF assms(1-3) m, of now p] assms(4) by auto
    then show ?thesis using ring.run_inv frame_run_cfg assms(1) by blast
  qed
qed

lemma er_forward_lookup_inv:
  assumes "ring_inv r" and "len \<le> int (length data)"
    and "er_forward_lookup api now r port data len s = Inr (b, r', s')"
  shows "ring_inv r' \<and> ring_cfg r' = ring_cfg r"
proof (cases "\<exists>p. port = Some p \<and> er_is_raps_frame data len = Inr True")
  case True
  then obtain p where p: "port = Some p" "er_is_raps_frame data len = Inr True" by blast
  then have len: "55 \<le> len" using er_is_raps_frame_eq [OF assms(2)] by simp
  have nid: "length (node_id r) = 6" using assms(1) by (simp add: ring_inv_def ring_ok_def)
  have "r' = r \<or> (\<exists>t. process_raps_frame api now r data len (Some p) s = Inr (r', t))"
    using assms(3) unfolding p(1) er_forward_lookup_raps [OF assms(2) nid p(2)]
    by (cases "process_raps_frame api now r data len (Some p) s") (auto split: if_splits)
  then show ?thesis
  proof (elim disjE exE)
    fix t assume "process_raps_frame api now r data len (Some p) s = Inr (r', t)"
    then show ?thesis by (rule process_raps_frame_inv [OF assms(1) len assms(2)])
  qed (use assms(1) in simp)
next
  case False
  then have "r' = r"
    using er_is_raps_frame_eq [OF assms(2)] er_forward_lookup_data [of data len api now r port s] assms(3)
    by (cases port) (auto simp: er_forward_lookup_def er_is_keepalive_frame_def split: if_splits)
  then show ?thesis using assms(1) by simp
qed

lemma on_recv_inv:
  assumes "module_inv (g, s)" and "len \<le> int (length buf)"
    and "er_netmap_on_recv api now g buf len nr port s = Inr (dst, g', s')"
  shows "module_inv (g', s')"
proof (cases g)
  case None
  then show ?thesis using assms(3) by (simp add: er_netmap_on_recv_def er_lookup_ring_def module_inv_def)
next
  case (Some r)
  then have r: "ring_inv r" "active r" using assms(1) by (simp_all add: module_inv_def)
  let ?p = "if idx (port0 r) = port then Some PORT0 else if idx (port1 r) = port then Some PORT1 else None"
  obtain b r' t where f: "er_forward_lookup api now r ?p buf len s = Inr (b, r', t)" and g: "g' = Some r'"
    using assms(3) Some r(2)
    by (auto simp: er_netmap_on_recv_def er_lookup_ring_def Let_def bind_res_Inr_iff split: if_splits prod.splits)
  from er_forward_lookup_inv [OF r(1) assms(2) f] r(2) show ?thesis
    by (simp add: g module_inv_def ring_cfg_def)
qed

lemma ioctl_inv:
  assumes "module_inv (g, s)" and "er_ioctl api now cmd data g s = Inr (err, data', g', s')"
  shows "module_inv (g', s')"
proof (cases "cmd = ERIOCINIT \<and> g = None \<and> data \<noteq> None")
  case True
  then obtain req where req: "data = Some req" by blast
  from True assms(2) have i: "er_ioctl_init api now req None s = Inr (err, g', s')"
    by (auto simp: er_ioctl_def req bind_res_Inr_iff)
  show ?thesis
  proof (cases g')
    case (Some r)
    obtain r0 s0 o' n where r: "r = (configure_ring req r0)\<lparr>active := True\<rparr>" "\<not> (o' \<noteq> 0 \<and> n \<noteq> 0)"
      and c: "er_ring_create api now (ucast (er_id req)) (er_port0 req) (er_port1 req) o' n (er_node_id req) s
        = Inr (Some r0, s0)"
      by (rule er_ioctl_init_ring [OF i [unfolded Some]])
    have "ring_inv r"
      using ring_started_inv [OF created_ring_inv(1) [OF c r(2)]]
      unfolding r(1) configure_ring_eq ring_inv_update .
    moreover have "active r" by (simp add: r(1))
    ultimately show ?thesis by (simp add: module_inv_def Some)
  qed (simp add: module_inv_def)
next
  case False
  then have "g' = g"
    using assms(2) by (cases data; cases cmd; cases g)
      (auto simp: er_ioctl_def er_ioctl_init_def er_lookup_ring_def)
  then show ?thesis using assms(1) by (simp add: module_inv_def)
qed

lemma module_step_inv: "module_step api m ev m' \<Longrightarrow> module_inv m \<Longrightarrow> module_inv m'"
proof (induction rule: module_step.induct)
  case (step_handler ev g s err g' s')
  then show ?case
    by (cases ev; cases g)
      (auto simp: er_module_handler_def er_module_init_def er_module_fini_def er_destroy_all_rings_def
        module_inv_def split: prod.splits if_splits)
qed (auto intro: ioctl_inv on_recv_inv)

interpretation erps: safe_machine module_start "module_step api" module_inv module_cut_off
  for api :: "'s kapi"
proof unfold_locales
  fix m :: "'s module_state"
  assume "module_inv m"
  then show "\<not> module_cut_off m"
    using ring_inv_not_both by (auto simp: module_inv_def module_cut_off_def split: option.splits)
next
  fix m :: "'s module_state"
  assume "module_start m"
  then show "module_inv m" by (simp add: module_start_def module_inv_def)
qed (rule module_step_inv)

section \<open>Properties\<close>

text \<open>Claim C2: from the moment the module is loaded, whatever ioctls, frames, loads and unloads
  follow and whatever the kernel answers to the module's calls, there is at most one ring, it is
  active and never has both its ports blocked.\<close>

theorem module_never_cuts_off:
  assumes "reach module_start (module_step api) (g, s)"
  shows "g = None \<or> (\<exists>r. g = Some r \<and> active r \<and> \<not> (is_blocked (port0 r) \<and> is_blocked (port1 r)))"
  using erps.reach_inv [OF assms] erps.reach_safe [OF assms]
  by (cases g) (simp_all add: module_inv_def module_cut_off_def blocked_def)

lemma module_never_cuts_off_witness:
  "\<exists>r s. reach module_start (module_step sample_api) (Some r, s) \<and> active r \<and>
     \<not> (is_blocked (port0 r) \<and> is_blocked (port1 r))"
proof -
  have "\<exists>e d r s'. er_ioctl sample_api 0 ERIOCINIT (Some sample_req) None sample_kstate = Inr (e, d, Some r, s')"
    by (rule sample_init) code_simp
  then obtain e d r s' where "er_ioctl sample_api 0 ERIOCINIT (Some sample_req) None sample_kstate = Inr (e, d, Some r, s')"
    by blast
  then have "module_step sample_api (None, sample_kstate) (Ioctl 0 ERIOCINIT (Some sample_req)) (Some r, s')"
    by (rule step_ioctl)
  moreover have "reach module_start (module_step sample_api) (None, sample_kstate)"
    by (rule reach_init) (simp add: module_start_def)
  ultimately have "reach module_start (module_step sample_api) (Some r, s')" by (blast intro: reach_step)
  from module_never_cuts_off [OF this] this show ?thesis by blast
qed

end
