(* ===== verification/Libc.thy ===== *)
theory Libc
  imports Prelude
begin

text \<open>
  The parts of the C library the command-line programs of the repository are written against:
  \<^verbatim>\<open>getopt\<close> and the loop around it, \<^verbatim>\<open>sscanf\<close> with the format \<^verbatim>\<open>"%x:%x:%x:%x:%x:%x"\<close>, and the
  \<^verbatim>\<open>"%02x:..."\<close> form in which a node id is printed. FreeBSD's behaviour, since that is the platform
  of the module: \<^verbatim>\<open>getopt\<close> stops at the first argument that is not an option, and its
  position is global to the process. Strings carry no NUL.
\<close>

section \<open>getopt\<close>

text \<open>\<open>place\<close> is what is left of the argument being scanned; empty stands for \<^verbatim>\<open>EMSG\<close>.\<close>

record getopt_st =
  optind :: nat
  place :: string
  optarg :: "string option"

definition getopt_start :: getopt_st where
  "getopt_start = \<lparr>optind = 1, place = [], optarg = None\<rparr>"

definition next_arg_if_done :: "getopt_st \<Rightarrow> getopt_st" where
  "next_arg_if_done g = (if place g = [] then g\<lparr>optind := Suc (optind g)\<rparr> else g)"

text \<open>An option letter \<open>c\<close> has been read. \<open>'?'\<close> is the answer to an unknown letter and to a missing
  argument.\<close>

definition getopt_letter :: "string list \<Rightarrow> string \<Rightarrow> char \<Rightarrow> getopt_st \<Rightarrow> char option \<times> getopt_st" where
  "getopt_letter argv ostr c g =
     (case dropWhile (\<lambda>x. x \<noteq> c) ostr of
        [] \<Rightarrow> (Some CHR ''?'', next_arg_if_done g)
      | _ # spec \<Rightarrow>
          if c = CHR '':'' then (Some CHR ''?'', next_arg_if_done g)
          else if take 1 spec \<noteq> '':'' then (Some c, next_arg_if_done (g\<lparr>optarg := None\<rparr>))
          else if place g \<noteq> [] then
            (Some c, g\<lparr>optarg := Some (place g), place := [], optind := Suc (optind g)\<rparr>)
          else if Suc (optind g) < length argv then
            (Some c, g\<lparr>optarg := Some (argv ! Suc (optind g)), place := [], optind := Suc (Suc (optind g))\<rparr>)
          else (Some CHR ''?'', g\<lparr>place := [], optind := Suc (optind g)\<rparr>))"

definition getopt :: "string list \<Rightarrow> string \<Rightarrow> getopt_st \<Rightarrow> char option \<times> getopt_st" where
  "getopt argv ostr g =
     (case place g of
        c # t \<Rightarrow> getopt_letter argv ostr c (g\<lparr>place := t\<rparr>)
      | [] \<Rightarrow>
          if length argv \<le> optind g then (None, g)
          else (case argv ! optind g of
              CHR ''-'' # c # t \<Rightarrow>
                if c = CHR ''-'' \<and> t = [] then (None, g\<lparr>optind := Suc (optind g)\<rparr>)
                else getopt_letter argv ostr c (g\<lparr>place := t\<rparr>)
            | _ \<Rightarrow> (None, g)))"

text \<open>
  \<^verbatim>\<open>while ((ch = getopt(...)) != -1)\<close>: the body may leave the function or the program (\<open>Inl\<close>) or go
  on. Nothing in the definition says that the loop ends.
\<close>

partial_function (option) opt_loop ::
  "string list \<Rightarrow> string \<Rightarrow> (char \<Rightarrow> string option \<Rightarrow> 'a \<Rightarrow> 'r + 'a) \<Rightarrow> 'a \<Rightarrow> getopt_st
     \<Rightarrow> ('r + 'a \<times> getopt_st) option" where
  "opt_loop argv ostr body a g =
     (case getopt argv ostr g of
        (None, g') \<Rightarrow> Some (Inr (a, g'))
      | (Some c, g') \<Rightarrow>
          (case body c (optarg g') a of
             Inl r \<Rightarrow> Some (Inl r)
           | Inr a' \<Rightarrow> opt_loop argv ostr body a' g'))"

text \<open>What is left to scan: every option read makes it smaller.\<close>

definition chars_left :: "string list \<Rightarrow> getopt_st \<Rightarrow> nat" where
  "chars_left argv g =
     (if place g = [] then sum_list (map (Suc \<circ> length) (drop (optind g) argv))
      else length (place g) + sum_list (map (Suc \<circ> length) (drop (Suc (optind g)) argv)))"

lemma chars_left_drop:
  "sum_list (map (Suc \<circ> length) (drop (Suc n) argv)) \<le> sum_list (map (Suc \<circ> length) (drop n argv))"
proof (cases "n < length argv")
  case True
  then show ?thesis by (simp add: Cons_nth_drop_Suc [symmetric])
next
  case False
  then show ?thesis by simp
qed

lemma getopt_letter_left:
  assumes "getopt_letter argv ostr c g = (Some c', g')"
  shows "chars_left argv g' \<le> length (place g) + sum_list (map (Suc \<circ> length) (drop (Suc (optind g)) argv))"
  using assms chars_left_drop [of "Suc (optind g)" argv]
  by (auto simp: getopt_letter_def next_arg_if_done_def chars_left_def split: list.splits if_splits)

lemma getopt_left:
  assumes "getopt argv ostr g = (Some c, g')"
  shows "chars_left argv g' < chars_left argv g"
proof (cases "place g")
  case (Cons a t)
  with assms have "getopt_letter argv ostr a (g\<lparr>place := t\<rparr>) = (Some c, g')" by (simp add: getopt_def)
  from getopt_letter_left [OF this] Cons show ?thesis by (simp add: chars_left_def)
next
  case Nil
  with assms have i: "optind g < length argv" by (auto simp: getopt_def split: if_splits)
  from assms Nil i obtain a t where a: "argv ! optind g = CHR ''-'' # a # t"
    and l: "getopt_letter argv ostr a (g\<lparr>place := t\<rparr>) = (Some c, g')"
    by (auto simp: getopt_def split: list.splits char.splits if_splits bool.splits)
  from getopt_letter_left [OF l] Nil a show ?thesis
    by (simp add: chars_left_def Cons_nth_drop_Suc [OF i, symmetric])
qed

lemma opt_loop_returns: "\<exists>res. opt_loop argv ostr body a g = Some res"
proof (induction "chars_left argv g" arbitrary: a g rule: less_induct)
  case less
  obtain co g' where g: "getopt argv ostr g = (co, g')" by fastforce
  show ?case
  proof (cases co)
    case None
    then show ?thesis by (simp add: opt_loop.simps [of argv] g)
  next
    case (Some c)
    have "chars_left argv g' < chars_left argv g" using getopt_left g Some by blast
    from less [OF this] Some show ?thesis
      by (cases "body c (optarg g') a") (simp_all add: opt_loop.simps [of argv ostr body a g] g)
  qed
qed

text \<open>What the body keeps holds when the loop is through.\<close>

lemma opt_loop_inv:
  assumes "opt_loop argv ostr body a g = Some (Inr (a', g'))" and "P a"
    and "\<And>c arg a a'. body c arg a = Inr a' \<Longrightarrow> P a \<Longrightarrow> P a'"
  shows "P a'"
  using assms(1,2)
proof (induction "chars_left argv g" arbitrary: a g rule: less_induct)
  case less
  obtain co g1 where g: "getopt argv ostr g = (co, g1)" by fastforce
  show ?case
  proof (cases co)
    case None
    with less.prems g show ?thesis by (simp add: opt_loop.simps [of argv ostr body a g])
  next
    case (Some c)
    with less.prems(1) g obtain a1 where a1: "body c (optarg g1) a = Inr a1"
      "opt_loop argv ostr body a1 g1 = Some (Inr (a', g'))"
      by (auto simp: opt_loop.simps [of argv ostr body a g] split: sum.splits)
    have "chars_left argv g1 < chars_left argv g" using getopt_left g Some by blast
    from less.hyps [OF this a1(2)] assms(3) [OF a1(1) less.prems(2)] show ?thesis .
  qed
qed

text \<open>An argument that is not an option ends the scan at once.\<close>

definition plain_arg :: "string \<Rightarrow> bool" where
  "plain_arg a \<longleftrightarrow> NUL \<notin> set a \<and> (a = [] \<or> hd a \<noteq> CHR ''-'')"

lemma getopt_plain:
  assumes "optind g < length argv" and "plain_arg (argv ! optind g)" and "place g = []"
  shows "getopt argv ostr g = (None, g)"
  using assms by (cases "argv ! optind g") (auto simp: getopt_def plain_arg_def split: list.split char.split bool.split)

lemma opt_loop_plain:
  "optind g < length argv \<Longrightarrow> plain_arg (argv ! optind g) \<Longrightarrow> place g = [] \<Longrightarrow>
     opt_loop argv ostr body a g = Some (Inr (a, g))"
  by (subst opt_loop.simps) (simp add: getopt_plain)

lemma opt_loop_arg:
  assumes "place g = []" and "Suc (optind g) < length argv" and "argv ! optind g = [CHR ''-'', c]"
    and "dropWhile (\<lambda>x. x \<noteq> c) ostr = c # CHR '':'' # rest" and "c \<notin> {CHR '':'', CHR ''-''}"
  shows "opt_loop argv ostr body a g =
    (case body c (Some (argv ! Suc (optind g))) a of
       Inl r \<Rightarrow> Some (Inl r)
     | Inr a' \<Rightarrow> opt_loop argv ostr body a'
         (g\<lparr>optarg := Some (argv ! Suc (optind g)), optind := Suc (Suc (optind g))\<rparr>))"
proof -
  have "getopt argv ostr g = (Some c, g\<lparr>optarg := Some (argv ! Suc (optind g)), optind := Suc (Suc (optind g))\<rparr>)"
    using assms by (cases g) (simp add: getopt_def getopt_letter_def)
  then show ?thesis by (subst opt_loop.simps) simp
qed

section \<open>sscanf\<close>

definition is_space :: "char \<Rightarrow> bool" where
  "is_space c \<longleftrightarrow> of_char c = (32 :: nat) \<or> 9 \<le> (of_char c :: nat) \<and> of_char c \<le> (13 :: nat)"

definition hex_val :: "char \<Rightarrow> nat option" where
  "hex_val c = (let n = of_char c in
     if 48 \<le> n \<and> n \<le> 57 then Some (n - 48)
     else if 97 \<le> n \<and> n \<le> 102 then Some (n - 87)
     else if 65 \<le> n \<and> n \<le> 70 then Some (n - 55)
     else None)"

definition is_xdigit :: "char \<Rightarrow> bool" where
  "is_xdigit c \<longleftrightarrow> hex_val c \<noteq> None"

definition hex_value :: "string \<Rightarrow> nat" where
  "hex_value ds = foldl (\<lambda>n d. 16 * n + the (hex_val d)) 0 ds"

text \<open>
  One \<^verbatim>\<open>%x\<close>: white space, an optional sign, an optional \<^verbatim>\<open>0x\<close> that is followed by a digit, digits.
  The digits are converted by \<^verbatim>\<open>strtoumax\<close>, which saturates at 64 bits, and stored into an
  \<^verbatim>\<open>unsigned int\<close>. The rest of the input is returned; no digit is a matching failure.
\<close>

fun scan_sign :: "string \<Rightarrow> bool \<times> string" where
  "scan_sign (c # s) = (if c = CHR ''-'' then (True, s) else if c = CHR ''+'' then (False, s) else (False, c # s))"
| "scan_sign [] = (False, [])"

fun scan_prefix :: "string \<Rightarrow> string" where
  "scan_prefix (z # x # d # s) =
     (if z = CHR ''0'' \<and> x \<in> {CHR ''x'', CHR ''X''} \<and> is_xdigit d then d # s else z # x # d # s)"
| "scan_prefix s = s"

definition scan_x :: "string \<Rightarrow> (u32 \<times> string) option" where
  "scan_x s =
     (case scan_sign (dropWhile is_space s) of (neg, t) \<Rightarrow>
      let u = scan_prefix t; ds = takeWhile is_xdigit u; n = hex_value ds;
          v = (if 2 ^ 64 \<le> n then - 1 else if neg then - of_nat n else of_nat n :: 64 word)
      in if ds = [] then None else Some (ucast v, dropWhile is_xdigit u))"

text \<open>The values a format of \<open>n\<close> fields stores: those before the first failure.\<close>

fun scan_fields :: "nat \<Rightarrow> string \<Rightarrow> u32 list" where
  "scan_fields 0 s = []"
| "scan_fields (Suc n) s =
     (case scan_x s of
        None \<Rightarrow> []
      | Some (v, t) \<Rightarrow> v # (if n = 0 then [] else
          (case t of c # t' \<Rightarrow> if c = CHR '':'' then scan_fields n t' else [] | [] \<Rightarrow> [])))"

text \<open>
  \<^verbatim>\<open>sscanf(str, "%x:%x:%x:%x:%x:%x", mac+0, ...)\<close> on an array \<open>mac\<close>: fields that are not reached
  keep what the array held, which is uninitialised at the first call.
\<close>

definition sscanf_mac :: "string \<Rightarrow> u32 list \<Rightarrow> u32 list" where
  "sscanf_mac str mac = (let vs = scan_fields 6 str in vs @ drop (length vs) mac)"

lemma scan_fields_length: "length (scan_fields n s) \<le> n"
  by (induction n s rule: scan_fields.induct) (auto split: option.split list.split)

lemma sscanf_mac_length: "length mac = 6 \<Longrightarrow> length (sscanf_mac str mac) = 6"
  using scan_fields_length [of 6 str] by (simp add: sscanf_mac_def Let_def)

section \<open>Printing a node id\<close>

definition hex_digit :: "nat \<Rightarrow> char" where
  "hex_digit n = ''0123456789abcdef'' ! n"

definition show_02x :: "u8 \<Rightarrow> string" where
  "show_02x b = [hex_digit (unat b div 16), hex_digit (unat b mod 16)]"

fun show_mac :: "bytes \<Rightarrow> string" where
  "show_mac [] = []"
| "show_mac [b] = show_02x b"
| "show_mac (b # bs) = show_02x b @ '':'' @ show_mac bs"

lemma hex_digit_sel:
  assumes "n < 16"
  shows "hex_val (hex_digit n) = Some n" "is_xdigit (hex_digit n)" "\<not> is_space (hex_digit n)"
    "hex_digit n \<notin> {CHR ''-'', CHR ''+'', CHR ''x'', CHR ''X''}"
proof -
  have "\<forall>n\<in>set [0..<16]. hex_val (hex_digit n) = Some n \<and> is_xdigit (hex_digit n) \<and> \<not> is_space (hex_digit n) \<and>
      hex_digit n \<notin> {CHR ''-'', CHR ''+'', CHR ''x'', CHR ''X''}"
    by (simp add: upt_rec hex_digit_def hex_val_def Let_def is_xdigit_def is_space_def)
  moreover have "n \<in> set [0..<16]" using assms by simp
  ultimately show "hex_val (hex_digit n) = Some n" "is_xdigit (hex_digit n)" "\<not> is_space (hex_digit n)"
    "hex_digit n \<notin> {CHR ''-'', CHR ''+'', CHR ''x'', CHR ''X''}" by blast+
qed

lemma scan_x_show:
  assumes "t = [] \<or> \<not> is_xdigit (hd t)"
  shows "scan_x (show_02x b @ t) = Some (ucast b, t)"
proof -
  have n: "unat b < 256" using unsigned_less [of b, where 'a = nat] by simp
  then have hl: "unat b div 16 < 16" "unat b mod 16 < 16" by auto
  have pre: "scan_prefix (hex_digit (unat b div 16) # hex_digit (unat b mod 16) # t) =
      hex_digit (unat b div 16) # hex_digit (unat b mod 16) # t"
    using hex_digit_sel(4) [OF hl(2)] by (cases t) auto
  have tk: "takeWhile is_xdigit t = []" "dropWhile is_xdigit t = t" using assms by (cases t; simp)+
  have v: "hex_value [hex_digit (unat b div 16), hex_digit (unat b mod 16)] = unat b"
    by (simp add: hex_value_def hex_digit_sel(1) [OF hl(1)] hex_digit_sel(1) [OF hl(2)])
  have u: "(ucast (ucast b :: 64 word) :: u32) = ucast b"
    by (rule bit_word_eqI) (auto simp: bit_simps)
  show ?thesis
    using hex_digit_sel(2,3) [OF hl(1)] hex_digit_sel(2) [OF hl(2)] hex_digit_sel(4) [OF hl(1)] n
    by (simp add: scan_x_def show_02x_def pre tk v u)
qed

text \<open>A printed node id is read back, whatever the array held.\<close>

lemma scan_fields_show:
  "bs \<noteq> [] \<Longrightarrow> scan_fields (length bs) (show_mac bs) = map ucast bs"
proof (induction bs rule: show_mac.induct)
  case 1
  then show ?case by simp
next
  case (2 b)
  then show ?case using scan_x_show [of "[]" b] by simp
next
  case (3 b c bs)
  have "\<not> is_xdigit CHR '':''" by (simp add: is_xdigit_def hex_val_def)
  then have "scan_x (show_02x b @ CHR '':'' # show_mac (c # bs)) = Some (ucast b, CHR '':'' # show_mac (c # bs))"
    by (intro scan_x_show) simp
  with 3 show ?case by simp
qed

lemma sscanf_show:
  assumes "length nid = 6" and "length mac = 6"
  shows "map ucast (sscanf_mac (show_mac nid) mac) = nid"
proof -
  have "nid \<noteq> []" using assms(1) by auto
  moreover have "(ucast (ucast b :: u32) :: u8) = b" for b
    by (rule bit_word_eqI) (auto simp: bit_simps)
  then have "map (ucast \<circ> (ucast :: u8 \<Rightarrow> u32)) nid = nid" by (simp add: map_idI)
  ultimately show ?thesis
    using scan_fields_show [of nid] assms by (simp add: sscanf_mac_def Let_def)
qed

lemma show_mac_length: "length (show_mac bs) = 3 * length bs - 1"
  by (induction bs rule: show_mac.induct) (auto simp: show_02x_def)

end
