(* ===== verification/Ctl.thy ===== *)
theory Ctl
  imports Libc Ioctl
begin

text \<open>
  The control tool: \<^verbatim>\<open>src/src/usr.sbin/erps-ctl/erps-ctl.c\<close>. A program run is a function of the
  argument vector, of what its uninitialised arrays hold, and of the device \<open>'k\<close> behind
  \<^verbatim>\<open>/dev/erps\<close>, whose \<^verbatim>\<open>ioctl\<close> is an argument. \<open>None\<close> would be a run that does not end. Messages on
  \<^verbatim>\<open>stderr\<close> are left out; of \<^verbatim>\<open>stdout\<close>, the verbose log of \<^verbatim>\<open>do_ioctl\<close> appears only through the
  strings it reads.
\<close>

section \<open>The tool\<close>

text \<open>A \<^verbatim>\<open>%s\<close> of a character array without NUL reads past its end.\<close>

definition print_s :: "string \<Rightarrow> fault + string" where
  "print_s a = (if NUL \<in> set a then Inr (cstr a) else Inl OutOfBounds)"

text \<open>How a function ends: it returns, or the program exits.\<close>

datatype 'a ended = Returned 'a | Exit int

type_synonym 'k ioctl_fun = "ioctl_cmd \<Rightarrow> erreq \<Rightarrow> 'k \<Rightarrow> fault + (int \<times> erreq \<times> 'k)"

definition erreq_zero :: erreq where
  "erreq_zero = \<lparr>er_port0 = replicate IFNAMSIZ NUL, er_port1 = replicate IFNAMSIZ NUL,
     er_port0_failed = 0, er_port1_failed = 0, er_port0_blocked = 0, er_port1_blocked = 0,
     er_node_id = replicate 6 0, er_id = 0, er_version = 0, er_guard_time = 0, er_wtr_time = 0,
     er_raps_vid = 0, er_revertive = 0, er_rpl_port = 0, er_rpl_owner = 0, er_rpl_neighbour = 0,
     er_cmd = 0\<rparr>"

definition do_ioctl :: "'k ioctl_fun \<Rightarrow> 'k ioctl_fun" where
  "do_ioctl ioctl cmd req k =
     bind_res (print_s (er_port0 req)) (\<lambda>_.
     bind_res (print_s (er_port1 req)) (\<lambda>_.
     bind_res (ioctl cmd req k) (\<lambda>(res, req', k').
     bind_res (print_s (er_port0 req')) (\<lambda>_.
     bind_res (print_s (er_port1 req')) (\<lambda>_. Inr (res, req', k'))))))"

definition status_line :: "string \<Rightarrow> u8 \<Rightarrow> u8 \<Rightarrow> string" where
  "status_line name blk failed = name @ '' '' @ (if blk \<noteq> 0 then ''blocked'' else ''forwarding'') @
     '' '' @ (if failed \<noteq> 0 then ''failed'' else [])"

definition show_ring_status :: "'k ioctl_fun \<Rightarrow> 'k \<Rightarrow> fault + (string list ended \<times> 'k)" where
  "show_ring_status ioctl k =
     (let req = erreq_zero\<lparr>er_id := 1\<rparr> in
      bind_res (do_ioctl ioctl ERIOCSTATUS req k) (\<lambda>(ret, req, k).
      if ret \<noteq> 0 then Inr (Exit 1, k)
      else bind_res (print_s (er_port0 req)) (\<lambda>name0.
           bind_res (print_s (er_port1 req)) (\<lambda>name1.
           Inr (Returned [status_line name0 (er_port0_blocked req) (er_port0_failed req),
                          status_line name1 (er_port1_blocked req) (er_port1_failed req)], k)))))"

definition ring_command :: "'k ioctl_fun \<Rightarrow> u16 \<Rightarrow> string option \<Rightarrow> 'k \<Rightarrow> fault + (string list ended \<times> 'k)" where
  "ring_command ioctl command port k =
     (let req = erreq_zero\<lparr>er_id := 1\<rparr>;
          req = req\<lparr>er_cmd := command\<rparr>;
          req = (case port of None \<Rightarrow> req | Some p \<Rightarrow> req\<lparr>er_port0 := strncpy IFNAMSIZ p\<rparr>)
      in bind_res (do_ioctl ioctl ERIOCCOMMAND req k) (\<lambda>(ret, req, k).
         if ret \<noteq> 0 then Inr (Exit 1, k) else Inr (Returned [''command issued''], k)))"

text \<open>The local variables of \<^verbatim>\<open>init_ring\<close>. \<open>mac\<close> is not initialised.\<close>

record init_vars =
  iv_owner :: bool
  iv_neighbour :: bool
  iv_rpl :: "string option"
  iv_mac :: "u32 list"
  iv_node_id :: bytes

fun init_option :: "char \<Rightarrow> string option \<Rightarrow> init_vars \<Rightarrow> bool ended + init_vars" where
  "init_option ch arg v =
     (if ch = CHR ''o'' then Inr (v\<lparr>iv_owner := True, iv_rpl := arg\<rparr>)
      else if ch = CHR ''n'' then Inr (v\<lparr>iv_neighbour := True, iv_rpl := arg\<rparr>)
      else if ch = CHR ''i'' then
        (case arg of
           None \<Rightarrow> Inl (Exit 1)
         | Some a \<Rightarrow>
             if length a \<noteq> 17 then Inl (Exit 1)
             else let mac = sscanf_mac a (iv_mac v) in
               Inr (v\<lparr>iv_mac := mac, iv_node_id := map ucast mac\<rparr>))
      else if ch = CHR ''h'' then Inl (Returned False)
      else Inr v)"

text \<open>From the argument check to the \<^verbatim>\<open>ioctl\<close>; \<open>args\<close> is \<^verbatim>\<open>argv + optind\<close>.\<close>

definition init_request :: "init_vars \<Rightarrow> string \<Rightarrow> string \<Rightarrow> erreq option" where
  "init_request v port0_name port1_name =
     (let req = erreq_zero\<lparr>er_id := 1, er_version := 2, er_node_id := take 6 (iv_node_id v),
            er_port0 := strncpy IFNAMSIZ port0_name, er_port1 := strncpy IFNAMSIZ port1_name\<rparr>;
          rpl = (case iv_rpl v of
                   None \<Rightarrow> Some 0
                 | Some p \<Rightarrow> if p = port0_name then Some 1 else if p = port1_name then Some 2 else None)
      in case rpl of None \<Rightarrow> None
         | Some n \<Rightarrow>
             let req = req\<lparr>er_rpl_port := n\<rparr>;
                 req = (if iv_owner v then req\<lparr>er_rpl_owner := 1\<rparr> else req)
             in Some (if iv_neighbour v then req\<lparr>er_rpl_neighbour := 1\<rparr> else req))"

definition init_ring_args :: "'k ioctl_fun \<Rightarrow> init_vars \<Rightarrow> string list \<Rightarrow> 'k \<Rightarrow> fault + (bool ended \<times> 'k)" where
  "init_ring_args ioctl v args k =
     (case args of
        [port0_name, port1_name] \<Rightarrow>
          (case init_request v port0_name port1_name of
             None \<Rightarrow> Inr (Returned False, k)
           | Some req \<Rightarrow>
               bind_res (do_ioctl ioctl ERIOCINIT req k) (\<lambda>(ret, _, k).
               if ret \<noteq> 0 then Inr (Returned False, k) else Inr (Returned True, k)))
      | _ \<Rightarrow> Inr (Returned False, k))"

text \<open>The position of \<^verbatim>\<open>getopt\<close> is the one \<^verbatim>\<open>main\<close> left behind.\<close>

definition init_ring ::
  "'k ioctl_fun \<Rightarrow> u32 list \<Rightarrow> string list \<Rightarrow> getopt_st \<Rightarrow> 'k \<Rightarrow> (fault + (bool ended \<times> 'k)) option" where
  "init_ring ioctl junk argv g k =
     (case opt_loop argv ''o:n:i:h'' init_option
             \<lparr>iv_owner = False, iv_neighbour = False, iv_rpl = None, iv_mac = junk, iv_node_id = replicate 6 0\<rparr> g of
        None \<Rightarrow> None
      | Some (Inl e) \<Rightarrow> Some (Inr (e, k))
      | Some (Inr (v, g')) \<Rightarrow> Some (init_ring_args ioctl v (drop (optind g') argv) k))"

text \<open>What \<^verbatim>\<open>main\<close> does with a command: the output and the exit status.\<close>

abbreviation (input) ERPS_CLEAR :: u16 where "ERPS_CLEAR \<equiv> 1"
abbreviation (input) ERPS_MS :: u16 where "ERPS_MS \<equiv> 2"
abbreviation (input) ERPS_FS :: u16 where "ERPS_FS \<equiv> 3"
abbreviation (input) ERPS_FAIL :: u16 where "ERPS_FAIL \<equiv> 4"
abbreviation (input) ERPS_RECOVER :: u16 where "ERPS_RECOVER \<equiv> 5"

definition printed :: "fault + (string list ended \<times> 'k) \<Rightarrow> fault + (int \<times> string list \<times> 'k)" where
  "printed m = bind_res m (\<lambda>(e, k). Inr (case e of Exit c \<Rightarrow> (c, [], k) | Returned out \<Rightarrow> (0, out, k)))"

definition ctl_command ::
  "'k ioctl_fun \<Rightarrow> u32 list \<Rightarrow> string list \<Rightarrow> getopt_st \<Rightarrow> 'k \<Rightarrow> (fault + (int \<times> string list \<times> 'k)) option" where
  "ctl_command ioctl junk argv g k =
     (case argv of
        [] \<Rightarrow> Some (Inl NullPtr)
      | cmd # rest \<Rightarrow>
          if cmd = ''clear'' then Some (printed (ring_command ioctl ERPS_CLEAR None k))
          else if cmd = ''info'' \<or> cmd = ''status'' then Some (printed (show_ring_status ioctl k))
          else if cmd = ''init'' then
            (if length argv < 3 then Some (Inr (1, [], k))
             else map_option (\<lambda>m. bind_res m (\<lambda>(e, k). Inr (case e of Exit c \<Rightarrow> (c, [], k) | Returned _ \<Rightarrow> (0, [], k))))
                    (init_ring ioctl junk argv g k))
          else (case rest of
              [] \<Rightarrow> Some (Inr (1, [], k))
            | port # _ \<Rightarrow>
                if cmd = ''fs'' then Some (printed (ring_command ioctl ERPS_FS (Some port) k))
                else if cmd = ''ms'' then Some (printed (ring_command ioctl ERPS_MS (Some port) k))
                else if cmd = ''fail'' then Some (printed (ring_command ioctl ERPS_FAIL (Some port) k))
                else if cmd = ''recover'' then Some (printed (ring_command ioctl ERPS_RECOVER (Some port) k))
                else Some (Inr (1, [], k))))"

fun main_option :: "char \<Rightarrow> string option \<Rightarrow> unit \<Rightarrow> int + unit" where
  "main_option ch arg u = (if ch = CHR ''h'' \<or> ch = CHR ''?'' then Inl 0 else Inr u)"

definition erps_ctl_main ::
  "'k ioctl_fun \<Rightarrow> bool \<Rightarrow> u32 list \<Rightarrow> string list \<Rightarrow> 'k \<Rightarrow> (fault + (int \<times> string list \<times> 'k)) option" where
  "erps_ctl_main ioctl dev_opens junk argv k =
     (if length argv < 2 then Some (Inr (1, [], k))
      else if \<not> dev_opens then Some (Inr (1, [], k))
      else (case opt_loop argv ''h'' main_option () getopt_start of
              None \<Rightarrow> None
            | Some (Inl code) \<Rightarrow> Some (Inr (code, [], k))
            | Some (Inr (_, g)) \<Rightarrow> ctl_command ioctl junk (drop (optind g) argv) g k))"

text \<open>
  The system call between the tool and the module: \<^verbatim>\<open>ioctl(2)\<close> hands the block to the driver,
  answers 0 or -1, and copies the block back after a command declared with \<^verbatim>\<open>_IOWR\<close> that succeeded.
\<close>

definition sys_ioctl :: "'s kapi \<Rightarrow> i32 \<Rightarrow> (er_ring option \<times> 's) ioctl_fun" where
  "sys_ioctl api now cmd req = (\<lambda>(g, s).
     bind_res (er_ioctl api now cmd (Some req) g s) (\<lambda>(err, data, g', s').
       Inr (if err = 0 then 0 else - 1,
            if err = 0 \<and> cmd \<in> {ERIOCSTATUS, ERIOCCOMMAND} then (case data of None \<Rightarrow> req | Some d \<Rightarrow> d) else req,
            (g', s'))))"

section \<open>Every run ends\<close>

text \<open>Claim C13: a run of the control tool ends whatever arguments it is given, and whatever the
  device answers: the two option loops, which share one scanning position, leave less of the
  argument vector to scan with every option.\<close>

theorem erps_ctl_returns:
  "\<exists>res. erps_ctl_main ioctl dev_opens junk argv k = Some res"
proof -
  have init: "\<exists>res. init_ring ioctl junk args g k = Some res" for args g
  proof -
    let ?v = "\<lparr>iv_owner = False, iv_neighbour = False, iv_rpl = None, iv_mac = junk, iv_node_id = replicate 6 0\<rparr>"
    obtain r where "opt_loop args ''o:n:i:h'' init_option ?v g = Some r"
      using opt_loop_returns [of args "''o:n:i:h''" init_option ?v g] by blast
    then show ?thesis by (cases r) (auto simp: init_ring_def)
  qed
  have cmd: "\<exists>res. ctl_command ioctl junk args g k = Some res" for args g
    using init [of args g] by (auto simp: ctl_command_def split: list.split)
  obtain r where r: "opt_loop argv ''h'' main_option () getopt_start = Some r"
    using opt_loop_returns [of argv "''h''" main_option "()" getopt_start] by blast
  show ?thesis
  proof (cases r)
    case (Inl code)
    with r show ?thesis by (simp add: erps_ctl_main_def)
  next
    case (Inr x)
    with r cmd [of "drop (optind (snd x)) argv" "snd x"] show ?thesis
      by (simp add: erps_ctl_main_def split_def)
  qed
qed

section \<open>Every request is well-formed\<close>

text \<open>The types of \<^verbatim>\<open>struct erreq\<close> that HOL's lists and words do not carry by themselves.\<close>

definition erreq_typed :: "erreq \<Rightarrow> bool" where
  "erreq_typed req \<longleftrightarrow> length (er_port0 req) = IFNAMSIZ \<and> length (er_port1 req) = IFNAMSIZ \<and>
     length (er_node_id req) = 6 \<and> er_id req = 1 \<and> er_version req \<in> {0, 2} \<and> er_rpl_port req \<in> {0, 1, 2} \<and>
     er_rpl_owner req \<in> {0, 1} \<and> er_rpl_neighbour req \<in> {0, 1} \<and> er_cmd req \<le> ERPS_RECOVER"

text \<open>A device that stops the run at an ill-formed request.\<close>

definition checked :: "'k ioctl_fun \<Rightarrow> 'k ioctl_fun" where
  "checked ioctl cmd req k = (if erreq_typed req then ioctl cmd req k else Inl Aborted)"

lemma do_ioctl_checked: "erreq_typed req \<Longrightarrow> do_ioctl (checked ioctl) cmd req k = do_ioctl ioctl cmd req k"
  by (simp add: do_ioctl_def checked_def)

lemma ring_command_checked:
  "c \<le> ERPS_RECOVER \<Longrightarrow> ring_command (checked ioctl) c port k = ring_command ioctl c port k"
  by (simp add: ring_command_def Let_def)
    (subst do_ioctl_checked, simp_all add: erreq_typed_def erreq_zero_def split: option.split)

lemma show_ring_status_checked: "show_ring_status (checked ioctl) k = show_ring_status ioctl k"
  by (simp add: show_ring_status_def Let_def)
    (subst do_ioctl_checked, simp_all add: erreq_typed_def erreq_zero_def)

definition vars_typed :: "init_vars \<Rightarrow> bool" where
  "vars_typed v \<longleftrightarrow> length (iv_mac v) = 6 \<and> length (iv_node_id v) = 6"

lemma init_option_typed: "init_option c arg v = Inr v' \<Longrightarrow> vars_typed v \<Longrightarrow> vars_typed v'"
  by (auto simp: vars_typed_def sscanf_mac_length Let_def split: if_splits option.splits)

lemma init_request_typed: "init_request v p0 p1 = Some req \<Longrightarrow> vars_typed v \<Longrightarrow> erreq_typed req"
  by (auto simp: init_request_def vars_typed_def erreq_typed_def erreq_zero_def Let_def split: option.splits if_splits)

lemma init_ring_checked:
  assumes "length junk = 6"
  shows "init_ring (checked ioctl) junk argv g k = init_ring ioctl junk argv g k"
proof -
  let ?v = "\<lparr>iv_owner = False, iv_neighbour = False, iv_rpl = None, iv_mac = junk, iv_node_id = replicate 6 0\<rparr>"
  have args: "init_ring_args (checked ioctl) v args k = init_ring_args ioctl v args k" if "vars_typed v" for v args
    by (simp add: init_ring_args_def do_ioctl_checked [OF init_request_typed [OF _ that]] split: list.split option.split)
  have "vars_typed v" if "opt_loop argv ''o:n:i:h'' init_option ?v g = Some (Inr (v, g'))" for v g'
    using that by (rule opt_loop_inv [where P = vars_typed]) (simp_all add: vars_typed_def assms, use init_option_typed in \<open>simp add: vars_typed_def\<close>)
  then show ?thesis using args by (auto simp: init_ring_def split: option.split sum.split)
qed

text \<open>Claim C26: whatever its arguments, the tool hands the device well-formed requests only: names that
  fill their 16 bytes, a node id of six bytes, ring 1, a role and a protection link in their
  ranges. A device that checks this gives the same run as one that does not.\<close>

theorem ctl_requests_typed:
  assumes "length junk = 6"
  shows "erps_ctl_main (checked ioctl) dev_opens junk argv k = erps_ctl_main ioctl dev_opens junk argv k"
proof -
  have "ctl_command (checked ioctl) junk args g k = ctl_command ioctl junk args g k" for args g
    by (auto simp: ctl_command_def ring_command_checked show_ring_status_checked init_ring_checked [OF assms]
        split: list.split)
  then show ?thesis by (auto simp: erps_ctl_main_def split: option.split sum.split)
qed

lemma ctl_requests_typed_witness:
  "erps_ctl_main (checked (sys_ioctl sample_api 0)) True [1, 2, 3, 4, 5, 6] [''erps-ctl'', ''status''] (None, sample_kstate) =
   erps_ctl_main (sys_ioctl sample_api 0) True [1, 2, 3, 4, 5, 6] [''erps-ctl'', ''status''] (None, sample_kstate)"
  by (rule ctl_requests_typed) simp

section \<open>The tool against the module\<close>

lemma print_s_strncpy:
  "print_s (strncpy n a) = (if length (cstr a) < n then Inr (cstr a) else Inl OutOfBounds)"
proof -
  have "NUL \<in> set (strncpy n a) \<longleftrightarrow> length (cstr a) < n"
    using NUL_notin_cstr [of a] by (auto simp: strncpy_def dest: in_set_takeD)
  then show ?thesis by (simp add: print_s_def cstr_strncpy)
qed

lemma print_s_zero: "print_s (replicate IFNAMSIZ NUL) = Inr []"
  by (simp add: print_s_def cstr_def numeral_eq_Suc)

lemma main_command:
  assumes "plain_arg cmd"
  shows "erps_ctl_main ioctl True junk (prog # cmd # args) k = ctl_command ioctl junk (cmd # args) getopt_start k"
proof -
  have "opt_loop (prog # cmd # args) ''h'' main_option () getopt_start = Some (Inr ((), getopt_start))"
    using assms by (intro opt_loop_plain) (simp_all add: getopt_start_def)
  then show ?thesis by (simp add: erps_ctl_main_def) (simp add: getopt_start_def)
qed

text \<open>Claim C27: the commands that would switch the ring never work. Whatever ring the module has
  and whatever further arguments follow, \<^verbatim>\<open>clear\<close>, with and without a port, \<^verbatim>\<open>ms\<close>, \<^verbatim>\<open>fs\<close>, \<^verbatim>\<open>fail\<close>
  and \<^verbatim>\<open>recover\<close> end with exit status 1 and without effect, except that a port name of 16
  characters or more, which fills its field, is read past the end before the device is even
  asked.\<close>

theorem ctl_commands_refused:
  assumes "cmd \<in> {''clear'', ''ms'', ''fs'', ''fail'', ''recover''}" and "\<forall>a\<in>set args. NUL \<notin> set a"
  shows "erps_ctl_main (sys_ioctl api now) True junk (prog # cmd # args) (g, s) =
    Some (case args of
        port # _ \<Rightarrow> if cmd = ''clear'' \<or> length port < 16 then Inr (1, [], (g, s)) else Inl OutOfBounds
      | [] \<Rightarrow> Inr (1, [], (g, s)))"
proof -
  have io: "sys_ioctl api now ERIOCCOMMAND req (g, s) = Inr (- 1, req, (g, s))" for req
    by (cases g) (simp_all add: sys_ioctl_def er_ioctl_def er_lookup_ring_def)
  have cmd0: "ring_command (sys_ioctl api now) c None (g, s) = Inr (Exit 1, (g, s))" for c
    by (simp add: ring_command_def do_ioctl_def io erreq_zero_def print_s_zero)
  have cmd1: "ring_command (sys_ioctl api now) c (Some port) (g, s) =
      (if length port < 16 then Inr (Exit 1, (g, s)) else Inl OutOfBounds)" if "NUL \<notin> set port" for c port
    using that by (simp add: ring_command_def do_ioctl_def io erreq_zero_def print_s_zero print_s_strncpy cstr_id)
  have "plain_arg cmd" using assms(1) by (auto simp: plain_arg_def)
  note main = main_command [OF this, of "sys_ioctl api now" junk prog args "(g, s)"]
  show ?thesis
  proof (cases args)
    case Nil
    from assms(1) show ?thesis unfolding main unfolding Nil
      by (elim insertE emptyE) (simp_all add: ctl_command_def printed_def cmd0)
  next
    case (Cons port more)
    with assms(2) have n: "NUL \<notin> set port" by simp
    from assms(1) show ?thesis unfolding main unfolding Cons
      by (elim insertE emptyE) (simp_all add: ctl_command_def printed_def cmd0 cmd1 [OF n])
  qed
qed

lemma ctl_commands_refused_witness:
  "erps_ctl_main (sys_ioctl sample_api 0) True [] [''erps-ctl'', ''fs'', ''em0''] (Some (sample_ring True), sample_kstate) =
     Some (Inr (1, [], (Some (sample_ring True), sample_kstate))) \<and>
   erps_ctl_main (sys_ioctl sample_api 0) True [] [''erps-ctl'', ''clear''] (Some (sample_ring True), sample_kstate) =
     Some (Inr (1, [], (Some (sample_ring True), sample_kstate))) \<and>
   erps_ctl_main (sys_ioctl sample_api 0) True [] [''erps-ctl'', ''ms'', ''interface-number0''] (None, sample_kstate) =
     Some (Inl OutOfBounds)"
  using ctl_commands_refused [of "''fs''" "[''em0'']" sample_api 0 "[]" "''erps-ctl''" "Some (sample_ring True)" sample_kstate]
    ctl_commands_refused [of "''clear''" "[]" sample_api 0 "[]" "''erps-ctl''" "Some (sample_ring True)" sample_kstate]
    ctl_commands_refused [of "''ms''" "[''interface-number0'']" sample_api 0 "[]" "''erps-ctl''" None sample_kstate]
  by simp

text \<open>Claim C28: \<^verbatim>\<open>status\<close> prints the two ports of the ring as the module holds them and changes
  nothing; without a ring it ends with exit status 1. A port name that fills its field cannot
  be printed.\<close>

theorem ctl_status_prints_ring:
  "erps_ctl_main (sys_ioctl api now) True junk [prog, ''status''] (g, s) =
     Some (case g of
         None \<Rightarrow> Inr (1, [], (g, s))
       | Some r \<Rightarrow>
           if length (cstr (port_name (port0 r))) < 16 \<and> length (cstr (port_name (port1 r))) < 16
           then Inr (0, map (\<lambda>p. status_line (cstr (port_name (get_port p r)))
               (u8_of_bool (blocked p r)) (u8_of_bool (is_failed (get_port p r)))) [PORT0, PORT1], (g, s))
           else Inl OutOfBounds)"
proof -
  have zero: "print_s (er_port0 erreq_zero) = Inr []" "print_s (er_port1 erreq_zero) = Inr []"
    by (simp_all add: erreq_zero_def print_s_zero)
  have "plain_arg ''status''" by (simp add: plain_arg_def)
  then show ?thesis
    by (cases g) (simp_all add: main_command ctl_command_def show_ring_status_def do_ioctl_def zero sys_ioctl_def
        er_ioctl_def er_lookup_ring_def printed_def ring_status_def print_s_strncpy blocked_def)
qed

section \<open>Bringing up a ring\<close>

text \<open>The request the tool makes of a role, a protection link, a node id and two port names.\<close>

definition tool_request :: "bool \<Rightarrow> bool \<Rightarrow> bytes \<Rightarrow> string \<Rightarrow> string \<Rightarrow> erreq" where
  "tool_request owner first nid p0 p1 = erreq_zero
     \<lparr>er_id := 1, er_version := 2, er_node_id := nid, er_port0 := strncpy IFNAMSIZ p0,
      er_port1 := strncpy IFNAMSIZ p1, er_rpl_port := if first then 1 else 2,
      er_rpl_owner := if owner then 1 else 0, er_rpl_neighbour := if owner then 0 else 1\<rparr>"

abbreviation init_line :: "bool \<Rightarrow> string \<Rightarrow> bytes \<Rightarrow> string \<Rightarrow> string \<Rightarrow> string list" where
  "init_line owner rpl nid p0 p1 \<equiv>
     [''init'', if owner then ''-o'' else ''-n'', rpl, ''-i'', show_mac nid, p0, p1]"

lemma init_ring_line:
  assumes "length nid = 6" and "length junk = 6" and "plain_arg p0" and "rpl = p0 \<or> rpl = p1"
  shows "init_ring ioctl junk (init_line owner rpl nid p0 p1) getopt_start k =
    Some (bind_res (do_ioctl ioctl ERIOCINIT (tool_request owner (rpl = p0) nid p0 p1) k) (\<lambda>(ret, _, k).
      Inr (Returned (ret = 0), k)))"
proof -
  let ?argv = "\<lambda>fl. [''init'', fl, rpl, ''-i'', show_mac nid, p0, p1]"
  let ?mac = "sscanf_mac (show_mac nid) junk"
  let ?v = "\<lparr>iv_owner = owner, iv_neighbour = \<not> owner, iv_rpl = Some rpl, iv_mac = ?mac, iv_node_id = nid\<rparr>"
  have tail: "opt_loop (?argv fl) ''o:n:i:h'' init_option v \<lparr>optind = 3, place = [], optarg = x\<rparr> =
      Some (Inr (v\<lparr>iv_mac := ?mac, iv_node_id := nid\<rparr>, \<lparr>optind = 5, place = [], optarg = Some (show_mac nid)\<rparr>))"
    if "iv_mac v = junk" for fl v x
  proof -
    have "opt_loop (?argv fl) ''o:n:i:h'' init_option (v\<lparr>iv_mac := ?mac, iv_node_id := nid\<rparr>)
        \<lparr>optind = 5, place = [], optarg = Some (show_mac nid)\<rparr> =
      Some (Inr (v\<lparr>iv_mac := ?mac, iv_node_id := nid\<rparr>, \<lparr>optind = 5, place = [], optarg = Some (show_mac nid)\<rparr>))"
      using assms(3) by (intro opt_loop_plain) simp_all
    then show ?thesis
      using sscanf_show [OF assms(1,2)] that
      by (subst opt_loop_arg [where c = "CHR ''i''"]) (simp_all add: show_mac_length assms(1) Let_def)
  qed
  have "opt_loop (init_line owner rpl nid p0 p1) ''o:n:i:h'' init_option
      \<lparr>iv_owner = False, iv_neighbour = False, iv_rpl = None, iv_mac = junk, iv_node_id = replicate 6 0\<rparr> getopt_start =
    Some (Inr (?v, \<lparr>optind = 5, place = [], optarg = Some (show_mac nid)\<rparr>))"
    by (cases owner; subst opt_loop_arg [where c = "if owner then CHR ''o'' else CHR ''n''"])
      (simp_all add: getopt_start_def tail numeral_3_eq_3 [symmetric])
  moreover have "init_request ?v p0 p1 = Some (tool_request owner (rpl = p0) nid p0 p1)"
    using assms(1,4) by (auto simp: init_request_def tool_request_def Let_def erreq_zero_def)
  ultimately show ?thesis
    by (auto simp: init_ring_def init_ring_args_def intro!: arg_cong [where f = "bind_res _"])
qed

lemma ctl_init_line:
  assumes "length nid = 6" and "length junk = 6" and "plain_arg p0" and "plain_arg p1" and "rpl = p0 \<or> rpl = p1"
    and "length p0 < 16" and "length p1 < 16"
  shows "erps_ctl_main (sys_ioctl api now) True junk (prog # init_line owner rpl nid p0 p1) (g, s) =
    Some (bind_res (er_ioctl_init api now (tool_request owner (rpl = p0) nid p0 p1) g s) (\<lambda>(_, g', s').
      Inr (0, [], (g', s'))))"
proof -
  have n: "NUL \<notin> set p0" "NUL \<notin> set p1" using assms(3,4) by (simp_all add: plain_arg_def)
  then have pr: "print_s (er_port0 (tool_request owner (rpl = p0) nid p0 p1)) = Inr p0"
    "print_s (er_port1 (tool_request owner (rpl = p0) nid p0 p1)) = Inr p1"
    using assms(6,7) by (simp_all add: tool_request_def print_s_strncpy cstr_id)
  have "plain_arg ''init''" by (simp add: plain_arg_def)
  then show ?thesis
    using init_ring_line [OF assms(1-3,5), of "sys_ioctl api now" owner "(g, s)"]
    by (cases "er_ioctl_init api now (tool_request owner (rpl = p0) nid p0 p1) g s")
      (auto simp: main_command ctl_command_def do_ioctl_def pr sys_ioctl_def er_ioctl_def)
qed

text \<open>The ring a creation for the tool's request yields, once it is configured.\<close>

lemma tool_request_ring:
  assumes "er_ring_create api now 1 name0 name1 (if owner then if first then 1 else 2 else 0)
      (if owner then 0 else if first then 1 else 2) nid' s = Inr (Some r0, s')"
    and r_def: "r = (configure_ring (tool_request owner first nid p0 p1) r0)\<lparr>active := True\<rparr>"
  shows "ring_inv r" and "active r" and "is_rpl_owner r = owner" and "is_rpl_neighbour r = (\<not> owner)"
    and "rpl_port r = Some (if first then PORT0 else PORT1)" and "version r = 2" and "raps_vid r = 2000"
    and "guard_time r = 500" and "wtr_time r = 300000" and "wtb_time r = 5500" and "\<not> is_revertive r"
    and "node_id r = replicate 6 0" and "state r = RING_STATE_PENDING"
proof -
  let ?o = "if owner then if first then 1 else 2 else (0 :: u8)" and ?n = "if owner then 0 else if first then 1 else (2 :: u8)"
  have role: "\<not> (?o \<noteq> 0 \<and> ?n \<noteq> 0)" by simp
  note r0 = created_ring_inv [OF assms(1) role]
  obtain a a0 q0 a1 q1 ra fa where eq: "r0 = started now (ring_ready a 1 (a0, q0) (a1, q1) ?o ?n ra fa)"
    by (rule er_ring_create_Some [OF assms(1) role])
  have cfg: "rpl_port r0 = Some (if first then PORT0 else PORT1)" "node_id r0 = replicate 6 0" "state r0 = RING_STATE_PENDING"
    unfolding eq started_sel ring_ready_sel by (auto simp: rpl_choice_def)
  have f: "r = configure 2 2000 500 300000 5500 False True r0"
    using r0(2) by (simp add: r_def configure_ring_eq tool_request_def erreq_zero_def clamp_def)
  show "ring_inv r" using f ring_started_inv [OF r0(1)] by (simp add: ring_inv_update)
  show "is_rpl_owner r = owner" "is_rpl_neighbour r = (\<not> owner)"
    using r0(3,4) by (simp_all add: f configure_sel)
  show "active r" "rpl_port r = Some (if first then PORT0 else PORT1)" "version r = 2" "raps_vid r = 2000"
    "guard_time r = 500" "wtr_time r = 300000" "wtb_time r = 5500" "\<not> is_revertive r" "node_id r = replicate 6 0"
    "state r = RING_STATE_PENDING"
    using cfg by (simp_all add: f configure_def)
qed

text \<open>Claim C11: from the command line to the ring. \<^verbatim>\<open>erps-ctl init\<close> with a role, one of the two port
  names as protection link and a node id makes a module that has no ring create one for exactly
  that role, link and node id on the two ports; the ring appears whenever this creation succeeds,
  is pending and active in the role and on the link asked for, runs ERPS version 2 on VLAN 2000
  with the default times, and is not revertive, since the tool has no option for these; the node
  id that was given is lost. Without the creation no ring appears, a module that has a ring
  keeps it, and the exit status is 0 in all of these cases. Port names have at most 15 characters
  and do not look like options.\<close>

theorem ctl_init_end_to_end:
  fixes api :: "'s kapi" and now prog owner g s
  assumes "length nid = 6" and "length junk = 6" and "plain_arg p0" and "plain_arg p1" and "rpl = p0 \<or> rpl = p1"
    and "length p0 < 16" and "length p1 < 16"
  defines "link \<equiv> if rpl = p0 then 1 else 2"
    and "outcome \<equiv> erps_ctl_main (sys_ioctl api now) True junk (prog # init_line owner rpl nid p0 p1) (g, s)"
  shows "case g of
      Some r \<Rightarrow> outcome = Some (Inr (0, [], (Some r, s)))
    | None \<Rightarrow> (case er_ring_create api now 1 (strncpy IFNAMSIZ p0) (strncpy IFNAMSIZ p1)
          (if owner then link else 0) (if owner then 0 else link) nid s of
        Inl e \<Rightarrow> outcome = Some (Inl e)
      | Inr (None, s') \<Rightarrow> outcome = Some (Inr (0, [], (None, s')))
      | Inr (Some _, _) \<Rightarrow> \<exists>r s'. outcome = Some (Inr (0, [], (Some r, s'))) \<and>
          ring_inv r \<and> active r \<and> state r = RING_STATE_PENDING \<and> is_rpl_owner r = owner \<and> is_rpl_neighbour r = (\<not> owner) \<and>
          rpl_port r = Some (if rpl = p0 then PORT0 else PORT1) \<and> version r = 2 \<and> raps_vid r = 2000 \<and>
          guard_time r = 500 \<and> wtr_time r = 300000 \<and> wtb_time r = 5500 \<and> \<not> is_revertive r \<and>
          node_id r = replicate 6 0)"
proof -
  let ?req = "tool_request owner (rpl = p0) nid p0 p1"
  note line = ctl_init_line [OF assms(1-7), of api now prog owner g s, folded outcome_def]
  show ?thesis
  proof (cases g)
    case (Some r)
    then show ?thesis using line by (simp add: er_ioctl_init_def er_lookup_ring_def)
  next
    case None
    let ?c = "er_ring_create api now 1 (strncpy IFNAMSIZ p0) (strncpy IFNAMSIZ p1)
        (if owner then link else 0) (if owner then 0 else link) nid s"
    have ok: "\<not> rpl_config_invalid ?req" by (auto simp: rpl_config_invalid_def tool_request_def)
    have args: "ucast (er_id ?req) = (1 :: u16)" "er_port0 ?req = strncpy IFNAMSIZ p0" "er_port1 ?req = strncpy IFNAMSIZ p1"
      "er_node_id ?req = nid" "(if er_rpl_owner ?req \<noteq> 0 then ucast (er_rpl_port ?req) else 0) = (if owner then link else (0 :: u8))"
      "(if er_rpl_neighbour ?req \<noteq> 0 then ucast (er_rpl_port ?req) else 0) = (if owner then 0 else link)"
      by (simp_all add: tool_request_def link_def)
    note out = line [unfolded None er_ioctl_init_None [OF ok] args]
    consider e where "?c = Inl e" | s' where "?c = Inr (None, s')" | r0 s' where "?c = Inr (Some r0, s')"
      by (cases ?c) (force, metis option.exhaust prod.exhaust)
    then show ?thesis
    proof cases
      case 3
      note new = tool_request_ring [OF 3 [unfolded link_def] refl, of nid p0 p1]
      with out 3 None show ?thesis by simp
    qed (use out None in simp_all)
  qed
qed

lemma ctl_init_end_to_end_witness:
  "\<forall>owner. \<exists>r s'. erps_ctl_main (sys_ioctl sample_api 0) True [1, 2, 3, 4, 5, 6]
       (''erps-ctl'' # init_line owner ''em1'' [2, 4, 6, 8, 10, 12] ''em0'' ''em1'') (None, sample_kstate) =
       Some (Inr (0, [], (Some r, s'))) \<and>
     is_rpl_owner r = owner \<and> is_rpl_neighbour r = (\<not> owner) \<and> rpl_port r = Some PORT1 \<and> node_id r = [0, 0, 0, 0, 0, 0]"
proof
  fix owner
  have hyps: "length [2, 4, 6, 8, 10, 12 :: u8] = 6" "length [1, 2, 3, 4, 5, 6 :: u32] = 6" "plain_arg ''em0''"
    "plain_arg ''em1''" "''em1'' = ''em0'' \<or> ''em1'' = ''em1''" "length ''em0'' < 16" "length ''em1'' < 16"
    by (simp_all add: plain_arg_def)
  let ?c = "\<lambda>owner. er_ring_create sample_api 0 1 (strncpy IFNAMSIZ ''em0'') (strncpy IFNAMSIZ ''em1'')
      (if owner then 2 else 0) (if owner then 0 else 2) [2, 4, 6, 8, 10, 12] sample_kstate"
  have "case ?c True of Inr (Some r, _) \<Rightarrow> True | _ \<Rightarrow> False" "case ?c False of Inr (Some r, _) \<Rightarrow> True | _ \<Rightarrow> False"
    by code_simp+
  then have "case ?c owner of Inr (Some r, _) \<Rightarrow> True | _ \<Rightarrow> False" by (cases owner) simp_all
  then obtain r0 s0 where "?c owner = Inr (Some r0, s0)" by (auto split: sum.splits option.splits)
  with ctl_init_end_to_end [OF hyps, of sample_api 0 "''erps-ctl''" owner None sample_kstate]
  show "\<exists>r s'. erps_ctl_main (sys_ioctl sample_api 0) True [1, 2, 3, 4, 5, 6]
       (''erps-ctl'' # init_line owner ''em1'' [2, 4, 6, 8, 10, 12] ''em0'' ''em1'') (None, sample_kstate) =
       Some (Inr (0, [], (Some r, s'))) \<and>
     is_rpl_owner r = owner \<and> is_rpl_neighbour r = (\<not> owner) \<and> rpl_port r = Some PORT1 \<and> node_id r = [0, 0, 0, 0, 0, 0]"
    by (auto simp: numeral_eq_Suc)
qed

end
