(* ===== verification/SimRing.thy ===== *)
theory SimRing
  imports Ring
begin

text \<open>
  The user-space simulator: its ports, its R-APS codec, its ring and the actions of its state
  machine. Sources: \<^verbatim>\<open>src/extras/sim/ring_port.h\<close>, \<^verbatim>\<open>ring_port.c\<close>, \<^verbatim>\<open>ring_raps.h\<close>,
  \<^verbatim>\<open>ring_raps.c\<close>, \<^verbatim>\<open>ring.h\<close>, \<^verbatim>\<open>tick.c\<close> and \<^verbatim>\<open>ring.c\<close> lines 39--134.

  The enumerations of states, requests and R-APS codes have the same enumerators and values as
  the kernel's, and so do the load and store macros; the datatypes and functions of \<^verbatim>\<open>Ring.thy\<close>
  and \<^verbatim>\<open>Raps.thy\<close> serve for both. What differs is written out: a failed \<^verbatim>\<open>assert\<close> aborts, \<^verbatim>\<open>die\<close>
  exits, ticks are 64-bit milliseconds, and the log lines that dereference a pointer do so.
\<close>

section \<open>What the simulator imports\<close>

text \<open>
  libpcap, the allocator and the system calls are the fields of a record over an abstract world \<open>'w\<close>. \<^verbatim>\<open>malloc\<close>
  yields NULL or the address of an object and its uninitialised contents, \<^verbatim>\<open>strdup\<close> NULL or the address
  and the characters of the copy; \<^verbatim>\<open>pcap_next_ex\<close> yields
  its status, the captured bytes and the length in the packet header. Of the operating system the
  daemon uses pipes, sockets and a thread; \<^verbatim>\<open>recv\<close> yields the bytes received, \<open>None\<close> for -1.
\<close>

datatype sobj = SOBJ_RING | SOBJ_PORT | SOBJ_RAPS | SOBJ_FRAME int

record 'w sim_api =
  u_malloc :: "sobj \<Rightarrow> 'w \<Rightarrow> (nat \<times> bytes) option \<times> 'w"
  u_strdup :: "string \<Rightarrow> 'w \<Rightarrow> (nat \<times> string) option \<times> 'w"
  u_free :: "nat \<Rightarrow> 'w \<Rightarrow> 'w"
  pcap_open_live :: "string \<Rightarrow> int \<Rightarrow> 'w \<Rightarrow> nat option \<times> 'w"
  pcap_setdirection :: "nat \<Rightarrow> 'w \<Rightarrow> int \<times> 'w"
  pcap_inject :: "nat \<Rightarrow> bytes \<Rightarrow> int \<Rightarrow> 'w \<Rightarrow> int \<times> 'w"
  pcap_next_ex :: "nat \<Rightarrow> 'w \<Rightarrow> int \<times> bytes \<times> int \<times> 'w"
  pcap_close :: "nat \<Rightarrow> 'w \<Rightarrow> 'w"
  pcap_get_selectable_fd :: "nat \<Rightarrow> 'w \<Rightarrow> int"
  u_pipe :: "'w \<Rightarrow> (int \<times> int) \<times> 'w"
  u_socket :: "'w \<Rightarrow> int \<times> 'w"
  u_accept :: "int \<Rightarrow> 'w \<Rightarrow> int \<times> 'w"
  u_recv :: "int \<Rightarrow> nat \<Rightarrow> 'w \<Rightarrow> bytes option \<times> 'w"
  u_close :: "int \<Rightarrow> 'w \<Rightarrow> 'w"
  u_pthread_create :: "'w \<Rightarrow> int \<times> 'w"
  u_write :: "int \<Rightarrow> bytes \<Rightarrow> 'w \<Rightarrow> int \<times> 'w"
  u_pthread_join :: "'w \<Rightarrow> 'w"

section \<open>Ports\<close>

record sim_port =
  sp_addr :: nat
  sp_is_blocked :: bool
  sp_is_failed :: bool
  sp_name :: "(nat \<times> string) option"
  sp_recv_buf_len :: int
  sp_dev :: nat

text \<open>\<^verbatim>\<open>ring_port_create\<close>: every failure ends the program; the name is copied without a test.\<close>

definition ring_port_create :: "'w sim_api \<Rightarrow> string \<Rightarrow> int \<Rightarrow> 'w \<Rightarrow> fault + (sim_port \<times> 'w)" where
  "ring_port_create api dev max_recv_len w =
     (case u_malloc api SOBJ_PORT w of
        (None, w1) \<Rightarrow> Inl Exited
      | (Some (addr, _), w1) \<Rightarrow>
        (case u_strdup api dev w1 of (name, w2) \<Rightarrow>
         case pcap_open_live api dev max_recv_len w2 of
           (None, w3) \<Rightarrow> Inl Exited
         | (Some d, w3) \<Rightarrow>
           (case pcap_setdirection api d w3 of (res, w4) \<Rightarrow>
            if res \<noteq> 0 then Inl Exited
            else Inr (\<lparr>sp_addr = addr, sp_is_blocked = False, sp_is_failed = False, sp_name = name,
                   sp_recv_buf_len = 0, sp_dev = d\<rparr>, w4))))"

text \<open>\<^verbatim>\<open>free(NULL)\<close> does nothing.\<close>

definition ring_port_destroy :: "'w sim_api \<Rightarrow> sim_port \<Rightarrow> 'w \<Rightarrow> 'w" where
  "ring_port_destroy api port w =
     (let w = pcap_close api (sp_dev port) w;
          w = (case sp_name port of None \<Rightarrow> w | Some (a, _) \<Rightarrow> u_free api a w)
      in u_free api (sp_addr port) w)"

definition ring_port_send :: "'w sim_api \<Rightarrow> sim_port \<Rightarrow> bytes \<Rightarrow> int \<Rightarrow> 'w \<Rightarrow> bool \<times> 'w" where
  "ring_port_send api port data len w =
     (case pcap_inject api (sp_dev port) data len w of (res, w') \<Rightarrow>
      if res < 0 then (False, w') else (True, w'))"

definition ring_port_recv :: "'w sim_api \<Rightarrow> sim_port \<Rightarrow> 'w \<Rightarrow> (bytes \<times> int) option \<times> 'w" where
  "ring_port_recv api port w =
     (case pcap_next_ex api (sp_dev port) w of (res, data, caplen, w') \<Rightarrow>
      if res \<le> 0 then (None, w') else (Some (data, caplen), w'))"

definition ring_port_is_failed :: "sim_port \<Rightarrow> bool" where
  "ring_port_is_failed port = sp_is_failed port"

definition ring_port_is_blocked :: "sim_port \<Rightarrow> bool" where
  "ring_port_is_blocked port = sp_is_blocked port"

definition ring_port_unblock :: "sim_port \<Rightarrow> sim_port" where
  "ring_port_unblock port = port\<lparr>sp_is_blocked := False\<rparr>"

definition ring_port_block :: "sim_port \<Rightarrow> sim_port" where
  "ring_port_block port = port\<lparr>sp_is_blocked := True\<rparr>"

section \<open>The R-APS codec\<close>

record ri_raps =
  ri_ring_id :: u8
  ri_vid :: u16
  ri_version :: u8
  ri_flags :: u8
  ri_request :: raps_request
  ri_subcode :: u8
  ri_node_id :: node_ptr

definition ri_raps_zero :: ri_raps where
  "ri_raps_zero = \<lparr>ri_ring_id = 0, ri_vid = 0, ri_version = 0, ri_flags = 0,
     ri_request = RAPS_REQ_NR, ri_subcode = 0, ri_node_id = NodeNull\<rparr>"

definition ri_raps_create :: "'w sim_api \<Rightarrow> 'w \<Rightarrow> fault + (nat \<times> ri_raps \<times> 'w)" where
  "ri_raps_create api w =
     (case u_malloc api SOBJ_RAPS w of
        (None, w') \<Rightarrow> Inl Exited
      | (Some (addr, _), w') \<Rightarrow> Inr (addr, ri_raps_zero, w'))"

definition ri_raps_destroy :: "'w sim_api \<Rightarrow> nat \<Rightarrow> 'w \<Rightarrow> 'w" where
  "ri_raps_destroy api addr w = u_free api addr w"

definition ri_raps_get_len :: "ri_raps \<Rightarrow> int" where
  "ri_raps_get_len frame = 55"

text \<open>
  The parser: header, CFM version and opcode, request nibble, flags. The structure and the buffer
  are asserted not to be NULL. What it stores replaces the whole structure.
\<close>

definition ri_raps_parse_cfm :: "ri_raps \<Rightarrow> bytes \<Rightarrow> u8 \<Rightarrow> nat \<Rightarrow> fault + (bool \<times> ri_raps)" where
  "ri_raps_parse_cfm frame data rid p =
     bind_res (READ_BYTE data p) (\<lambda>v.
     if 2 < v AND 0x1f then Inr (False, frame)
     else bind_res (READ_BYTE data (p + 1)) (\<lambda>op.
     if (ucast op :: u8) \<noteq> 40 then Inr (False, frame)
     else bind_res (READ_BYTE data (p + 4)) (\<lambda>rs.
     case raps_known (ucast (drop_bit 4 (rs AND 0xf0))) of
       None \<Rightarrow> Inr (False, frame)
     | Some request \<Rightarrow>
         bind_res (READ_BYTE data (p + 5)) (\<lambda>fl.
         Inr (True, ri_raps_zero
              \<lparr>ri_ring_id := rid,
               ri_request := request,
               ri_flags := ucast (fl AND 0xe0),
               ri_node_id := NodeFrame (p + 6)\<rparr>)))))"

definition ri_raps_parse :: "ri_raps \<Rightarrow> bytes \<Rightarrow> int \<Rightarrow> fault + (bool \<times> ri_raps)" where
  "ri_raps_parse frame data len =
     (if len < 55 then Inr (False, frame)
      else
        bind_res (READ_BYTE data 5) (\<lambda>rid.
        bind_res (READ_WORD data 12) (\<lambda>eth_type.
        if eth_type = 0x8100
        then bind_res (READ_WORD data (14 + 2)) (\<lambda>_.
               ri_raps_parse_cfm frame data (ucast rid) (14 + 4))
        else ri_raps_parse_cfm frame data (ucast rid) 14)))"

definition ri_raps_encode :: "ri_raps \<Rightarrow> bytes \<Rightarrow> bytes \<Rightarrow> int \<Rightarrow> fault + (bool \<times> bytes)" where
  "ri_raps_encode frame nid data max_len =
     (if max_len < 55 then Inr (False, data)
      else bind_res (seqs
        [memset_to 55 0,
         memcpy_to 0 RAPS_DST,
         WRITE_BYTE 5 (ri_ring_id frame),
         memcpy_to 6 (take 6 nid),
         WRITE_WORD 12 0x8100,
         WRITE_WORD 14 (ri_vid frame),
         WRITE_WORD 16 0x8902,
         WRITE_BYTE 18 0x02,
         WRITE_BYTE 19 40,
         WRITE_BYTE 21 32,
         WRITE_BYTE 22 (push_bit 4 (raps_code (ri_request frame)) OR ri_subcode frame),
         WRITE_BYTE 23 (ri_flags frame),
         memcpy_to 24 (take 6 nid)] data) (\<lambda>data'. Inr (True, data')))"

section \<open>The ring\<close>

type_synonym tick = "64 word"

definition tick_diff_msec :: "tick \<Rightarrow> tick \<Rightarrow> tick" where
  "tick_diff_msec t1 t2 = t1 - t2"

text \<open>
  The two port objects are distinct (\<^verbatim>\<open>main\<close> refuses equal names), so a \<^verbatim>\<open>struct ring_port *\<close> into
  the ring is a \<^typ>\<open>port_ptr\<close>; the objects are kept next to their addresses as in \<^verbatim>\<open>Ring.thy\<close>.
\<close>

record sim_ring =
  s_addr :: nat
  s_port0 :: sim_port
  s_port1 :: sim_port
  s_is_rpl_owner :: bool
  s_is_rpl_neighbour :: bool
  s_is_revertive :: bool
  s_rpl_port :: port_ptr
  s_version :: u8
  s_ring_id :: int
  s_raps_vid :: int
  s_node_id :: bytes
  s_guard_timer_active :: bool
  s_guard_timer_active_since :: tick
  s_wtr_timer_active :: bool
  s_wtr_timer_active_since :: tick
  s_wtb_timer_active :: bool
  s_wtb_timer_active_since :: tick
  s_local_request :: ring_request
  s_state :: ring_state
  s_prev_request :: ring_request
  s_prev_request_port :: port_ptr
  s_prev_request_remote_node_id :: bytes
  s_is_sending_raps :: bool
  s_raps_addr :: nat
  s_raps :: ri_raps
  s_raps_frame_addr :: nat
  s_raps_frame :: bytes
  s_raps_frame_len :: int
  s_raps_bursts_remain :: int

type_synonym sim_action = "sim_ring \<Rightarrow> fault + sim_ring"

fun sim_get_port :: "port_id \<Rightarrow> sim_ring \<Rightarrow> sim_port" where
  "sim_get_port PORT0 r = s_port0 r"
| "sim_get_port PORT1 r = s_port1 r"

fun sim_upd_port :: "port_id \<Rightarrow> (sim_port \<Rightarrow> sim_port) \<Rightarrow> sim_ring \<Rightarrow> sim_ring" where
  "sim_upd_port PORT0 f r = r\<lparr>s_port0 := f (s_port0 r)\<rparr>"
| "sim_upd_port PORT1 f r = r\<lparr>s_port1 := f (s_port1 r)\<rparr>"

section \<open>Actions\<close>

text \<open>An unknown request code ends the program.\<close>

definition sim_ring_req_str :: "nat \<Rightarrow> fault + string" where
  "sim_ring_req_str req =
     (if req < req_code RING_REQ_INVALID \<or> req_code RING_REQ_CLEAR < req then Inl Exited
      else Inr (RING_REQUEST_STR ! req))"

definition sim_start_wtr_timer :: "tick \<Rightarrow> sim_action" where
  "sim_start_wtr_timer now r = Inr (r\<lparr>s_wtr_timer_active_since := now, s_wtr_timer_active := True\<rparr>)"

definition sim_stop_wtr_timer :: sim_action where
  "sim_stop_wtr_timer r = Inr (r\<lparr>s_wtr_timer_active := False\<rparr>)"

definition sim_start_wtb_timer :: "tick \<Rightarrow> sim_action" where
  "sim_start_wtb_timer now r = Inr (r\<lparr>s_wtb_timer_active_since := now, s_wtb_timer_active := True\<rparr>)"

definition sim_stop_wtb_timer :: sim_action where
  "sim_stop_wtb_timer r = Inr (r\<lparr>s_wtb_timer_active := False\<rparr>)"

definition sim_start_guard_timer :: "tick \<Rightarrow> sim_action" where
  "sim_start_guard_timer now r = Inr (r\<lparr>s_guard_timer_active_since := now, s_guard_timer_active := True\<rparr>)"

definition sim_stop_guard_timer :: sim_action where
  "sim_stop_guard_timer r = Inr (r\<lparr>s_guard_timer_active := False\<rparr>)"

text \<open>Blocking and unblocking log the name of the port first, which dereferences the pointer;
  \<^verbatim>\<open>ring_port_is_blocked\<close> asserts that it is not NULL.\<close>

definition sim_block_port :: "port_ptr \<Rightarrow> sim_action" where
  "sim_block_port port r = (case port of None \<Rightarrow> Inl NullPtr
     | Some p \<Rightarrow> Inr (sim_upd_port p ring_port_block r))"

definition sim_unblock_port :: "port_ptr \<Rightarrow> sim_action" where
  "sim_unblock_port port r = (case port of None \<Rightarrow> Inl NullPtr
     | Some p \<Rightarrow> Inr (sim_upd_port p ring_port_unblock r))"

definition sim_is_port_blocked :: "port_ptr \<Rightarrow> sim_ring \<Rightarrow> fault + bool" where
  "sim_is_port_blocked port r = (case port of None \<Rightarrow> Inl Aborted
     | Some p \<Rightarrow> Inr (ring_port_is_blocked (sim_get_port p r)))"

definition sim_flush_fdb :: sim_action where
  "sim_flush_fdb r = Inr r"

definition ring_other_port :: "port_ptr \<Rightarrow> port_ptr" where
  "ring_other_port port = (if port = Some PORT1 then Some PORT0 else Some PORT1)"

definition sim_unblock_nonfailed_ports :: sim_action where
  "sim_unblock_nonfailed_ports = seqs
     [guard_do (\<lambda>r. \<not> sp_is_failed (s_port0 r)) [sim_unblock_port (Some PORT0)],
      guard_do (\<lambda>r. \<not> sp_is_failed (s_port1 r)) [sim_unblock_port (Some PORT1)]]"

definition sim_start_tx :: "raps_request \<Rightarrow> u8 \<Rightarrow> sim_action" where
  "sim_start_tx request flags r =
     bind_res
       (if ri_request (s_raps r) \<noteq> request \<or> ri_flags (s_raps r) \<noteq> flags
        then let rp = (s_raps r)\<lparr>ri_request := request, ri_flags := flags\<rparr> in
          bind_res (node_bytes (s_node_id r) [] (ri_node_id rp)) (\<lambda>nid.
          bind_res (ri_raps_encode rp nid (s_raps_frame r) (s_raps_frame_len r)) (\<lambda>(_, frame).
            Inr (r\<lparr>s_raps := rp, s_raps_frame := frame, s_raps_bursts_remain := 3\<rparr>)))
        else Inr r)
       (\<lambda>r'. Inr (r'\<lparr>s_is_sending_raps := True\<rparr>))"

definition sim_stop_tx :: sim_action where
  "sim_stop_tx r = Inr (r\<lparr>s_is_sending_raps := False\<rparr>)"

end
