(* ===== verification/SimFsm.thy ===== *)
theory SimFsm
  imports SimRing
begin

text \<open>
  The simulator's state machine and the request logic in front of it: \<^verbatim>\<open>ring_fsm\<close> and
  \<^verbatim>\<open>ring_process_request\<close> of \<^verbatim>\<open>src/extras/sim/ring.c\<close> (lines 138--805 and 889--982), laid out as
  \<^verbatim>\<open>Fsm.thy\<close> lays out the kernel's: one function per state, one equation per \<^verbatim>\<open>case\<close>, a list of
  statements per row. \<open>now\<close> is the result of \<^verbatim>\<open>tick_now()\<close> while the request is handled.
\<close>

section \<open>Blocks the rows repeat\<close>

definition sim_row :: "ring_state \<Rightarrow> sim_action list \<Rightarrow> sim_ring \<Rightarrow> fault + (sim_ring \<times> ring_state)" where
  "sim_row new_state acts r = bind_res (seqs acts r) (\<lambda>r'. Inr (r', new_state))"

text \<open>
  The block of rows 03, 05, 09, 17, 19, 31, 33, 59, 61 and 65: block the requested port, tell
  the ring, unblock the other one; DNF when the port was blocked already.
\<close>

definition sim_switch_port :: "raps_request \<Rightarrow> port_ptr \<Rightarrow> sim_action" where
  "sim_switch_port q port = cond (sim_is_port_blocked port)
     [sim_start_tx q RAPS_FLAG_DNF,
      sim_unblock_port (ring_other_port port)]
     [sim_block_port port,
      sim_start_tx q 0,
      sim_unblock_port (ring_other_port port),
      sim_flush_fdb]"

text \<open>The block of rows 58, 66 and 68: back to the ring protection link. \<open>f\<close> is the flags
  expression of the blocked case.\<close>

definition sim_revert_rpl :: "u8 \<Rightarrow> sim_action" where
  "sim_revert_rpl f r = cond (sim_is_port_blocked (s_rpl_port r))
     [sim_start_tx RAPS_REQ_NR f,
      sim_unblock_port (ring_other_port (s_rpl_port r))]
     [sim_block_port (s_rpl_port r),
      sim_start_tx RAPS_REQ_NR RAPS_FLAG_RB,
      sim_unblock_port (ring_other_port (s_rpl_port r)),
      sim_flush_fdb] r"

text \<open>\<^verbatim>\<open>memcmp(r->node_id, remote_node_id, 6) < 0\<close>\<close>

definition sim_node_lt_remote :: "sim_ring \<Rightarrow> bytes option \<Rightarrow> fault + bool" where
  "sim_node_lt_remote r nid = (case nid of None \<Rightarrow> Inl NullPtr
     | Some n \<Rightarrow> Inr (memcmp (take 6 (s_node_id r)) (take 6 n) < 0))"

definition sim_block_rpl :: sim_action where
  "sim_block_rpl r = sim_block_port (s_rpl_port r) r"

definition sim_unblock_other_rpl :: sim_action where
  "sim_unblock_other_rpl r = sim_unblock_port (ring_other_port (s_rpl_port r)) r"

section \<open>Request de-duplication\<close>

text \<open>
  The local variable \<^verbatim>\<open>dupe\<close>. Where the kernel logs that a request without parameters is repeated
  and returns, the simulator calls \<^verbatim>\<open>die\<close>.
\<close>

definition sim_fsm_dedup :: "sim_ring \<Rightarrow> ring_request \<Rightarrow> port_ptr \<Rightarrow> bytes option \<Rightarrow> fault + bool" where
  "sim_fsm_dedup r req port nid =
     (if req \<in> {RING_REQ_RAPS_NR, RING_REQ_RAPS_NR_RB, RING_REQ_RAPS_SF, RING_REQ_RAPS_MS,
         RING_REQ_RAPS_FS}
      then (if req = s_prev_request r
            then (case nid of None \<Rightarrow> Inl NullPtr
                  | Some n \<Rightarrow> Inr (memcmp (take 6 n) (s_prev_request_remote_node_id r) = 0))
            else Inr False)
      else if req \<in> {RING_REQ_MS, RING_REQ_SF, RING_REQ_FS, RING_REQ_CLEAR_SF}
      then Inr (req = s_prev_request r \<and> port = s_prev_request_port r)
      else if req \<in> {RING_REQ_WTB_RUNNING, RING_REQ_WTB_EXPIRES, RING_REQ_WTR_RUNNING,
         RING_REQ_WTR_EXPIRES, RING_REQ_CLEAR}
      then (if req = s_prev_request r then Inl Exited else Inr False)
      else Inr False)"

text \<open>Request parameters saved for the next comparison.\<close>

definition sim_fsm_save :: "ring_request \<Rightarrow> port_ptr \<Rightarrow> bytes option \<Rightarrow> sim_ring \<Rightarrow> sim_ring" where
  "sim_fsm_save req port nid r =
     (let r1 = r\<lparr>s_prev_request := req, s_prev_request_port := port\<rparr> in
      case nid of None \<Rightarrow> r1 | Some n \<Rightarrow> r1\<lparr>s_prev_request_remote_node_id := take 6 n\<rparr>)"

section \<open>The rows\<close>

text \<open>Row 01. The request is not looked at.\<close>

definition sim_fsm_init :: "tick \<Rightarrow> sim_ring \<Rightarrow> fault + (sim_ring \<times> ring_state)" where
  "sim_fsm_init now r = sim_row RING_STATE_PENDING
     [sim_stop_guard_timer, sim_stop_wtr_timer, sim_stop_wtb_timer,
      (\<lambda>r. if s_is_rpl_owner r then
         seqs [sim_block_rpl, sim_unblock_other_rpl, sim_start_tx RAPS_REQ_NR 0,
               guard_do (\<lambda>r. s_is_revertive r) [sim_start_wtr_timer now]] r
       else if s_is_rpl_neighbour r then
         seqs [sim_block_rpl, sim_unblock_other_rpl, sim_start_tx RAPS_REQ_NR 0] r
       else
         seqs [sim_block_port (Some PORT0), sim_unblock_port (Some PORT1), sim_start_tx RAPS_REQ_NR 0] r)] r"

text \<open>Rows 02 to 15, \<^verbatim>\<open>RING_STATE_IDLE\<close>.\<close>

fun sim_fsm_idle :: "tick \<Rightarrow> ring_request \<Rightarrow> port_ptr \<Rightarrow> bytes option \<Rightarrow> sim_ring
    \<Rightarrow> fault + (sim_ring \<times> ring_state)" where
  "sim_fsm_idle now RING_REQ_CLEAR port nid r =
     sim_row RING_STATE_IDLE [] r"
| "sim_fsm_idle now RING_REQ_FS port nid r =
     sim_row RING_STATE_FORCED_SWITCH
      [sim_switch_port RAPS_REQ_FS port] r"
| "sim_fsm_idle now RING_REQ_RAPS_FS port nid r =
     sim_row RING_STATE_FORCED_SWITCH
      [sim_unblock_port (Some PORT0),
       sim_unblock_port (Some PORT1),
       sim_stop_tx] r"
| "sim_fsm_idle now RING_REQ_SF port nid r =
     sim_row RING_STATE_PROTECTION
      [sim_switch_port RAPS_REQ_SF port] r"
| "sim_fsm_idle now RING_REQ_CLEAR_SF port nid r =
     sim_row RING_STATE_IDLE [] r"
| "sim_fsm_idle now RING_REQ_RAPS_SF port nid r =
     sim_row RING_STATE_PROTECTION
      [sim_unblock_nonfailed_ports,
       sim_stop_tx] r"
| "sim_fsm_idle now RING_REQ_RAPS_MS port nid r =
     sim_row RING_STATE_MANUAL_SWITCH
      [sim_unblock_nonfailed_ports,
       sim_stop_tx] r"
| "sim_fsm_idle now RING_REQ_MS port nid r =
     sim_row RING_STATE_MANUAL_SWITCH
      [sim_switch_port RAPS_REQ_MS port] r"
| "sim_fsm_idle now RING_REQ_WTR_EXPIRES port nid r =
     sim_row RING_STATE_IDLE [] r"
| "sim_fsm_idle now RING_REQ_WTR_RUNNING port nid r =
     sim_row RING_STATE_IDLE [] r"
| "sim_fsm_idle now RING_REQ_WTB_EXPIRES port nid r =
     sim_row RING_STATE_IDLE [] r"
| "sim_fsm_idle now RING_REQ_WTB_RUNNING port nid r =
     sim_row RING_STATE_IDLE [] r"
| "sim_fsm_idle now RING_REQ_RAPS_NR_RB port nid r =
     sim_row RING_STATE_IDLE
      [sim_unblock_other_rpl,
       guard_do (\<lambda>r. \<not> s_is_rpl_owner r) [sim_stop_tx]] r"
| "sim_fsm_idle now RING_REQ_RAPS_NR port nid r =
     sim_row RING_STATE_IDLE
      [cond (\<lambda>r. if \<not> s_is_rpl_owner r \<and> \<not> s_is_rpl_neighbour r then sim_node_lt_remote r nid
           else Inr False)
         [sim_unblock_nonfailed_ports, sim_stop_tx] []] r"
| "sim_fsm_idle now RING_REQ_INVALID port nid r =
     sim_row RING_STATE_IDLE [] r"

text \<open>Rows 16 to 29, \<^verbatim>\<open>RING_STATE_PROTECTION\<close>.\<close>

fun sim_fsm_protection :: "tick \<Rightarrow> ring_request \<Rightarrow> port_ptr \<Rightarrow> bytes option \<Rightarrow> sim_ring
    \<Rightarrow> fault + (sim_ring \<times> ring_state)" where
  "sim_fsm_protection now RING_REQ_CLEAR port nid r =
     sim_row RING_STATE_PROTECTION [] r"
| "sim_fsm_protection now RING_REQ_FS port nid r =
     sim_row RING_STATE_FORCED_SWITCH
      [sim_switch_port RAPS_REQ_FS port] r"
| "sim_fsm_protection now RING_REQ_RAPS_FS port nid r =
     sim_row RING_STATE_FORCED_SWITCH
      [sim_unblock_port (Some PORT0),
       sim_unblock_port (Some PORT1),
       sim_stop_tx] r"
| "sim_fsm_protection now RING_REQ_SF port nid r =
     sim_row RING_STATE_PROTECTION
      [sim_switch_port RAPS_REQ_SF port] r"
| "sim_fsm_protection now RING_REQ_CLEAR_SF port nid r =
     sim_row RING_STATE_PENDING
      [sim_start_guard_timer now,
       sim_start_tx RAPS_REQ_NR 0,
       guard_do (\<lambda>r. s_is_rpl_owner r \<and> s_is_revertive r) [sim_start_wtr_timer now]] r"
| "sim_fsm_protection now RING_REQ_RAPS_SF port nid r =
     sim_row RING_STATE_PROTECTION [] r"
| "sim_fsm_protection now RING_REQ_RAPS_MS port nid r =
     sim_row RING_STATE_PROTECTION [] r"
| "sim_fsm_protection now RING_REQ_MS port nid r =
     sim_row RING_STATE_PROTECTION [] r"
| "sim_fsm_protection now RING_REQ_WTR_EXPIRES port nid r =
     sim_row RING_STATE_PROTECTION [] r"
| "sim_fsm_protection now RING_REQ_WTR_RUNNING port nid r =
     sim_row RING_STATE_PROTECTION [] r"
| "sim_fsm_protection now RING_REQ_WTB_EXPIRES port nid r =
     sim_row RING_STATE_PROTECTION [] r"
| "sim_fsm_protection now RING_REQ_WTB_RUNNING port nid r =
     sim_row RING_STATE_PROTECTION [] r"
| "sim_fsm_protection now RING_REQ_RAPS_NR_RB port nid r =
     sim_row RING_STATE_PENDING [] r"
| "sim_fsm_protection now RING_REQ_RAPS_NR port nid r =
     sim_row RING_STATE_PENDING
      [guard_do (\<lambda>r. s_is_rpl_owner r \<and> s_is_revertive r) [sim_start_wtr_timer now]] r"
| "sim_fsm_protection now RING_REQ_INVALID port nid r =
     sim_row RING_STATE_PROTECTION [] r"

text \<open>Rows 30 to 43, \<^verbatim>\<open>RING_STATE_MANUAL_SWITCH\<close>.\<close>

fun sim_fsm_manual_switch :: "tick \<Rightarrow> ring_request \<Rightarrow> port_ptr \<Rightarrow> bytes option \<Rightarrow> sim_ring
    \<Rightarrow> fault + (sim_ring \<times> ring_state)" where
  "sim_fsm_manual_switch now RING_REQ_CLEAR port nid r =
     sim_row RING_STATE_PENDING
      [cond (\<lambda>r. bind_res (sim_is_port_blocked (Some PORT1) r) (\<lambda>b. if b then Inr True
           else sim_is_port_blocked (Some PORT0) r))
         [sim_start_guard_timer now,
          sim_start_tx RAPS_REQ_NR 0,
          guard_do (\<lambda>r. s_is_rpl_owner r \<and> s_is_revertive r) [sim_start_wtb_timer now]]
         []] r"
| "sim_fsm_manual_switch now RING_REQ_FS port nid r =
     sim_row RING_STATE_FORCED_SWITCH
      [sim_switch_port RAPS_REQ_FS port] r"
| "sim_fsm_manual_switch now RING_REQ_RAPS_FS port nid r =
     sim_row RING_STATE_FORCED_SWITCH
      [sim_unblock_port (Some PORT0),
       sim_unblock_port (Some PORT1),
       sim_stop_tx] r"
| "sim_fsm_manual_switch now RING_REQ_SF port nid r =
     sim_row RING_STATE_PROTECTION
      [sim_switch_port RAPS_REQ_SF port] r"
| "sim_fsm_manual_switch now RING_REQ_CLEAR_SF port nid r =
     sim_row RING_STATE_MANUAL_SWITCH [] r"
| "sim_fsm_manual_switch now RING_REQ_RAPS_SF port nid r =
     sim_row RING_STATE_MANUAL_SWITCH
      [sim_unblock_nonfailed_ports,
       sim_stop_tx] r"
| "sim_fsm_manual_switch now RING_REQ_RAPS_MS port nid r =
     bind_res (sim_is_port_blocked (Some PORT0) r) (\<lambda>b0.
     bind_res (if b0 then Inr True else sim_is_port_blocked (Some PORT1) r) (\<lambda>b.
     if b
     then sim_row RING_STATE_PENDING
           [sim_start_guard_timer now,
            sim_start_tx RAPS_REQ_NR 0,
            guard_do (\<lambda>r. s_is_rpl_owner r \<and> s_is_revertive r) [sim_start_wtb_timer now]] r
     else sim_row RING_STATE_MANUAL_SWITCH [] r))"
| "sim_fsm_manual_switch now RING_REQ_MS port nid r =
     sim_row RING_STATE_MANUAL_SWITCH [] r"
| "sim_fsm_manual_switch now RING_REQ_WTR_EXPIRES port nid r =
     sim_row RING_STATE_MANUAL_SWITCH [] r"
| "sim_fsm_manual_switch now RING_REQ_WTR_RUNNING port nid r =
     sim_row RING_STATE_MANUAL_SWITCH [] r"
| "sim_fsm_manual_switch now RING_REQ_WTB_EXPIRES port nid r =
     sim_row RING_STATE_MANUAL_SWITCH [] r"
| "sim_fsm_manual_switch now RING_REQ_WTB_RUNNING port nid r =
     sim_row RING_STATE_MANUAL_SWITCH [] r"
| "sim_fsm_manual_switch now RING_REQ_RAPS_NR_RB port nid r =
     sim_row RING_STATE_PENDING [] r"
| "sim_fsm_manual_switch now RING_REQ_RAPS_NR port nid r =
     sim_row RING_STATE_PENDING
      [guard_do (\<lambda>r. s_is_rpl_owner r \<and> s_is_revertive r) [sim_start_wtb_timer now]] r"
| "sim_fsm_manual_switch now RING_REQ_INVALID port nid r =
     sim_row RING_STATE_MANUAL_SWITCH [] r"

text \<open>Rows 44 to 57, \<^verbatim>\<open>RING_STATE_FORCED_SWITCH\<close>.\<close>

fun sim_fsm_forced_switch :: "tick \<Rightarrow> ring_request \<Rightarrow> port_ptr \<Rightarrow> bytes option \<Rightarrow> sim_ring
    \<Rightarrow> fault + (sim_ring \<times> ring_state)" where
  "sim_fsm_forced_switch now RING_REQ_CLEAR port nid r =
     sim_row RING_STATE_PENDING
      [cond (\<lambda>r. bind_res (sim_is_port_blocked (Some PORT0) r) (\<lambda>b. if b then Inr True
           else sim_is_port_blocked (Some PORT1) r))
         [sim_start_guard_timer now,
          sim_start_tx RAPS_REQ_NR 0,
          guard_do (\<lambda>r. s_is_rpl_owner r \<and> s_is_revertive r) [sim_start_wtb_timer now]]
         []] r"
| "sim_fsm_forced_switch now RING_REQ_FS port nid r =
     sim_row RING_STATE_FORCED_SWITCH
      [sim_block_port port,
       sim_start_tx RAPS_REQ_FS 0,
       sim_flush_fdb] r"
| "sim_fsm_forced_switch now RING_REQ_RAPS_FS port nid r =
     sim_row RING_STATE_FORCED_SWITCH [] r"
| "sim_fsm_forced_switch now RING_REQ_SF port nid r =
     sim_row RING_STATE_FORCED_SWITCH [] r"
| "sim_fsm_forced_switch now RING_REQ_CLEAR_SF port nid r =
     sim_row RING_STATE_FORCED_SWITCH [] r"
| "sim_fsm_forced_switch now RING_REQ_RAPS_SF port nid r =
     sim_row RING_STATE_FORCED_SWITCH [] r"
| "sim_fsm_forced_switch now RING_REQ_RAPS_MS port nid r =
     sim_row RING_STATE_FORCED_SWITCH [] r"
| "sim_fsm_forced_switch now RING_REQ_MS port nid r =
     sim_row RING_STATE_FORCED_SWITCH [] r"
| "sim_fsm_forced_switch now RING_REQ_WTR_EXPIRES port nid r =
     sim_row RING_STATE_FORCED_SWITCH [] r"
| "sim_fsm_forced_switch now RING_REQ_WTR_RUNNING port nid r =
     sim_row RING_STATE_FORCED_SWITCH [] r"
| "sim_fsm_forced_switch now RING_REQ_WTB_EXPIRES port nid r =
     sim_row RING_STATE_FORCED_SWITCH [] r"
| "sim_fsm_forced_switch now RING_REQ_WTB_RUNNING port nid r =
     sim_row RING_STATE_FORCED_SWITCH [] r"
| "sim_fsm_forced_switch now RING_REQ_RAPS_NR_RB port nid r =
     sim_row RING_STATE_PENDING [] r"
| "sim_fsm_forced_switch now RING_REQ_RAPS_NR port nid r =
     sim_row RING_STATE_PENDING
      [guard_do (\<lambda>r. s_is_rpl_owner r \<and> s_is_revertive r) [sim_start_wtb_timer now]] r"
| "sim_fsm_forced_switch now RING_REQ_INVALID port nid r =
     sim_row RING_STATE_FORCED_SWITCH [] r"

text \<open>Rows 58 to 71, \<^verbatim>\<open>RING_STATE_PENDING\<close>.\<close>

fun sim_fsm_pending :: "tick \<Rightarrow> ring_request \<Rightarrow> port_ptr \<Rightarrow> bytes option \<Rightarrow> sim_ring
    \<Rightarrow> fault + (sim_ring \<times> ring_state)" where
  "sim_fsm_pending now RING_REQ_CLEAR port nid r =
     sim_row RING_STATE_IDLE
      [guard_do (\<lambda>r. s_is_rpl_owner r)
         [sim_stop_wtr_timer, sim_stop_wtb_timer, sim_revert_rpl (RAPS_FLAG_RB OR RAPS_FLAG_DNF)]] r"
| "sim_fsm_pending now RING_REQ_FS port nid r =
     sim_row RING_STATE_FORCED_SWITCH
      [sim_switch_port RAPS_REQ_FS port,
       guard_do (\<lambda>r. s_is_rpl_owner r) [sim_stop_wtr_timer, sim_stop_wtb_timer]] r"
| "sim_fsm_pending now RING_REQ_RAPS_FS port nid r =
     sim_row RING_STATE_FORCED_SWITCH
      [sim_unblock_port (Some PORT0),
       sim_unblock_port (Some PORT1),
       sim_stop_tx,
       guard_do (\<lambda>r. s_is_rpl_owner r) [sim_stop_wtr_timer, sim_stop_wtb_timer]] r"
| "sim_fsm_pending now RING_REQ_SF port nid r =
     sim_row RING_STATE_PROTECTION
      [sim_switch_port RAPS_REQ_SF port,
       guard_do (\<lambda>r. s_is_rpl_owner r) [sim_stop_wtr_timer, sim_stop_wtb_timer]] r"
| "sim_fsm_pending now RING_REQ_CLEAR_SF port nid r =
     sim_row RING_STATE_PENDING [] r"
| "sim_fsm_pending now RING_REQ_RAPS_SF port nid r =
     sim_row RING_STATE_PROTECTION
      [sim_unblock_nonfailed_ports,
       sim_stop_tx,
       guard_do (\<lambda>r. s_is_rpl_owner r) [sim_stop_wtr_timer, sim_stop_wtb_timer]] r"
| "sim_fsm_pending now RING_REQ_RAPS_MS port nid r =
     sim_row RING_STATE_MANUAL_SWITCH
      [sim_unblock_nonfailed_ports,
       sim_stop_tx,
       guard_do (\<lambda>r. s_is_rpl_owner r) [sim_stop_wtr_timer, sim_stop_wtb_timer]] r"
| "sim_fsm_pending now RING_REQ_MS port nid r =
     sim_row RING_STATE_MANUAL_SWITCH
      [guard_do (\<lambda>r. s_is_rpl_owner r) [sim_stop_wtr_timer, sim_stop_wtb_timer],
       sim_switch_port RAPS_REQ_MS port] r"
| "sim_fsm_pending now RING_REQ_WTR_EXPIRES port nid r =
     sim_row RING_STATE_IDLE
      [guard_do (\<lambda>r. s_is_rpl_owner r)
         [sim_stop_wtb_timer, sim_revert_rpl (RAPS_FLAG_DNF OR RAPS_FLAG_RB)]] r"
| "sim_fsm_pending now RING_REQ_WTR_RUNNING port nid r =
     sim_row RING_STATE_PENDING [] r"
| "sim_fsm_pending now RING_REQ_WTB_EXPIRES port nid r =
     sim_row RING_STATE_IDLE
      [guard_do (\<lambda>r. s_is_rpl_owner r)
         [sim_stop_wtr_timer, sim_revert_rpl (RAPS_FLAG_RB OR RAPS_FLAG_DNF)]] r"
| "sim_fsm_pending now RING_REQ_WTB_RUNNING port nid r =
     sim_row RING_STATE_PENDING [] r"
| "sim_fsm_pending now RING_REQ_RAPS_NR_RB port nid r =
     sim_row RING_STATE_IDLE
      [guard_do (\<lambda>r. s_is_rpl_owner r) [sim_stop_wtr_timer, sim_stop_wtb_timer],
       guard_do (\<lambda>r. \<not> s_is_rpl_owner r \<and> \<not> s_is_rpl_neighbour r)
         [sim_unblock_port (Some PORT0), sim_unblock_port (Some PORT1), sim_stop_tx],
       guard_do (\<lambda>r. s_is_rpl_neighbour r) [sim_block_rpl, sim_unblock_other_rpl, sim_stop_tx]] r"
| "sim_fsm_pending now RING_REQ_RAPS_NR port nid r =
     sim_row RING_STATE_PENDING
      [cond (\<lambda>r. sim_node_lt_remote r nid) [sim_unblock_nonfailed_ports, sim_stop_tx] []] r"
| "sim_fsm_pending now RING_REQ_INVALID port nid r =
     sim_row RING_STATE_PENDING [] r"

section \<open>The machine\<close>

fun sim_fsm_row :: "tick \<Rightarrow> ring_request \<Rightarrow> port_ptr \<Rightarrow> bytes option \<Rightarrow> sim_ring
    \<Rightarrow> fault + (sim_ring \<times> ring_state)" where
  "sim_fsm_row now req port nid r = (case s_state r of
     RING_STATE_INIT \<Rightarrow> sim_fsm_init now r
   | RING_STATE_IDLE \<Rightarrow> sim_fsm_idle now req port nid r
   | RING_STATE_PROTECTION \<Rightarrow> sim_fsm_protection now req port nid r
   | RING_STATE_MANUAL_SWITCH \<Rightarrow> sim_fsm_manual_switch now req port nid r
   | RING_STATE_FORCED_SWITCH \<Rightarrow> sim_fsm_forced_switch now req port nid r
   | RING_STATE_PENDING \<Rightarrow> sim_fsm_pending now req port nid r)"

definition sim_ring_fsm :: "tick \<Rightarrow> sim_ring \<Rightarrow> ring_request \<Rightarrow> port_ptr \<Rightarrow> bytes option \<Rightarrow> fault + sim_ring" where
  "sim_ring_fsm now r req port nid =
     bind_res (sim_fsm_dedup r req port nid) (\<lambda>dupe.
       if dupe then Inr r
       else bind_res (sim_fsm_row now req port nid (sim_fsm_save req port nid r)) (\<lambda>(r', new_state).
              Inr (r'\<lparr>s_state := new_state\<rparr>)))"

section \<open>Priority logic\<close>

definition sim_clear_denied :: "sim_ring \<Rightarrow> bool" where
  "sim_clear_denied r =
     (let denied = True;
          denied = (if s_local_request r = RING_REQ_MS \<or> s_local_request r = RING_REQ_FS
                    then False else denied)
      in if s_is_rpl_owner r then
           (if s_state r \<noteq> RING_STATE_FORCED_SWITCH \<and> s_state r \<noteq> RING_STATE_MANUAL_SWITCH \<and>
               s_state r \<noteq> RING_STATE_PROTECTION \<and> s_state r \<noteq> RING_STATE_IDLE
            then False else denied)
         else denied)"

definition sim_ring_process_request ::
  "tick \<Rightarrow> sim_ring \<Rightarrow> ring_request \<Rightarrow> port_ptr \<Rightarrow> bytes option \<Rightarrow> fault + sim_ring" where
  "sim_ring_process_request now r request port nid =
     (if s_version r = 1 \<and> request \<in> {RING_REQ_FS, RING_REQ_MS} then Inr r
      else if request = RING_REQ_SF \<and> s_state r = RING_STATE_FORCED_SWITCH then Inr r
      else if request = RING_REQ_CLEAR \<and> sim_clear_denied r then Inr r
      else
        let r1 = (if s_local_request r = RING_REQ_SF \<and> request = RING_REQ_CLEAR_SF
                  then r\<lparr>s_local_request := RING_REQ_INVALID\<rparr> else r)
        in if s_local_request r1 < request then
             let r2 = r1\<lparr>s_local_request := RING_REQ_INVALID\<rparr>;
                 r3 = (if request \<in> {RING_REQ_SF, RING_REQ_FS, RING_REQ_MS}
                       then r2\<lparr>s_local_request := request\<rparr> else r2)
             in sim_ring_fsm now r3 request port nid
           else if request = s_local_request r1 then Inr r1
           else Inr r1)"

end
