(* ===== verification/SimRefines.thy ===== *)
theory SimRefines
  imports SimFsm Protection
begin

text \<open>
  The simulator's machine is the kernel's. The abstraction forgets what only the simulator has
  and reduces its clock to the kernel's 32 bits; every statement, every row and the request
  logic commute with it, except that the simulator exits where the kernel drops a repetition.
\<close>

named_theorems sim_simps \<open>the abstraction on the parts of a ring\<close>
named_theorems same_intros \<open>statements that commute with the abstraction\<close>

section \<open>The abstraction\<close>

definition abs_port :: "sim_port \<Rightarrow> er_port" where
  "abs_port p = er_port_zero\<lparr>port_name := (case sp_name p of None \<Rightarrow> [] | Some (_, n) \<Rightarrow> n),
     is_blocked := sp_is_blocked p, is_failed := sp_is_failed p\<rparr>"

definition abs_raps :: "ri_raps \<Rightarrow> er_raps" where
  "abs_raps f = \<lparr>rp_ring_id = ri_ring_id f, rp_vid = ri_vid f, rp_version = ri_version f,
     rp_flags = ri_flags f, rp_request = ri_request f, rp_subcode = ri_subcode f,
     rp_node_id = ri_node_id f\<rparr>"

definition abs_ring :: "sim_ring \<Rightarrow> er_ring" where
  "abs_ring r = \<lparr>ring_addr = s_addr r, port0_addr = sp_addr (s_port0 r), port0 = abs_port (s_port0 r),
     port1_addr = sp_addr (s_port1 r), port1 = abs_port (s_port1 r), vale_name = [],
     is_rpl_owner = s_is_rpl_owner r, is_rpl_neighbour = s_is_rpl_neighbour r,
     is_revertive = s_is_revertive r, rpl_port = s_rpl_port r, version = s_version r,
     ring_id = s_ring_id r, raps_vid = s_raps_vid r, node_id = s_node_id r,
     guard_timer_active = s_guard_timer_active r,
     guard_timer_active_since = ucast (s_guard_timer_active_since r),
     wtr_timer_active = s_wtr_timer_active r, wtr_timer_active_since = ucast (s_wtr_timer_active_since r),
     wtb_timer_active = s_wtb_timer_active r, wtb_timer_active_since = ucast (s_wtb_timer_active_since r),
     local_request = s_local_request r, state = s_state r, prev_request = s_prev_request r,
     prev_request_port = s_prev_request_port r,
     prev_request_remote_node_id = s_prev_request_remote_node_id r,
     is_sending_raps = s_is_sending_raps r, raps_addr = s_raps_addr r, raps = abs_raps (s_raps r),
     raps_frame_addr = s_raps_frame_addr r, raps_frame = s_raps_frame r,
     raps_frame_len = s_raps_frame_len r, raps_bursts_remain = s_raps_bursts_remain r,
     guard_time = 0, wtr_time = 0, wtb_time = 0, active = True\<rparr>"

text \<open>A failed \<^verbatim>\<open>assert (port)\<close> stands where the kernel dereferences NULL.\<close>

fun kfault :: "fault \<Rightarrow> fault" where
  "kfault Aborted = NullPtr"
| "kfault f = f"

abbreviation lift_res :: "('a \<Rightarrow> 'b) \<Rightarrow> fault + 'a \<Rightarrow> fault + 'b" where
  "lift_res h \<equiv> map_sum kfault h"

lemma abs_sel [sim_simps]:
  "is_rpl_owner (abs_ring r) = s_is_rpl_owner r" "is_rpl_neighbour (abs_ring r) = s_is_rpl_neighbour r"
  "is_revertive (abs_ring r) = s_is_revertive r" "rpl_port (abs_ring r) = s_rpl_port r"
  "version (abs_ring r) = s_version r" "node_id (abs_ring r) = s_node_id r"
  "local_request (abs_ring r) = s_local_request r" "state (abs_ring r) = s_state r"
  "prev_request (abs_ring r) = s_prev_request r" "prev_request_port (abs_ring r) = s_prev_request_port r"
  "prev_request_remote_node_id (abs_ring r) = s_prev_request_remote_node_id r"
  "is_sending_raps (abs_ring r) = s_is_sending_raps r" "raps (abs_ring r) = abs_raps (s_raps r)"
  "raps_frame (abs_ring r) = s_raps_frame r" "raps_frame_len (abs_ring r) = s_raps_frame_len r"
  "raps_bursts_remain (abs_ring r) = s_raps_bursts_remain r"
  "guard_timer_active (abs_ring r) = s_guard_timer_active r"
  "wtr_timer_active (abs_ring r) = s_wtr_timer_active r"
  "port0 (abs_ring r) = abs_port (s_port0 r)" "port1 (abs_ring r) = abs_port (s_port1 r)"
  "get_port p (abs_ring r) = abs_port (sim_get_port p r)"
  by (cases p; simp add: abs_ring_def)+

lemma abs_raps_sel [sim_simps]:
  "rp_request (abs_raps f) = ri_request f" "rp_flags (abs_raps f) = ri_flags f"
  "rp_node_id (abs_raps f) = ri_node_id f" "rp_ring_id (abs_raps f) = ri_ring_id f"
  "rp_subcode (abs_raps f) = ri_subcode f" "rp_vid (abs_raps f) = ri_vid f"
  "abs_raps ri_raps_zero = er_raps_zero"
  by (simp_all add: abs_raps_def ri_raps_zero_def er_raps_zero_def)

lemma abs_port_sel [sim_simps]:
  "is_blocked (abs_port p) = sp_is_blocked p" "is_failed (abs_port p) = sp_is_failed p"
  "er_port_block (abs_port p) = abs_port (ring_port_block p)"
  "er_port_unblock (abs_port p) = abs_port (ring_port_unblock p)"
  by (simp_all add: abs_port_def er_port_block_def er_port_unblock_def ring_port_block_def
      ring_port_unblock_def er_port_zero_def)

lemma abs_upd [sim_simps]:
  "(abs_ring r)\<lparr>local_request := q\<rparr> = abs_ring (r\<lparr>s_local_request := q\<rparr>)"
  "(abs_ring r)\<lparr>state := st\<rparr> = abs_ring (r\<lparr>s_state := st\<rparr>)"
  "(abs_ring r)\<lparr>prev_request := q\<rparr> = abs_ring (r\<lparr>s_prev_request := q\<rparr>)"
  "(abs_ring r)\<lparr>prev_request_port := pp\<rparr> = abs_ring (r\<lparr>s_prev_request_port := pp\<rparr>)"
  "(abs_ring r)\<lparr>prev_request_remote_node_id := n\<rparr> = abs_ring (r\<lparr>s_prev_request_remote_node_id := n\<rparr>)"
  "(abs_ring r)\<lparr>is_sending_raps := b\<rparr> = abs_ring (r\<lparr>s_is_sending_raps := b\<rparr>)"
  "(abs_ring r)\<lparr>raps_bursts_remain := i\<rparr> = abs_ring (r\<lparr>s_raps_bursts_remain := i\<rparr>)"
  "(abs_ring r)\<lparr>guard_timer_active := b\<rparr> = abs_ring (r\<lparr>s_guard_timer_active := b\<rparr>)"
  "(abs_ring r)\<lparr>wtr_timer_active := b\<rparr> = abs_ring (r\<lparr>s_wtr_timer_active := b\<rparr>)"
  "(abs_ring r)\<lparr>wtb_timer_active := b\<rparr> = abs_ring (r\<lparr>s_wtb_timer_active := b\<rparr>)"
  by (simp_all add: abs_ring_def)

lemma abs_upd_timer [sim_simps]:
  "(abs_ring r)\<lparr>guard_timer_active_since := ucast now, guard_timer_active := b\<rparr> =
     abs_ring (r\<lparr>s_guard_timer_active_since := now, s_guard_timer_active := b\<rparr>)"
  "(abs_ring r)\<lparr>wtr_timer_active_since := ucast now, wtr_timer_active := b\<rparr> =
     abs_ring (r\<lparr>s_wtr_timer_active_since := now, s_wtr_timer_active := b\<rparr>)"
  "(abs_ring r)\<lparr>wtb_timer_active_since := ucast now, wtb_timer_active := b\<rparr> =
     abs_ring (r\<lparr>s_wtb_timer_active_since := now, s_wtb_timer_active := b\<rparr>)"
  by (simp_all add: abs_ring_def)

lemma abs_upd_port [sim_simps]:
  "upd_port p er_port_block (abs_ring r) = abs_ring (sim_upd_port p ring_port_block r)"
  "upd_port p er_port_unblock (abs_ring r) = abs_ring (sim_upd_port p ring_port_unblock r)"
  by (cases p; simp add: abs_ring_def abs_port_sel ring_port_block_def ring_port_unblock_def)+

section \<open>Statements commute\<close>

definition same :: "sim_action \<Rightarrow> action \<Rightarrow> bool" where
  "same f g \<longleftrightarrow> (\<forall>r. g (abs_ring r) = lift_res abs_ring (f r))"

lemma sameD: "same f g \<Longrightarrow> g (abs_ring r) = lift_res abs_ring (f r)"
  by (simp add: same_def)

lemma lift_bind:
  assumes "m' = lift_res h m" and "\<And>x. m = Inr x \<Longrightarrow> k' (h x) = lift_res h' (k x)"
  shows "bind_res m' k' = lift_res h' (bind_res m k)"
  using assms by (cases m) auto

lemma seqs_same: "list_all2 same fs gs \<Longrightarrow> seqs gs (abs_ring r) = lift_res abs_ring (seqs fs r)"
proof (induction fs gs arbitrary: r rule: list_all2_induct)
  case Nil
  then show ?case by simp
next
  case (Cons f fs g gs)
  show ?case
    unfolding seqs.simps by (rule lift_bind [OF sameD [OF Cons.hyps(1)]]) (rule Cons.IH)
qed

lemma same_seqs [same_intros]: "list_all2 same fs gs \<Longrightarrow> same (seqs fs) (seqs gs)"
  by (simp add: same_def seqs_same)

lemma same_cond [same_intros]:
  assumes "\<And>r. c' (abs_ring r) = lift_res (\<lambda>b. b) (c r)" and "list_all2 same th th'" and "list_all2 same el el'"
  shows "same (cond c th el) (cond c' th' el')"
proof -
  have "cond c' th' el' (abs_ring r) = lift_res abs_ring (cond c th el r)" for r
    unfolding cond.simps
    by (rule lift_bind [OF assms(1)]) (simp add: seqs_same [OF assms(2)] seqs_same [OF assms(3)])
  then show ?thesis by (simp add: same_def)
qed

lemma same_guard_do [same_intros]:
  assumes "\<And>r. c' (abs_ring r) = c r" and "list_all2 same fs gs"
  shows "same (guard_do c fs) (guard_do c' gs)"
  by (simp add: same_def assms(1) seqs_same [OF assms(2)])

lemma same_ite [same_intros]:
  assumes "\<And>r. c' (abs_ring r) = c r" and "same f g" and "same f' g'"
  shows "same (\<lambda>r. if c r then f r else f' r) (\<lambda>r. if c' r then g r else g' r)"
  using assms by (simp add: same_def)

lemma same_timers [same_intros]:
  "same sim_stop_guard_timer stop_guard_timer" "same sim_stop_wtr_timer stop_wtr_timer"
  "same sim_stop_wtb_timer stop_wtb_timer" "same sim_stop_tx stop_tx" "same sim_flush_fdb flush_fdb"
  "same (sim_start_guard_timer now) (start_guard_timer (ucast now))"
  "same (sim_start_wtr_timer now) (start_wtr_timer (ucast now))"
  "same (sim_start_wtb_timer now) (start_wtb_timer (ucast now))"
  by (simp_all add: same_def timer_ok sim_simps sim_stop_guard_timer_def sim_stop_wtr_timer_def
      sim_stop_wtb_timer_def sim_stop_tx_def sim_flush_fdb_def sim_start_guard_timer_def
      sim_start_wtr_timer_def sim_start_wtb_timer_def)

lemma same_ports [same_intros]:
  "same (sim_block_port port) (block_port port)" "same (sim_unblock_port port) (unblock_port port)"
  by (cases port; simp add: same_def block_port_def unblock_port_def sim_block_port_def
      sim_unblock_port_def sim_simps)+

lemma abs_is_port_blocked [sim_simps]:
  "is_port_blocked port (abs_ring r) = lift_res (\<lambda>b. b) (sim_is_port_blocked port r)"
  by (cases port) (simp_all add: is_port_blocked_def sim_is_port_blocked_def ring_port_is_blocked_def
      er_port_is_blocked_def sim_simps)

lemma abs_encode [sim_simps]:
  "er_raps_encode (abs_raps f) nid data len = ri_raps_encode f nid data len"
  by (simp add: er_raps_encode_def ri_raps_encode_def sim_simps)

lemma abs_other_port [sim_simps]: "er_ring_other_port port = ring_other_port port"
  by (simp add: er_ring_other_port_def ring_other_port_def)

lemma abs_node_lt [sim_simps]:
  "node_lt_remote (abs_ring r) nid = lift_res (\<lambda>b. b) (sim_node_lt_remote r nid)"
  by (cases nid) (simp_all add: node_lt_remote_def sim_node_lt_remote_def sim_simps)

text \<open>The codec contains no \<^verbatim>\<open>assert\<close> that can fail.\<close>

lemma seqs_not_aborted:
  "list_all (\<lambda>f. \<forall>s. f s \<noteq> Inl Aborted) fs \<Longrightarrow> seqs fs s \<noteq> Inl Aborted"
proof (induction fs arbitrary: s)
  case Nil
  then show ?case by simp
next
  case (Cons f fs)
  then show ?case by (cases "f s") auto
qed

lemma lift_id: "m \<noteq> Inl Aborted \<Longrightarrow> lift_res (\<lambda>x. x) m = m"
  by (cases m; cases "projl m") auto

lemma encode_not_aborted: "ri_raps_encode f nid data max_len \<noteq> Inl Aborted"
proof -
  have w: "memcpy_to i src d \<noteq> Inl Aborted" "memset_to i v d \<noteq> Inl Aborted"
    "WRITE_BYTE i v d \<noteq> Inl Aborted" "WRITE_WORD i x d \<noteq> Inl Aborted" for i src d v x
    by (simp_all add: memcpy_to_def memset_to_def WRITE_BYTE_def WRITE_WORD_def)
  have b: "bind_res m k \<noteq> Inl Aborted" if "m \<noteq> Inl Aborted" "\<And>x. k x \<noteq> Inl Aborted"
    for m :: "fault + 'x" and k :: "'x \<Rightarrow> fault + bool \<times> bytes"
    using that by (cases m) auto
  show ?thesis
  proof (cases "max_len < 55")
    case False
    then show ?thesis
      unfolding ri_raps_encode_def if_not_P [OF False] by (intro b seqs_not_aborted) (simp_all add: w)
  qed (simp add: ri_raps_encode_def)
qed

lemma same_start_tx [same_intros]: "same (sim_start_tx q f) (start_tx q f)"
proof -
  have upd: "(abs_ring r)\<lparr>raps := abs_raps rp, raps_frame := fr, raps_bursts_remain := 3\<rparr> =
      abs_ring (r\<lparr>s_raps := rp, s_raps_frame := fr, s_raps_bursts_remain := 3\<rparr>)" for r rp fr
    by (simp add: abs_ring_def)
  have rp: "(abs_raps rp)\<lparr>rp_request := q, rp_flags := f\<rparr> = abs_raps (rp\<lparr>ri_request := q, ri_flags := f\<rparr>)" for rp
    by (simp add: abs_raps_def)
  have nb: "node_bytes own [] p = lift_res (\<lambda>x. x) (node_bytes own [] p)" for own p
    by (cases p) (simp_all add: node_bytes_def load_n_def)
  show ?thesis
    unfolding same_def start_tx_def sim_start_tx_def Let_def sim_simps rp
    by (auto intro!: lift_bind [OF nb] lift_bind [OF lift_id [symmetric, OF encode_not_aborted]] lift_bind
        simp: upd sim_simps split: prod.splits)
qed

section \<open>Rows commute\<close>

lemma same_unblock_nonfailed [same_intros]: "same sim_unblock_nonfailed_ports unblock_nonfailed_ports"
  unfolding sim_unblock_nonfailed_ports_def unblock_nonfailed_ports_def
  by (intro same_seqs list.rel_intros same_guard_do same_ports) (simp_all add: sim_simps)

lemma same_rpl [same_intros]:
  "same sim_block_rpl block_rpl" "same sim_unblock_other_rpl unblock_other_rpl"
  using sameD [OF same_ports(1)] sameD [OF same_ports(2)]
  by (simp_all add: same_def sim_block_rpl_def block_rpl_def sim_unblock_other_rpl_def
      unblock_other_rpl_def sim_simps)

lemma same_switch_port [same_intros]: "same (sim_switch_port q port) (switch_port q port)"
  unfolding sim_switch_port_def switch_port_def abs_other_port
  by (intro same_cond list.rel_intros same_intros) (simp add: sim_simps)

lemma same_revert_rpl [same_intros]: "same (sim_revert_rpl f) (revert_rpl f)"
proof -
  have "same (cond (sim_is_port_blocked p) [sim_start_tx RAPS_REQ_NR f, sim_unblock_port (ring_other_port p)]
      [sim_block_port p, sim_start_tx RAPS_REQ_NR RAPS_FLAG_RB, sim_unblock_port (ring_other_port p), sim_flush_fdb])
    (cond (is_port_blocked p) [start_tx RAPS_REQ_NR f, unblock_port (ring_other_port p)]
      [block_port p, start_tx RAPS_REQ_NR RAPS_FLAG_RB, unblock_port (ring_other_port p), flush_fdb])" for p
    by (intro same_cond list.rel_intros same_intros) (simp add: sim_simps)
  then show ?thesis by (simp add: same_def sim_revert_rpl_def revert_rpl_def sim_simps del: cond.simps)
qed

abbreviation abs_result :: "sim_ring \<times> ring_state \<Rightarrow> er_ring \<times> ring_state" where
  "abs_result \<equiv> map_prod abs_ring (\<lambda>st. st)"

lemma row_same:
  "list_all2 same fs gs \<Longrightarrow> row st gs (abs_ring r) = lift_res abs_result (sim_row st fs r)"
  unfolding row_def sim_row_def by (rule lift_bind [OF seqs_same]) simp_all

lemma any_blocked_same:
  "bind_res (is_port_blocked p (abs_ring r)) (\<lambda>b. if b then Inr True else is_port_blocked q (abs_ring r)) =
     lift_res (\<lambda>b. b) (bind_res (sim_is_port_blocked p r) (\<lambda>b. if b then Inr True else sim_is_port_blocked q r))"
  by (rule lift_bind [where h = "\<lambda>b. b"]) (simp_all add: sim_simps)

lemmas row_rules = row_same list.rel_intros same_intros any_blocked_same

lemma idle_same: "fsm_idle (ucast now) req port nid (abs_ring r) = lift_res abs_result (sim_fsm_idle now req port nid r)"
  by (cases req; simp only: fsm_idle.simps sim_fsm_idle.simps; intro row_rules)
    (simp_all add: sim_simps)

lemma protection_same:
  "fsm_protection (ucast now) req port nid (abs_ring r) = lift_res abs_result (sim_fsm_protection now req port nid r)"
  by (cases req; simp only: fsm_protection.simps sim_fsm_protection.simps; intro row_rules)
    (simp_all add: sim_simps)

lemma manual_switch_same:
  "fsm_manual_switch (ucast now) req port nid (abs_ring r) = lift_res abs_result (sim_fsm_manual_switch now req port nid r)"
proof (cases "req = RING_REQ_RAPS_MS")
  case True
  have "row RING_STATE_PENDING [start_guard_timer (ucast now), start_tx RAPS_REQ_NR 0,
      guard_do (\<lambda>r. is_rpl_owner r \<and> is_revertive r) [start_wtb_timer (ucast now)]] (abs_ring r) =
    lift_res abs_result (sim_row RING_STATE_PENDING [sim_start_guard_timer now, sim_start_tx RAPS_REQ_NR 0,
      guard_do (\<lambda>r. s_is_rpl_owner r \<and> s_is_revertive r) [sim_start_wtb_timer now]] r)"
    by (intro row_rules) (simp add: sim_simps)
  moreover have "row RING_STATE_MANUAL_SWITCH [] (abs_ring r) = lift_res abs_result (sim_row RING_STATE_MANUAL_SWITCH [] r)"
    by (intro row_rules)
  ultimately show ?thesis
    unfolding True fsm_manual_switch.simps sim_fsm_manual_switch.simps
    by (auto simp: sim_is_port_blocked_def sim_simps simp del: seqs.simps)
next
  case False
  then show ?thesis
    by (cases req; simp only: fsm_manual_switch.simps sim_fsm_manual_switch.simps simp_thms; (intro row_rules)?)
      (simp_all add: sim_simps any_blocked_same)
qed

lemma forced_switch_same:
  "fsm_forced_switch (ucast now) req port nid (abs_ring r) = lift_res abs_result (sim_fsm_forced_switch now req port nid r)"
  by (cases req; simp only: fsm_forced_switch.simps sim_fsm_forced_switch.simps; intro row_rules)
    (simp_all add: sim_simps any_blocked_same)

lemma pending_same:
  "fsm_pending (ucast now) req port nid (abs_ring r) = lift_res abs_result (sim_fsm_pending now req port nid r)"
  by (cases req; simp only: fsm_pending.simps sim_fsm_pending.simps; intro row_rules)
    (simp_all add: sim_simps)

lemma init_same: "fsm_init (ucast now) (abs_ring r) = lift_res abs_result (sim_fsm_init now r)"
  unfolding fsm_init_def sim_fsm_init_def
  by (intro row_rules) (simp_all add: sim_simps)

lemma row_of_state_same:
  "fsm_row (ucast now) req port nid (abs_ring r) = lift_res abs_result (sim_fsm_row now req port nid r)"
  by (cases "s_state r") (simp_all add: sim_simps init_same idle_same protection_same manual_switch_same
      forced_switch_same pending_same)

section \<open>The machine commutes, repetitions apart\<close>

text \<open>Requests without parameters: the last branch of the de-duplication.\<close>

definition bare_requests :: "ring_request set" where
  "bare_requests = {RING_REQ_WTB_RUNNING, RING_REQ_WTB_EXPIRES, RING_REQ_WTR_RUNNING, RING_REQ_WTR_EXPIRES,
     RING_REQ_CLEAR}"

lemma save_same: "fsm_save req port nid (abs_ring r) = abs_ring (sim_fsm_save req port nid r)"
  by (cases nid) (simp_all add: fsm_save_def sim_fsm_save_def sim_simps)

lemma dedup_same:
  "fsm_dedup (abs_ring r) req port nid =
     (if req \<in> bare_requests \<and> req = s_prev_request r then Inr Impossible
      else lift_res (\<lambda>d. if d then Dupe else Fresh) (sim_fsm_dedup r req port nid))"
  by (cases req) (auto simp: sim_fsm_dedup_def bare_requests_def sim_simps split: option.splits)

lemma sim_ring_fsm_bare:
  "req \<in> bare_requests \<Longrightarrow> req = s_prev_request r \<Longrightarrow> sim_ring_fsm now r req port nid = Inl Exited"
  by (auto simp: sim_ring_fsm_def sim_fsm_dedup_def bare_requests_def)

lemma sim_ring_fsm_same:
  "ring_fsm (ucast now) (abs_ring r) req port nid =
     (if req \<in> bare_requests \<and> req = s_prev_request r then Inr (abs_ring r)
      else lift_res abs_ring (sim_ring_fsm now r req port nid))"
proof (cases "req \<in> bare_requests \<and> req = s_prev_request r")
  case True
  then show ?thesis unfolding ring_fsm_def dedup_same if_P [OF True] by simp
next
  case False
  show ?thesis
    unfolding ring_fsm_def sim_ring_fsm_def dedup_same if_not_P [OF False]
    by (rule lift_bind [OF refl])
      (auto simp: save_same row_of_state_same sim_simps split_def simp del: fsm_row.simps sim_fsm_row.simps
        intro!: lift_bind [where h = abs_result])
qed

lemma clear_denied_same: "clear_denied (abs_ring r) = sim_clear_denied r"
  by (simp add: clear_denied_def sim_clear_denied_def sim_simps)

lemma sim_ring_process_request_eq:
  "sim_ring_process_request now r req port nid =
     (if request_accepted (abs_ring r) req
      then sim_ring_fsm now (r\<lparr>s_local_request := if req \<in> local_requests then req else RING_REQ_INVALID\<rparr>) req port nid
      else Inr r)"
  by (cases req)
    (auto simp: sim_ring_process_request_def request_accepted_def request_sets req_less Let_def sim_simps clear_denied_same)

lemma note_local_same:
  "note_local req (abs_ring r) =
     abs_ring (r\<lparr>s_local_request := if req \<in> local_requests then req else RING_REQ_INVALID\<rparr>)"
  by (simp add: note_local_def sim_simps)

text \<open>The requests on which the simulator exits.\<close>

definition sim_gives_up :: "sim_ring \<Rightarrow> ring_request \<Rightarrow> bool" where
  "sim_gives_up r req \<longleftrightarrow> req \<in> bare_requests \<and> s_prev_request r = req \<and> request_accepted (abs_ring r) req"

text \<open>Claim C5: the simulator and the kernel module run the same machine. For every ring, request and
  clock, the request logic and the 71 rows of the simulator give the ring, or the fault, that the
  kernel's give for the same ring, with one exception: where a WTR, WTB or CLEAR request that the
  priority logic accepts repeats the last one, the simulator exits and the kernel only drops the
  local request.\<close>

theorem sim_equals_kernel:
  "if sim_gives_up r req
   then sim_ring_process_request now r req port nid = Inl Exited \<and>
     ring_process_request (ucast now) (abs_ring r) req port nid = Inr (note_local req (abs_ring r))
   else ring_process_request (ucast now) (abs_ring r) req port nid =
     lift_res abs_ring (sim_ring_process_request now r req port nid)"
  by (auto simp: sim_gives_up_def ring_process_request_eq sim_ring_process_request_eq note_local_same
      sim_ring_fsm_same sim_ring_fsm_bare)

end
