(* ===== verification/SimNode.thy ===== *)
theory SimNode
  imports SimRefines Frames
begin

text \<open>
  The simulator's node: creation and destruction of the ring, its timers, reception and
  transmission of R-APS messages (\<^verbatim>\<open>src/extras/sim/ring.c\<close> lines 807--887 and 985--1041) and the
  callbacks of the event loop that drive them (\<^verbatim>\<open>ringd.c\<close>). The event loop is libev's; a
  callback runs at one value \<open>now\<close> of the clock.
\<close>

section \<open>Creation and destruction\<close>

text \<open>The log of all request names that \<^verbatim>\<open>ring_create\<close> starts with.\<close>

fun list_requests :: "nat list \<Rightarrow> fault + string list" where
  "list_requests [] = Inr []"
| "list_requests (q # qs) =
     bind_res (sim_ring_req_str q) (\<lambda>n. bind_res (list_requests qs) (\<lambda>ns. Inr (n # ns)))"

text \<open>The structure after \<^verbatim>\<open>memset\<close> and the assignments, up to the node id.\<close>

definition sim_ring_new ::
  "nat \<Rightarrow> sim_port \<Rightarrow> sim_port \<Rightarrow> port_ptr \<Rightarrow> bool \<Rightarrow> bool \<Rightarrow> bytes \<Rightarrow> sim_ring" where
  "sim_ring_new addr p0 p1 rpl own nb nid =
     \<lparr>s_addr = addr, s_port0 = p0, s_port1 = p1, s_is_rpl_owner = own, s_is_rpl_neighbour = nb,
      s_is_revertive = True, s_rpl_port = rpl, s_version = 0, s_ring_id = 1, s_raps_vid = 4093,
      s_node_id = take 6 nid, s_guard_timer_active = False, s_guard_timer_active_since = 0,
      s_wtr_timer_active = False, s_wtr_timer_active_since = 0, s_wtb_timer_active = False,
      s_wtb_timer_active_since = 0, s_local_request = RING_REQ_INVALID, s_state = RING_STATE_INIT,
      s_prev_request = RING_REQ_INVALID, s_prev_request_port = None,
      s_prev_request_remote_node_id = replicate 6 0, s_is_sending_raps = False, s_raps_addr = 0,
      s_raps = ri_raps_zero, s_raps_frame_addr = 0, s_raps_frame = [], s_raps_frame_len = 0,
      s_raps_bursts_remain = 0\<rparr>"

definition sim_ring_set_raps :: "nat \<Rightarrow> ri_raps \<Rightarrow> sim_ring \<Rightarrow> sim_ring" where
  "sim_ring_set_raps addr rp ret =
     (let rp = rp\<lparr>ri_vid := word_of_int (s_raps_vid ret), ri_ring_id := word_of_int (s_ring_id ret),
                 ri_node_id := NodeRing, ri_subcode := 0, ri_flags := 0xff\<rparr>
      in ret\<lparr>s_raps_addr := addr, s_raps := rp, s_raps_frame_len := ri_raps_get_len rp\<rparr>)"

text \<open>The frame buffer is not cleared; it holds what \<^verbatim>\<open>malloc\<close> left in it.\<close>

definition sim_ring_create ::
  "'w sim_api \<Rightarrow> tick \<Rightarrow> sim_port \<Rightarrow> sim_port \<Rightarrow> port_ptr \<Rightarrow> bool \<Rightarrow> bool \<Rightarrow> bytes \<Rightarrow> 'w
     \<Rightarrow> fault + (sim_ring \<times> 'w)" where
  "sim_ring_create api now p0 p1 rpl own nb nid w =
     bind_res (list_requests [req_code RING_REQ_INVALID..<Suc (req_code RING_REQ_CLEAR)]) (\<lambda>_.
     case u_malloc api SOBJ_RING w of
       (None, w1) \<Rightarrow> Inl Exited
     | (Some (addr, _), w1) \<Rightarrow>
       let ret = sim_ring_new addr p0 p1 rpl own nb nid in
       bind_res (ri_raps_create api w1) (\<lambda>(ra, rp, w2).
       let ret = sim_ring_set_raps ra rp ret in
       case u_malloc api (SOBJ_FRAME (s_raps_frame_len ret)) w2 of
         (None, w3) \<Rightarrow> Inl Exited
       | (Some (fa, junk), w3) \<Rightarrow>
         bind_res (sim_ring_fsm now (ret\<lparr>s_raps_frame_addr := fa, s_raps_frame := junk\<rparr>) RING_REQ_INVALID None None)
           (\<lambda>ret. Inr (ret, w3))))"

definition sim_ring_destroy :: "'w sim_api \<Rightarrow> sim_ring option \<Rightarrow> 'w \<Rightarrow> 'w" where
  "sim_ring_destroy api r w =
     (case r of
        None \<Rightarrow> w
      | Some r \<Rightarrow>
          let w = u_free api (s_raps_frame_addr r) w;
              w = ri_raps_destroy api (s_raps_addr r) w;
              w = ring_port_destroy api (s_port0 r) w;
              w = ring_port_destroy api (s_port1 r) w
          in u_free api (s_addr r) w)"

section \<open>Transmission and timers\<close>

definition ring_send_raps :: "'w sim_api \<Rightarrow> sim_ring \<Rightarrow> 'w \<Rightarrow> 'w" where
  "ring_send_raps api r w =
     (let (_, w) = ring_port_send api (s_port0 r) (s_raps_frame r) (s_raps_frame_len r) w;
          (_, w) = ring_port_send api (s_port1 r) (s_raps_frame r) (s_raps_frame_len r) w
      in w)"

text \<open>\<^verbatim>\<open>WTR_TIMER\<close> is 15 s; the comparison is one of unsigned 64-bit values.\<close>

definition WTR_TIMER :: nat where "WTR_TIMER = 15"

definition ring_timer :: "tick \<Rightarrow> sim_ring \<Rightarrow> fault + sim_ring" where
  "ring_timer now r =
     (if s_wtr_timer_active r then
        (if of_nat (WTR_TIMER * 1000) \<le> tick_diff_msec now (s_wtr_timer_active_since r) then
           bind_res (sim_ring_process_request now r RING_REQ_WTR_EXPIRES None None) (\<lambda>r.
             Inr (r\<lparr>s_wtr_timer_active := False\<rparr>))
         else Inr r)
      else Inr r)"

text \<open>
  The transmission callback returns the value of \<^verbatim>\<open>timer.repeat\<close> in milliseconds; it is left alone while
  nothing is sent. From which run on libev goes by a new value is left to libev.
\<close>

definition send_raps_cb :: "'w sim_api \<Rightarrow> sim_ring option \<Rightarrow> nat \<Rightarrow> 'w \<Rightarrow> sim_ring option \<times> nat \<times> 'w" where
  "send_raps_cb api ring interval w =
     (case ring of
        None \<Rightarrow> (None, interval, w)
      | Some r \<Rightarrow>
          if \<not> s_is_sending_raps r then (Some r, interval, w)
          else
            let (r, interval) = (if s_raps_bursts_remain r > 0
                   then (r\<lparr>s_raps_bursts_remain := s_raps_bursts_remain r - 1\<rparr>, 10)
                   else (r, 5000))
            in (Some r, interval, ring_send_raps api r w))"

definition ring_timer_cb :: "tick \<Rightarrow> sim_ring option \<Rightarrow> fault + sim_ring option" where
  "ring_timer_cb now ring =
     (case ring of None \<Rightarrow> Inr None | Some r \<Rightarrow> bind_res (ring_timer now r) (\<lambda>r. Inr (Some r)))"

section \<open>Reception\<close>

definition sim_raps_request :: "ri_raps \<Rightarrow> ring_request option" where
  "sim_raps_request f = (case ri_request f of
     RAPS_REQ_NR \<Rightarrow> Some (if ri_flags f AND RAPS_FLAG_RB \<noteq> 0 then RING_REQ_RAPS_NR_RB else RING_REQ_RAPS_NR)
   | RAPS_REQ_MS \<Rightarrow> Some RING_REQ_RAPS_MS
   | RAPS_REQ_SF \<Rightarrow> Some RING_REQ_RAPS_SF
   | RAPS_REQ_FS \<Rightarrow> Some RING_REQ_RAPS_FS
   | _ \<Rightarrow> None)"

text \<open>From \<^verbatim>\<open>ri_raps_create\<close> on. As in the kernel, the early returns keep the structure allocated.\<close>

definition sim_raps_body ::
  "'w sim_api \<Rightarrow> tick \<Rightarrow> sim_ring \<Rightarrow> bytes \<Rightarrow> int \<Rightarrow> port_ptr \<Rightarrow> 'w \<Rightarrow> fault + (sim_ring \<times> 'w)" where
  "sim_raps_body api now r data len origin w =
     bind_res (ri_raps_create api w) (\<lambda>(addr, rp, w1).
     bind_res (ri_raps_parse rp data len) (\<lambda>(ok, f).
     if \<not> ok then Inr (r, w1)
     else bind_res (node_bytes (s_node_id r) data (ri_node_id f)) (\<lambda>nid.
       if origin = None then Inl NullPtr
       else (case sim_raps_request f of
           None \<Rightarrow> Inr (r, w1)
         | Some request \<Rightarrow>
             bind_res (sim_ring_process_request now r request origin (Some nid)) (\<lambda>r.
             Inr (r, ri_raps_destroy api addr w1))))))"

definition ring_process_raps ::
  "'w sim_api \<Rightarrow> tick \<Rightarrow> sim_ring \<Rightarrow> bytes \<Rightarrow> int \<Rightarrow> port_ptr \<Rightarrow> 'w \<Rightarrow> fault + (sim_ring \<times> 'w)" where
  "ring_process_raps api now r data len origin w =
     (if s_guard_timer_active r then
        (if tick_diff_msec now (s_guard_timer_active_since r) < 500 then Inr (r, w)
         else sim_raps_body api now (r\<lparr>s_guard_timer_active := False\<rparr>) data len origin w)
      else sim_raps_body api now r data len origin w)"

definition is_erps_frame :: "bytes \<Rightarrow> int \<Rightarrow> fault + bool" where
  "is_erps_frame data len =
     (if len < 55 then Inr False
      else bind_res (load_n data 0 5) (\<lambda>dst.
        if memcmp dst RAPS_DST \<noteq> 0 then Inr False else Inr True))"

definition is_local_erps_frame :: "bytes \<Rightarrow> int \<Rightarrow> bytes \<Rightarrow> fault + bool" where
  "is_local_erps_frame data len nid =
     (if len < 55 then Inr False
      else bind_res (READ_WORD data 12) (\<lambda>eth_type.
        let offset = (if eth_type = 0x8100 then 4 else 0) in
        bind_res (load_n data (14 + offset + 6) 6) (\<lambda>src.
          if memcmp src nid \<noteq> 0 then Inr False else Inr True)))"

text \<open>
  The callback of a ring port. A frame of another node is passed on when the port it came in on
  is not blocked; the other port is not looked at.
\<close>

definition port_cb :: "'w sim_api \<Rightarrow> tick \<Rightarrow> port_id \<Rightarrow> sim_ring \<Rightarrow> 'w \<Rightarrow> fault + (sim_ring \<times> 'w)" where
  "port_cb api now p r w =
     (case ring_port_recv api (sim_get_port p r) w of
        (None, w1) \<Rightarrow> Inr (r, w1)
      | (Some (data, len), w1) \<Rightarrow>
          bind_res (is_erps_frame data len) (\<lambda>erps.
          if \<not> erps then Inr (r, w1)
          else bind_res (is_local_erps_frame data len (s_node_id r)) (\<lambda>local.
            if local then Inr (r, w1)
            else bind_res (ring_process_raps api now r data len (Some p) w1) (\<lambda>(r, w2).
              case ring_other_port (Some p) of
                Some other \<Rightarrow>
                  if \<not> ring_port_is_blocked (sim_get_port p r)
                  then Inr (r, snd (ring_port_send api (sim_get_port other r) data len w2))
                  else Inr (r, w2)
              | None \<Rightarrow> Inr (r, w2)))))"

end
