(* ===== verification/SimDaemon.thy ===== *)
theory SimDaemon
  imports SimNode Libc
begin

text \<open>
  The simulator's programs: the control socket of the daemon (\<^verbatim>\<open>src/extras/sim/ring_io.h\<close>,
  \<^verbatim>\<open>ring_io.c\<close>), its command line and start (\<^verbatim>\<open>ringd.c\<close>), and the client (\<^verbatim>\<open>ring-ctl.c\<close>).

  The worker thread shares the ring with the event loop without a lock; the model takes every
  handler as atomic, so it says nothing about interleavings inside a handler.
\<close>

section \<open>The control protocol\<close>

abbreviation (input) RING_IO_PORT0 :: u32 where "RING_IO_PORT0 \<equiv> 0xF0"
abbreviation (input) RING_IO_PORT1 :: u32 where "RING_IO_PORT1 \<equiv> 0xF1"
abbreviation (input) RING_IO_CMD_STATUS :: u8 where "RING_IO_CMD_STATUS \<equiv> 1"
abbreviation (input) RING_IO_CMD_CLEAR :: u8 where "RING_IO_CMD_CLEAR \<equiv> 2"
abbreviation (input) RING_IO_CMD_MS :: u8 where "RING_IO_CMD_MS \<equiv> 3"
abbreviation (input) RING_IO_CMD_FS :: u8 where "RING_IO_CMD_FS \<equiv> 4"
abbreviation (input) RING_IO_CMD_FAIL :: u8 where "RING_IO_CMD_FAIL \<equiv> 5"
abbreviation (input) RING_IO_CMD_RECOVER :: u8 where "RING_IO_CMD_RECOVER \<equiv> 6"

text \<open>
  \<^verbatim>\<open>struct ring_io_req\<close> is a command byte, three bytes of padding and a 32-bit parameter, eight
  bytes in all; the bytes of the parameter are little-endian.
\<close>

record ring_io_req =
  rq_cmd :: u8
  rq_param :: u32

definition u32_le :: "u8 \<Rightarrow> u8 \<Rightarrow> u8 \<Rightarrow> u8 \<Rightarrow> u32" where
  "u32_le a b c d = ucast a OR push_bit 8 (ucast b) OR push_bit 16 (ucast c) OR push_bit 24 (ucast d)"

definition req_bytes :: "ring_io_req \<Rightarrow> u8 \<times> u8 \<times> u8 \<Rightarrow> bytes" where
  "req_bytes q pad = (case pad of (x, y, z) \<Rightarrow> [rq_cmd q, x, y, z,
     ucast (rq_param q), ucast (drop_bit 8 (rq_param q)), ucast (drop_bit 16 (rq_param q)),
     ucast (drop_bit 24 (rq_param q))])"

text \<open>
  \<^verbatim>\<open>memcpy(&req, buf, 5)\<close> into an uninitialised \<^verbatim>\<open>struct ring_io_req\<close>: the fifth byte is the lowest
  of the parameter, the other three keep what was on the stack.
\<close>

definition req_of_bytes :: "bytes \<Rightarrow> u8 \<times> u8 \<times> u8 \<Rightarrow> ring_io_req" where
  "req_of_bytes buf junk = (case junk of (x, y, z) \<Rightarrow>
     \<lparr>rq_cmd = buf ! 0, rq_param = u32_le (buf ! 4) x y z\<rparr>)"

section \<open>The client program\<close>

text \<open>\<^verbatim>\<open>ring_io_send_msg\<close>: exit status and bytes sent. The reply is not looked at.\<close>

definition ring_io_send_msg :: "bool \<Rightarrow> u8 \<times> u8 \<times> u8 \<Rightarrow> u8 \<Rightarrow> u32 \<Rightarrow> int \<times> bytes" where
  "ring_io_send_msg connects pad code arg =
     (if \<not> connects then (1, [])
      else (0, req_bytes \<lparr>rq_cmd = code, rq_param = arg\<rparr> pad))"

definition ring_ctl_port :: "string option \<Rightarrow> u32 option" where
  "ring_ctl_port name =
     (case name of
        None \<Rightarrow> Some 0
      | Some n \<Rightarrow> if n = ''port0'' then Some RING_IO_PORT0 else if n = ''port1'' then Some RING_IO_PORT1 else None)"

definition ring_ctl_main :: "bool \<Rightarrow> u8 \<times> u8 \<times> u8 \<Rightarrow> string list \<Rightarrow> int \<times> bytes" where
  "ring_ctl_main connects pad argv =
     (if length argv \<noteq> 2 \<and> length argv \<noteq> 3 then (1, [])
      else let cmd = argv ! 1 in
        (case ring_ctl_port (if length argv = 3 then Some (argv ! 2) else None) of
           None \<Rightarrow> (1, [])
         | Some port \<Rightarrow>
             if cmd = ''clear'' then ring_io_send_msg connects pad RING_IO_CMD_CLEAR 0
             else if cmd = ''info'' \<or> cmd = ''status'' then ring_io_send_msg connects pad RING_IO_CMD_STATUS 0
             else if port = 0 then (1, [])
             else if cmd = ''fs'' then ring_io_send_msg connects pad RING_IO_CMD_FS port
             else if cmd = ''ms'' then ring_io_send_msg connects pad RING_IO_CMD_MS port
             else if cmd = ''fail'' then ring_io_send_msg connects pad RING_IO_CMD_FAIL port
             else if cmd = ''recover'' then ring_io_send_msg connects pad RING_IO_CMD_RECOVER port
             else (1, [])))"

section \<open>The control socket\<close>

text \<open>The commands. The log line of the last four dereferences the port before anything else.\<close>

definition rio_execute :: "tick \<Rightarrow> ring_io_req \<Rightarrow> port_ptr \<Rightarrow> sim_ring \<Rightarrow> fault + sim_ring" where
  "rio_execute now req port r =
     (if rq_cmd req = RING_IO_CMD_STATUS then Inr r
      else if rq_cmd req = RING_IO_CMD_CLEAR then sim_ring_process_request now r RING_REQ_CLEAR None None
      else if rq_cmd req \<in> {RING_IO_CMD_MS, RING_IO_CMD_FS, RING_IO_CMD_FAIL, RING_IO_CMD_RECOVER} then
        (case port of
           None \<Rightarrow> Inl NullPtr
         | Some p \<Rightarrow>
             if rq_cmd req = RING_IO_CMD_MS then sim_ring_process_request now r RING_REQ_MS port None
             else if rq_cmd req = RING_IO_CMD_FS then sim_ring_process_request now r RING_REQ_FS port None
             else if rq_cmd req = RING_IO_CMD_FAIL then
               sim_ring_process_request now (sim_upd_port p (\<lambda>q. q\<lparr>sp_is_failed := True\<rparr>) r) RING_REQ_SF port None
             else
               sim_ring_process_request now (sim_upd_port p (\<lambda>q. q\<lparr>sp_is_failed := False\<rparr>) r) RING_REQ_CLEAR_SF port None)
      else Inr r)"

record ring_io =
  io_abort_send :: int
  io_abort_recv :: int
  io_sock :: int
  io_fds :: "int set"
  io_max_fd :: int

definition rio_client ::
  "'w sim_api \<Rightarrow> tick \<Rightarrow> u8 \<times> u8 \<times> u8 \<Rightarrow> ring_io \<Rightarrow> int \<Rightarrow> sim_ring \<Rightarrow> 'w \<Rightarrow> fault + (ring_io \<times> sim_ring \<times> 'w)" where
  "rio_client api now junk io sock r w =
     (case u_recv api sock 5 w of (received, w1) \<Rightarrow>
      let cleanup = (\<lambda>r. (io\<lparr>io_fds := io_fds io - {sock}\<rparr>, r, u_close api sock w1)) in
      (case received of
         None \<Rightarrow> Inr (cleanup r)
       | Some buf \<Rightarrow>
           if length buf \<noteq> 5 then Inr (cleanup r)
           else let req = req_of_bytes buf junk;
                    port = (if rq_param req = RING_IO_PORT0 then Some PORT0 else None);
                    port = (if rq_param req = RING_IO_PORT1 then Some PORT1 else port)
                in bind_res (rio_execute now req port r) (\<lambda>r. Inr (cleanup r))))"

definition rio_accept :: "'w sim_api \<Rightarrow> ring_io \<Rightarrow> 'w \<Rightarrow> ring_io \<times> 'w" where
  "rio_accept api io w =
     (case u_accept api (io_sock io) w of (sock, w') \<Rightarrow>
      if sock < 0 then (io, w')
      else (io\<lparr>io_fds := insert sock (io_fds io), io_max_fd := max sock (io_max_fd io)\<rparr>, w'))"

text \<open>
  One round of \<^verbatim>\<open>rio_worker\<close>, given the answer of \<^verbatim>\<open>select\<close> and the set of ready descriptors. The
  result says whether the thread goes on.
\<close>

fun rio_serve ::
  "'w sim_api \<Rightarrow> tick \<Rightarrow> (int \<Rightarrow> u8 \<times> u8 \<times> u8) \<Rightarrow> int list \<Rightarrow> int set \<Rightarrow> ring_io \<Rightarrow> sim_ring \<Rightarrow> 'w
     \<Rightarrow> fault + (ring_io \<times> sim_ring \<times> 'w)" where
  "rio_serve api now junk [] ready io r w = Inr (io, r, w)"
| "rio_serve api now junk (i # is) ready io r w =
     (if i \<in> ready
      then bind_res (rio_client api now (junk i) io i r w) (\<lambda>(io, r, w). rio_serve api now junk is ready io r w)
      else rio_serve api now junk is ready io r w)"

definition rio_worker ::
  "'w sim_api \<Rightarrow> tick \<Rightarrow> (int \<Rightarrow> u8 \<times> u8 \<times> u8) \<Rightarrow> int \<Rightarrow> int set \<Rightarrow> ring_io \<Rightarrow> sim_ring \<Rightarrow> 'w
     \<Rightarrow> fault + (bool \<times> ring_io \<times> sim_ring \<times> 'w)" where
  "rio_worker api now junk ret fds io r w =
     (if ret < 0 then Inl Exited
      else if ret = 0 then Inr (True, io, r, w)
      else let (io, w, fds) = (if io_sock io \<in> fds
                 then (case rio_accept api io w of (io, w) \<Rightarrow> (io, w, fds - {io_sock io})) else (io, w, fds))
           in if io_abort_recv io \<in> fds then Inr (False, io, r, w)
              else bind_res (rio_serve api now junk [0..io_max_fd io] fds io r w) (\<lambda>(io, r, w). Inr (True, io, r, w)))"

definition ring_io_init :: "'w sim_api \<Rightarrow> 'w \<Rightarrow> fault + (ring_io \<times> 'w)" where
  "ring_io_init api w =
     (case u_pipe api w of ((fd0, fd1), w1) \<Rightarrow>
      case u_socket api w1 of (sock, w2) \<Rightarrow>
      if sock = - 1 then Inl Exited
      else let io = \<lparr>io_abort_send = fd0, io_abort_recv = fd1, io_sock = sock, io_fds = {sock, fd1},
                     io_max_fd = max (max fd0 fd1) sock\<rparr>
           in case u_pthread_create api w2 of (res, w3) \<Rightarrow>
              if res \<noteq> 0 then Inl Exited else Inr (io, w3))"

definition ring_io_destroy :: "'w sim_api \<Rightarrow> ring_io \<Rightarrow> 'w \<Rightarrow> 'w" where
  "ring_io_destroy api io w =
     (case u_write api (io_abort_send io) [1] w of (_, w) \<Rightarrow> u_pthread_join api w)"

section \<open>Starting the daemon\<close>

record ringd_vars =
  rv_owner :: bool
  rv_neighbour :: bool
  rv_rpl :: "string option"

fun ringd_option :: "char \<Rightarrow> string option \<Rightarrow> ringd_vars \<Rightarrow> int + ringd_vars" where
  "ringd_option ch arg v =
     (if ch = CHR ''o'' then Inr (v\<lparr>rv_owner := True, rv_rpl := arg\<rparr>)
      else if ch = CHR ''n'' then Inr (v\<lparr>rv_neighbour := True, rv_rpl := arg\<rparr>)
      else Inl 1)"

text \<open>The checks of \<^verbatim>\<open>main\<close>; \<open>None\<close> is \<^verbatim>\<open>exit_usage()\<close>.\<close>

definition ringd_check :: "ringd_vars \<Rightarrow> string list \<Rightarrow> (string \<times> string \<times> string) option" where
  "ringd_check v args =
     (case args of
        [port0_name, port1_name, node_id_str] \<Rightarrow>
          if length node_id_str \<noteq> 17 then None
          else if port0_name = port1_name then None
          else if rv_owner v \<and> rv_neighbour v then None
          else if (rv_owner v \<or> rv_neighbour v) \<and> rv_rpl v \<noteq> Some port0_name \<and> rv_rpl v \<noteq> Some port1_name then None
          else Some (port0_name, port1_name, node_id_str)
      | _ \<Rightarrow> None)"

definition ringd_open ::
  "'w sim_api \<Rightarrow> tick \<Rightarrow> u32 list \<Rightarrow> ringd_vars \<Rightarrow> string \<times> string \<times> string \<Rightarrow> 'w \<Rightarrow> fault + (sim_ring \<times> ring_io \<times> 'w)" where
  "ringd_open api now mac v = (\<lambda>(port0_name, port1_name, node_id_str) w.
     let nid = map ucast (take 6 (sscanf_mac node_id_str mac)) in
     bind_res (ring_port_create api port0_name 1500 w) (\<lambda>(p0, w).
     bind_res (ring_port_create api port1_name 1500 w) (\<lambda>(p1, w).
     bind_res (if rv_owner v \<or> rv_neighbour v
               then (if rv_rpl v = Some port0_name then Inr (Some PORT0)
                     else if rv_rpl v = Some port1_name then Inr (Some PORT1) else Inl Exited)
               else Inr None) (\<lambda>rpl.
     bind_res (sim_ring_create api now p0 p1 rpl (rv_owner v) (rv_neighbour v) nid w) (\<lambda>(ring, w).
     bind_res (ring_io_init api w) (\<lambda>(io, w).
     if pcap_get_selectable_fd api (sp_dev p0) w = - 1 \<or> pcap_get_selectable_fd api (sp_dev p1) w = - 1
     then Inl Exited
     else Inr (ring, io, w)))))))"

text \<open>\<^verbatim>\<open>main\<close> up to the event loop: an exit status, or the running daemon.\<close>

definition ringd_main ::
  "'w sim_api \<Rightarrow> tick \<Rightarrow> u32 list \<Rightarrow> string list \<Rightarrow> 'w \<Rightarrow> (fault + (int + sim_ring \<times> ring_io \<times> 'w)) option" where
  "ringd_main api now mac argv w =
     (case opt_loop argv ''o:n:'' ringd_option \<lparr>rv_owner = False, rv_neighbour = False, rv_rpl = None\<rparr> getopt_start of
        None \<Rightarrow> None
      | Some (Inl code) \<Rightarrow> Some (Inr (Inl code))
      | Some (Inr (v, g)) \<Rightarrow>
          (case ringd_check v (drop (optind g) argv) of
             None \<Rightarrow> Some (Inr (Inl 1))
           | Some names \<Rightarrow> Some (bind_res (ringd_open api now mac v names w) (\<lambda>d. Inr (Inr d)))))"

text \<open>What follows the event loop: the exit status is 42.\<close>

definition ringd_cleanup :: "'w sim_api \<Rightarrow> sim_ring \<Rightarrow> ring_io \<Rightarrow> 'w \<Rightarrow> int \<times> 'w" where
  "ringd_cleanup api r io w =
     (let w = ring_io_destroy api io w;
          w = sim_ring_destroy api (Some r) w
      in (42, w))"

end
