(* ===== verification/SimMachine.thy ===== *)
theory SimMachine
  imports SimDaemon
begin

text \<open>
  The daemon as a machine: it is started by a command line and steps with every frame, timer
  callback, transmission and round of the control socket. Through the abstraction it implements
  the ring machine of \<^verbatim>\<open>Request.thy\<close>, whose invariant it inherits.
\<close>

section \<open>Requests\<close>

text \<open>A request the simulator survives is a request of the ring machine.\<close>

lemma sim_request_abs:
  assumes "sim_ring_process_request now r req port nid = Inr r'"
  shows "ring_process_request (ucast now) (abs_ring r) req port nid = Inr (abs_ring r')"
  using assms by (auto simp: ring_process_request_eq sim_ring_process_request_eq note_local_same
      sim_ring_fsm_same sim_ring_fsm_bare)

lemma sim_request_reach:
  assumes "reach ring_started ring_step (abs_ring r)" and "valid_call req port nid"
    and "sim_ring_process_request now r req port nid = Inr r'"
  shows "reach ring_started ring_step (abs_ring r')"
  by (rule reach_step [OF assms(1) step_request [OF assms(2) sim_request_abs [OF assms(3)]]])

text \<open>On a ring with the invariant, only a repetition stops it.\<close>

lemma sim_request_defined:
  assumes "ring_inv (abs_ring r)" and "valid_call req port nid"
  shows "(\<exists>r'. sim_ring_process_request now r req port nid = Inr r' \<and>
      abs_ring r' = (if request_accepted (abs_ring r) req \<and> \<not> repeated (abs_ring r) req port nid
         then after (ucast now) (abs_ring r) req port nid else abs_ring r)) \<or>
    sim_gives_up r req \<and> sim_ring_process_request now r req port nid = Inl Exited"
proof (cases "sim_gives_up r req")
  case True
  then have "sim_ring_process_request now r req port nid = Inl Exited"
    by (auto simp: sim_gives_up_def sim_ring_process_request_eq sim_ring_fsm_bare)
  with True show ?thesis by simp
next
  case False
  then have "ring_process_request (ucast now) (abs_ring r) req port nid =
      lift_res abs_ring (sim_ring_process_request now r req port nid)"
    by (auto simp: sim_gives_up_def ring_process_request_eq sim_ring_process_request_eq note_local_same sim_ring_fsm_same)
  with ring_process_request_refines [OF assms, of "ucast now"] show ?thesis
    by (cases "sim_ring_process_request now r req port nid") auto
qed

section \<open>The machine\<close>

datatype sim_event = FrameEvent tick port_id | TimerEvent tick | SendEvent nat
  | IoEvent tick "int \<Rightarrow> u8 \<times> u8 \<times> u8" int "int set"

inductive sim_step :: "'w sim_api \<Rightarrow> sim_ring \<times> ring_io \<times> 'w \<Rightarrow> sim_event \<Rightarrow> sim_ring \<times> ring_io \<times> 'w \<Rightarrow> bool"
  for api where
  sim_frame: "port_cb api now p r w = Inr (r', w') \<Longrightarrow> sim_step api (r, io, w) (FrameEvent now p) (r', io, w')"
| sim_timer: "ring_timer_cb now (Some r) = Inr (Some r') \<Longrightarrow> sim_step api (r, io, w) (TimerEvent now) (r', io, w)"
| sim_send: "send_raps_cb api (Some r) i w = (Some r', i', w') \<Longrightarrow> sim_step api (r, io, w) (SendEvent i) (r', io, w')"
| sim_io: "rio_worker api now junk ret fds io r w = Inr (go, io', r', w') \<Longrightarrow>
    sim_step api (r, io, w) (IoEvent now junk ret fds) (r', io', w')"

text \<open>
  \<^verbatim>\<open>malloc\<close> returns an object of the size asked for. A daemon is up when some command line has
  started it, whatever its uninitialised array held.
\<close>

definition malloc_sized :: "'w sim_api \<Rightarrow> bool" where
  "malloc_sized api \<longleftrightarrow> (\<forall>n w a junk w'. 0 \<le> n \<longrightarrow> u_malloc api (SOBJ_FRAME n) w = (Some (a, junk), w') \<longrightarrow>
     int (length junk) = n)"

definition sim_up :: "'w sim_api \<Rightarrow> sim_ring \<times> ring_io \<times> 'w \<Rightarrow> bool" where
  "sim_up api d \<longleftrightarrow> malloc_sized api \<and>
     (\<exists>now mac argv w. length mac = 6 \<and> ringd_main api now mac argv w = Some (Inr (Inr d)))"

section \<open>Starting\<close>

text \<open>The ring just before its first event.\<close>

definition sim_ready ::
  "nat \<Rightarrow> sim_port \<Rightarrow> sim_port \<Rightarrow> port_ptr \<Rightarrow> bool \<Rightarrow> bool \<Rightarrow> bytes \<Rightarrow> nat \<Rightarrow> nat \<Rightarrow> bytes \<Rightarrow> sim_ring" where
  "sim_ready addr p0 p1 rpl own nb nid ra fa junk =
     (sim_ring_set_raps ra ri_raps_zero (sim_ring_new addr p0 p1 rpl own nb nid))
       \<lparr>s_raps_frame_addr := fa, s_raps_frame := junk\<rparr>"

lemma list_requests_ok: "\<exists>ns. list_requests [req_code RING_REQ_INVALID..<Suc (req_code RING_REQ_CLEAR)] = Inr ns"
proof -
  have "\<exists>ns. list_requests qs = Inr ns" if "\<forall>q\<in>set qs. q \<le> 14" for qs
    using that by (induction qs) (auto simp: sim_ring_req_str_def)
  then show ?thesis by simp
qed

lemma sim_ring_create_Inr:
  assumes "sim_ring_create api now p0 p1 rpl own nb nid w = Inr (r, w')" and "malloc_sized api"
  obtains addr ra fa junk where "length junk = 55"
    and "sim_ring_fsm now (sim_ready addr p0 p1 rpl own nb nid ra fa junk) RING_REQ_INVALID None None = Inr r"
proof -
  obtain ns where ns: "list_requests [req_code RING_REQ_INVALID..<Suc (req_code RING_REQ_CLEAR)] = Inr ns"
    using list_requests_ok by blast
  obtain addr x w1 where a: "u_malloc api SOBJ_RING w = (Some (addr, x), w1)"
    using assms(1) unfolding sim_ring_create_def ns by (auto split: prod.splits option.splits)
  obtain ra y w2 where b: "u_malloc api SOBJ_RAPS w1 = (Some (ra, y), w2)"
    using assms(1) unfolding sim_ring_create_def ns
    by (auto simp: a ri_raps_create_def Let_def split: prod.splits option.splits)
  obtain fa junk w3 where c: "u_malloc api (SOBJ_FRAME 55) w2 = (Some (fa, junk), w3)"
    using assms(1) unfolding sim_ring_create_def ns
    by (auto simp: a b ri_raps_create_def sim_ring_set_raps_def ri_raps_get_len_def Let_def split: prod.splits option.splits)
  have "sim_ring_fsm now (sim_ready addr p0 p1 rpl own nb nid ra fa junk) RING_REQ_INVALID None None = Inr r"
    using assms(1) unfolding sim_ring_create_def ns
    by (auto simp: a b c ri_raps_create_def sim_ring_set_raps_def ri_raps_get_len_def Let_def sim_ready_def bind_res_Inr_iff)
  moreover have "int (length junk) = 55"
    using assms(2) c unfolding malloc_sized_def by (metis zero_le_numeral)
  then have "length junk = 55" by simp
  ultimately show thesis using that by blast
qed

lemma sim_ready_fresh:
  assumes "length junk = 55" and "length nid = 6" and "own \<or> nb \<Longrightarrow> rpl \<noteq> None" and "\<not> (own \<and> nb)"
  shows "fresh_ring (abs_ring (sim_ready addr p0 p1 rpl own nb nid ra fa junk))"
  using assms
  by (simp add: fresh_ring_def ring_ok_def rpl_ok_def sim_simps)
    (simp add: sim_ready_def sim_ring_set_raps_def sim_ring_new_def ri_raps_get_len_def Let_def ri_raps_zero_def sim_simps)

lemma sim_ready_started:
  assumes "fresh_ring (abs_ring r0)" and "sim_ring_fsm now r0 RING_REQ_INVALID None None = Inr r"
  shows "abs_ring r = started (ucast now) (abs_ring r0)" and "ring_started (abs_ring r)"
proof -
  have "ring_fsm (ucast now) (abs_ring r0) RING_REQ_INVALID None None = Inr (abs_ring r)"
    using sim_ring_fsm_same [of now r0 RING_REQ_INVALID None None] assms(2) by (simp add: bare_requests_def)
  then show "abs_ring r = started (ucast now) (abs_ring r0)" "ring_started (abs_ring r)"
    using ring_fsm_start [OF assms(1), of "ucast now"] assms(1) unfolding ring_started_def by auto
qed

text \<open>What a successful start says of the command line and of the ring.\<close>

lemma ringd_open_Inr:
  assumes "ringd_open api now mac v (n0, n1, ids) w = Inr (r, io, w')" and "malloc_sized api" and "length mac = 6"
    and "ringd_check v args = Some (n0, n1, ids)"
  obtains rpl f where "fresh_ring (abs_ring f)" and "sim_ring_fsm now f RING_REQ_INVALID None None = Inr r"
    and "s_is_rpl_owner f = rv_owner v" and "s_is_rpl_neighbour f = rv_neighbour v" and "s_is_revertive f"
    and "s_rpl_port f = (if rv_owner v \<or> rv_neighbour v then Some (if rv_rpl v = Some n0 then PORT0 else PORT1) else None)"
    and "s_node_id f = map ucast (sscanf_mac ids mac)" and "s_version f = 0"
    and "\<not> s_wtr_timer_active f" and "\<forall>q. \<not> sp_is_failed (sim_get_port q f)"
proof -
  let ?nid = "map ucast (take 6 (sscanf_mac ids mac)) :: bytes"
  let ?rpl = "if rv_owner v \<or> rv_neighbour v then Some (if rv_rpl v = Some n0 then PORT0 else PORT1) else None"
  have chk: "rv_owner v \<or> rv_neighbour v \<Longrightarrow> rv_rpl v \<noteq> Some n0 \<Longrightarrow> rv_rpl v = Some n1" "\<not> (rv_owner v \<and> rv_neighbour v)"
    using assms(4) by (auto simp: ringd_check_def split: list.splits if_splits)
  obtain p0 p1 wa w0 w1 w2 where p: "ring_port_create api n0 1500 w = Inr (p0, wa)" "ring_port_create api n1 1500 w0 = Inr (p1, w1)"
    and c: "sim_ring_create api now p0 p1 ?rpl (rv_owner v) (rv_neighbour v) ?nid w1 = Inr (r, w2)"
    using assms(1) chk(1) by (auto simp: ringd_open_def Let_def bind_res_Inr_iff split: if_splits)
  have "\<not> sp_is_failed p0" "\<not> sp_is_failed p1"
    using p by (auto simp: ring_port_create_def split: prod.splits option.splits if_splits)
  then have nf: "\<not> sp_is_failed (sim_get_port q (sim_ready addr p0 p1 ?rpl (rv_owner v) (rv_neighbour v) ?nid ra fa junk))"
    for q addr ra fa junk
    by (cases q) (simp_all add: sim_ready_def sim_ring_set_raps_def sim_ring_new_def Let_def)
  obtain addr ra fa junk where j: "length junk = 55"
    and f: "sim_ring_fsm now (sim_ready addr p0 p1 ?rpl (rv_owner v) (rv_neighbour v) ?nid ra fa junk) RING_REQ_INVALID None None = Inr r"
    by (rule sim_ring_create_Inr [OF c assms(2)])
  let ?f = "sim_ready addr p0 p1 ?rpl (rv_owner v) (rv_neighbour v) ?nid ra fa junk"
  have l: "length (sscanf_mac ids mac) = 6" by (rule sscanf_mac_length [OF assms(3)])
  then have "fresh_ring (abs_ring ?f)" using j chk(2) by (intro sim_ready_fresh) auto
  then show thesis using l nf by (intro that [OF _ f]) (simp_all add: sim_ready_def sim_ring_set_raps_def sim_ring_new_def Let_def)
qed

lemma sim_up_ring:
  assumes "sim_up api (r, io, w)"
  obtains now f where "fresh_ring (abs_ring f)" and "sim_ring_fsm now f RING_REQ_INVALID None None = Inr r"
    and "s_is_revertive f" and "\<not> s_wtr_timer_active f"
proof -
  from assms obtain now mac argv w0 where up: "malloc_sized api" "length mac = 6"
    "ringd_main api now mac argv w0 = Some (Inr (Inr (r, io, w)))"
    unfolding sim_up_def by blast
  then obtain v args names where o: "ringd_open api now mac v names w0 = Inr (r, io, w)"
    and c: "ringd_check v args = Some names"
    by (auto simp: ringd_main_def bind_res_Inr_iff split: option.splits sum.splits)
  obtain n0 n1 ids where n: "names = (n0, n1, ids)" by (cases names)
  show thesis
    by (rule ringd_open_Inr [OF o [unfolded n] up(1,2) c [unfolded n]]) (rule that)
qed

lemma sim_up_started: "sim_up api (r, io, w) \<Longrightarrow> ring_started (abs_ring r)"
  by (erule sim_up_ring) (rule sim_ready_started(2))

section \<open>Reachable rings\<close>

abbreviation ring_reachable :: "sim_ring \<Rightarrow> bool" where
  "ring_reachable r \<equiv> reach ring_started ring_step (abs_ring r)"

lemma raps_sim_same: "sim_raps_request f = raps_ring_request (abs_raps f)"
  by (simp add: sim_raps_request_def raps_ring_request_def sim_simps)

lemma raps_request_valid:
  "node_bytes own data p = Inr nid \<Longrightarrow> length own = 6 \<Longrightarrow> valid_call req (Some port) (Some nid)"
  by (auto simp: valid_call_def node_bytes_def load_n_def split: node_ptr.splits if_splits)

lemma sim_raps_body_cases:
  assumes "sim_raps_body api now r data len (Some p) w = Inr (r', w')"
  obtains "r' = r" | req nid where "length (s_node_id r) = 6 \<longrightarrow> valid_call req (Some p) (Some nid)"
    and "req \<in> remote_requests" and "sim_ring_process_request now r req (Some p) (Some nid) = Inr r'"
proof -
  show thesis
  proof (cases "r' = r")
    case True
    then show thesis by (rule that(1))
  next
    case False
    with assms obtain f nid req where nb: "node_bytes (s_node_id r) data (ri_node_id f) = Inr nid"
      and q: "sim_raps_request f = Some req"
      and pr: "sim_ring_process_request now r req (Some p) (Some nid) = Inr r'"
      by (auto simp: sim_raps_body_def bind_res_Inr_iff split: prod.splits if_splits option.splits)
    have "req \<in> remote_requests"
      using q by (cases "ri_request f") (simp_all add: sim_raps_request_def request_sets split: if_split_asm)
    with nb pr show thesis by (intro that(2)) (auto intro: raps_request_valid)
  qed
qed

lemma reachable_inv: "ring_reachable r \<Longrightarrow> ring_inv (abs_ring r)"
  by (rule ring.reach_inv)

lemma reachable_node_id: "ring_reachable r \<Longrightarrow> length (s_node_id r) = 6"
  using reachable_inv [of r] by (simp add: ring_inv_def ring_ok_def sim_simps)

lemma reachable_update:
  assumes "ring_reachable r"
  shows "ring_reachable (r\<lparr>s_guard_timer_active := False\<rparr>)" "ring_reachable (r\<lparr>s_wtr_timer_active := False\<rparr>)"
    "ring_reachable (r\<lparr>s_raps_bursts_remain := n\<rparr>)"
    "ring_reachable (sim_upd_port p (\<lambda>q. q\<lparr>sp_is_failed := b\<rparr>) r)"
proof -
  show "ring_reachable (r\<lparr>s_guard_timer_active := False\<rparr>)"
    using reach_step [OF assms step_guard] by (simp add: sim_simps)
  show "ring_reachable (r\<lparr>s_wtr_timer_active := False\<rparr>)"
    using reach_step [OF assms step_wtr] by (simp add: sim_simps)
  show "ring_reachable (r\<lparr>s_raps_bursts_remain := n\<rparr>)"
    using reach_step [OF assms step_bursts] by (simp add: sim_simps)
  have "set_failed p b (abs_ring r) = abs_ring (sim_upd_port p (\<lambda>q. q\<lparr>sp_is_failed := b\<rparr>) r)"
    by (cases p) (simp_all add: abs_ring_def abs_port_def)
  then show "ring_reachable (sim_upd_port p (\<lambda>q. q\<lparr>sp_is_failed := b\<rparr>) r)"
    using reach_step [OF assms step_link] by metis
qed

lemma valid_bare [simp]: "valid_call RING_REQ_WTR_EXPIRES None None" "valid_call RING_REQ_CLEAR None None"
  "valid_call q (Some p) None \<longleftrightarrow> q \<notin> remote_requests"
  by (auto simp: valid_call_def request_sets)

lemma timer_reachable:
  assumes "ring_timer now r = Inr r'" and "ring_reachable r"
  shows "ring_reachable r'"
proof (cases "r' = r")
  case False
  with assms(1) obtain r1 where "sim_ring_process_request now r RING_REQ_WTR_EXPIRES None None = Inr r1"
    and r': "r' = r1\<lparr>s_wtr_timer_active := False\<rparr>"
    by (auto simp: ring_timer_def bind_res_Inr_iff split: if_splits)
  then have "ring_reachable r1" using sim_request_reach [OF assms(2)] valid_bare(1) by blast
  then show ?thesis unfolding r' by (rule reachable_update(2))
qed (use assms(2) in simp)

text \<open>What a command asks the ring for: the link it changes, if any, and the request.\<close>

definition rio_request :: "u8 \<Rightarrow> port_id \<Rightarrow> (sim_ring \<Rightarrow> sim_ring) \<times> ring_request" where
  "rio_request cmd p =
     (if cmd = RING_IO_CMD_MS then (\<lambda>r. r, RING_REQ_MS)
      else if cmd = RING_IO_CMD_FS then (\<lambda>r. r, RING_REQ_FS)
      else if cmd = RING_IO_CMD_FAIL then (sim_upd_port p (\<lambda>q. q\<lparr>sp_is_failed := True\<rparr>), RING_REQ_SF)
      else (sim_upd_port p (\<lambda>q. q\<lparr>sp_is_failed := False\<rparr>), RING_REQ_CLEAR_SF))"

definition port_commands :: "u8 set" where
  "port_commands = {RING_IO_CMD_MS, RING_IO_CMD_FS, RING_IO_CMD_FAIL, RING_IO_CMD_RECOVER}"

lemma rio_execute_eq:
  "rio_execute now q port r =
     (if rq_cmd q \<in> port_commands then
        (case port of None \<Rightarrow> Inl NullPtr
         | Some p \<Rightarrow> sim_ring_process_request now (fst (rio_request (rq_cmd q) p) r) (snd (rio_request (rq_cmd q) p)) port None)
      else if rq_cmd q = RING_IO_CMD_CLEAR then sim_ring_process_request now r RING_REQ_CLEAR None None
      else Inr r)"
  by (auto simp: rio_execute_def rio_request_def port_commands_def split: option.split)

lemma rio_request_local: "snd (rio_request c p) \<notin> remote_requests" "snd (rio_request c p) \<noteq> RING_REQ_WTR_EXPIRES"
  by (auto simp: rio_request_def request_sets)

section \<open>Properties that the steps keep\<close>

text \<open>
  A property of rings that survives the updates the daemon makes outside the request logic, the
  requests of messages and commands, and the timer callback, survives every step.
\<close>

locale ring_kept =
  fixes P :: "sim_ring \<Rightarrow> bool"
  assumes kept_node_id: "P r \<Longrightarrow> length (s_node_id r) = 6"
    and kept_guard: "P r \<Longrightarrow> P (r\<lparr>s_guard_timer_active := False\<rparr>)"
    and kept_bursts: "P r \<Longrightarrow> P (r\<lparr>s_raps_bursts_remain := n\<rparr>)"
    and kept_link: "P r \<Longrightarrow> P (sim_upd_port p (\<lambda>q. q\<lparr>sp_is_failed := b\<rparr>) r)"
    and kept_request: "P r \<Longrightarrow> valid_call req port nid \<Longrightarrow> req \<noteq> RING_REQ_WTR_EXPIRES \<Longrightarrow>
      sim_ring_process_request now r req port nid = Inr r' \<Longrightarrow> P r'"
    and kept_timer: "P r \<Longrightarrow> ring_timer now r = Inr r' \<Longrightarrow> P r'"
begin

lemma body_kept:
  assumes "sim_raps_body api now r data len (Some p) w = Inr (r', w')" and "P r"
  shows "P r'"
  using assms(1)
proof (cases rule: sim_raps_body_cases)
  case 1
  with assms(2) show ?thesis by simp
next
  case (2 req nid)
  then show ?thesis
    using kept_request [OF assms(2)] kept_node_id [OF assms(2)] by (auto simp: request_sets)
qed

lemma raps_kept: "ring_process_raps api now r data len (Some p) w = Inr (r', w') \<Longrightarrow> P r \<Longrightarrow> P r'"
  by (auto simp: ring_process_raps_def split: if_splits dest: body_kept body_kept [OF _ kept_guard])

lemma port_cb_kept: "port_cb api now p r w = Inr (r', w') \<Longrightarrow> P r \<Longrightarrow> P r'"
  by (auto simp: port_cb_def bind_res_Inr_iff split: prod.splits option.splits if_splits dest: raps_kept)

lemma send_kept: "send_raps_cb api (Some r) i w = (Some r', i', w') \<Longrightarrow> P r \<Longrightarrow> P r'"
  by (auto simp: send_raps_cb_def Let_def split: if_splits intro!: kept_bursts)

lemma rio_link_kept: "P r \<Longrightarrow> P (fst (rio_request c p) r)"
  by (auto simp: rio_request_def intro!: kept_link)

lemma execute_kept:
  assumes "rio_execute now q port r = Inr r'" and "P r"
  shows "P r'"
proof (cases "rq_cmd q \<in> port_commands")
  case True
  with assms(1) obtain p where "port = Some p" and
    "sim_ring_process_request now (fst (rio_request (rq_cmd q) p) r) (snd (rio_request (rq_cmd q) p)) (Some p) None = Inr r'"
    by (auto simp: rio_execute_eq split: option.splits)
  then show ?thesis
    using kept_request [OF rio_link_kept [OF assms(2)]] rio_request_local valid_bare(3) by blast
next
  case False
  with assms(1) have "sim_ring_process_request now r RING_REQ_CLEAR None None = Inr r' \<or> r' = r"
    by (auto simp: rio_execute_eq split: if_splits)
  then show ?thesis using kept_request [OF assms(2) valid_bare(2)] assms(2) by blast
qed

lemma client_kept: "rio_client api now junk io sock r w = Inr (io', r', w') \<Longrightarrow> P r \<Longrightarrow> P r'"
  by (auto simp: rio_client_def Let_def bind_res_Inr_iff split: prod.splits option.splits if_splits
      dest: execute_kept)

lemma serve_kept: "rio_serve api now junk is ready io r w = Inr (io', r', w') \<Longrightarrow> P r \<Longrightarrow> P r'"
proof (induction "is" arbitrary: io r w)
  case (Cons i "is")
  show ?case
  proof (cases "i \<in> ready")
    case True
    with Cons.prems(1) obtain io1 r1 w1 where c: "rio_client api now (junk i) io i r w = Inr (io1, r1, w1)"
      and s: "rio_serve api now junk is ready io1 r1 w1 = Inr (io', r', w')"
      by (auto simp: bind_res_Inr_iff)
    show ?thesis by (rule Cons.IH [OF s client_kept [OF c Cons.prems(2)]])
  next
    case False
    with Cons show ?thesis by simp
  qed
qed simp

lemma worker_kept: "rio_worker api now junk ret fds io r w = Inr (go, io', r', w') \<Longrightarrow> P r \<Longrightarrow> P r'"
  by (auto simp: rio_worker_def Let_def bind_res_Inr_iff split: prod.splits if_splits dest: serve_kept)

lemma step_kept: "sim_step api d ev d' \<Longrightarrow> P (fst d) \<Longrightarrow> P (fst d')"
  by (cases rule: sim_step.cases)
    (auto simp: ring_timer_cb_def bind_res_Inr_iff dest: port_cb_kept kept_timer send_kept worker_kept)

end

interpretation reachable: ring_kept ring_reachable
  by unfold_locales
    (fact reachable_node_id, fact reachable_update(1), fact reachable_update(3), fact reachable_update(4),
      use sim_request_reach in blast, rule timer_reachable)

text \<open>
  Rings of the daemon are revertive, and while the wait-to-restore timer runs, the last request
  was not its expiry: other requests start the timer, and its handler switches it off.
\<close>

definition sim_timed :: "sim_ring \<Rightarrow> bool" where
  "sim_timed r \<longleftrightarrow> s_is_revertive r \<and> (s_wtr_timer_active r \<longrightarrow> s_prev_request r \<noteq> RING_REQ_WTR_EXPIRES)"

lemma request_keeps_cfg:
  assumes "ring_inv (abs_ring r)" and "valid_call req port nid"
    and "sim_ring_process_request now r req port nid = Inr r'"
  shows "s_is_revertive r' = s_is_revertive r" "s_is_rpl_owner r' = s_is_rpl_owner r" "s_rpl_port r' = s_rpl_port r"
    "s_prev_request r' = req \<or> abs_ring r' = abs_ring r" "s_node_id r' = s_node_id r"
proof -
  have a: "abs_ring r' = (if request_accepted (abs_ring r) req \<and> \<not> repeated (abs_ring r) req port nid
         then after (ucast now) (abs_ring r) req port nid else abs_ring r)"
    using sim_request_defined [OF assms(1,2), of now] assms(3) by auto
  then have "ring_cfg (abs_ring r') = ring_cfg (abs_ring r)" by (auto simp: after_cfg)
  then show "s_is_revertive r' = s_is_revertive r" "s_is_rpl_owner r' = s_is_rpl_owner r" "s_rpl_port r' = s_rpl_port r"
    "s_node_id r' = s_node_id r"
    by (simp_all add: ring_cfg_def sim_simps)
  have "prev_request (after (ucast now) (abs_ring r) req port nid) = req" by (simp add: after_sel)
  then show "s_prev_request r' = req \<or> abs_ring r' = abs_ring r"
    using a abs_sel(9) [of r'] by (auto split: if_splits)
qed

lemma request_timed:
  assumes "ring_inv (abs_ring r)" and "valid_call req port nid"
    and "sim_ring_process_request now r req port nid = Inr r'" and "sim_timed r" and "req \<noteq> RING_REQ_WTR_EXPIRES"
  shows "sim_timed r'"
proof -
  have "s_wtr_timer_active r' = s_wtr_timer_active r \<and> s_prev_request r' = s_prev_request r" if "abs_ring r' = abs_ring r"
    using that abs_sel(9,18) [of r] abs_sel(9,18) [of r'] by simp
  with request_keeps_cfg(1,4) [OF assms(1-3)] assms(4,5) show ?thesis by (auto simp: sim_timed_def)
qed

lemma timer_timed:
  assumes "ring_inv (abs_ring r)" and "ring_timer now r = Inr r'" and "sim_timed r"
  shows "sim_timed r'"
proof (cases "r' = r")
  case False
  with assms(2) obtain r1 where "sim_ring_process_request now r RING_REQ_WTR_EXPIRES None None = Inr r1"
    and r': "r' = r1\<lparr>s_wtr_timer_active := False\<rparr>"
    by (auto simp: ring_timer_def bind_res_Inr_iff split: if_splits)
  with request_keeps_cfg(1) [OF assms(1) valid_bare(1)] assms(3) show ?thesis by (simp add: sim_timed_def)
qed (use assms(3) in simp)

lemma sim_timed_update [simp]:
  "sim_timed (r\<lparr>s_guard_timer_active := b\<rparr>) = sim_timed r"
  "sim_timed (r\<lparr>s_raps_bursts_remain := n\<rparr>) = sim_timed r"
  "sim_timed (sim_upd_port p f r) = sim_timed r"
  by (cases p; simp add: sim_timed_def)+

interpretation timed: ring_kept "\<lambda>r. ring_reachable r \<and> sim_timed r"
proof unfold_locales
  fix req port nid now r r'
  assume r: "ring_reachable r \<and> sim_timed r" and v: "valid_call req port nid" and q: "req \<noteq> RING_REQ_WTR_EXPIRES"
    and pr: "sim_ring_process_request now r req port nid = Inr r'"
  show "ring_reachable r' \<and> sim_timed r'"
    using reachable.kept_request [OF _ v q pr] request_timed [OF _ v pr _ q] r reachable_inv by blast
next
  fix now r r'
  assume r: "ring_reachable r \<and> sim_timed r" and t: "ring_timer now r = Inr r'"
  show "ring_reachable r' \<and> sim_timed r'"
    using reachable.kept_timer [OF _ t] timer_timed [OF _ t] r reachable_inv by blast
qed (simp_all add: reachable.kept_node_id reachable.kept_guard reachable.kept_bursts reachable.kept_link)

section \<open>The daemon implements the ring machine\<close>

interpretation simulator: implements ring_started ring_step ring_inv "\<lambda>r. blocked PORT0 r \<and> blocked PORT1 r"
  "sim_up api" "sim_step api" "\<lambda>d. abs_ring (fst d)" for api :: "'w sim_api"
proof unfold_locales
  fix d :: "sim_ring \<times> ring_io \<times> 'w"
  assume "sim_up api d"
  then show "ring_reachable (fst d)" by (cases d) (auto intro: reach_init sim_up_started)
next
  fix d d' :: "sim_ring \<times> ring_io \<times> 'w" and ev
  assume "sim_step api d ev d'" and "ring_reachable (fst d)"
  then show "ring_reachable (fst d')" by (rule reachable.step_kept)
qed

interpretation timed_machine: machine "sim_up api" "sim_step api" "\<lambda>d. ring_reachable (fst d) \<and> sim_timed (fst d)"
  for api :: "'w sim_api"
proof unfold_locales
  fix d :: "sim_ring \<times> ring_io \<times> 'w"
  assume up: "sim_up api d"
  obtain r io w where d: "d = (r, io, w)" by (cases d)
  obtain now f where f: "fresh_ring (abs_ring f)" "sim_ring_fsm now f RING_REQ_INVALID None None = Inr r" "s_is_revertive f"
    by (rule sim_up_ring [OF up [unfolded d]])
  have a: "abs_ring r = started (ucast now) (abs_ring f)" by (rule sim_ready_started(1) [OF f(1,2)])
  have "s_is_revertive r" using a f(3) started_cfg [of "ucast now" "abs_ring f"] abs_sel(3) [of r]
    by (simp add: ring_cfg_def sim_simps)
  moreover have "s_prev_request r = RING_REQ_INVALID"
    using abs_sel(9) [of r] by (simp add: a started_sel)
  ultimately show "ring_reachable (fst d) \<and> sim_timed (fst d)"
    using sim_up_started [OF up [unfolded d]] by (simp add: d sim_timed_def reach_init)
next
  fix d d' :: "sim_ring \<times> ring_io \<times> 'w" and ev
  show "sim_step api d ev d' \<Longrightarrow> ring_reachable (fst d) \<and> sim_timed (fst d) \<Longrightarrow> ring_reachable (fst d') \<and> sim_timed (fst d')"
    by (rule timed.step_kept)
qed

end
