(* ===== verification/SimProps.thy ===== *)
theory SimProps
  imports SimMachine
begin

text \<open>
  What the daemon achieves and where it stops: reversion by its timer callback, bursts of
  announcements, frames handled and passed on, and the control messages that end it. A concrete
  operating system and packet library serve the witnesses.
\<close>

section \<open>A world to run in\<close>

text \<open>A log of the frames sent. The ports keep receiving the frame \<open>fr\<close>, and clients keep reporting the failure of \<^verbatim>\<open>port0\<close>.\<close>

record sworld =
  sw_next :: nat
  sw_sent :: "(nat \<times> bytes) list"

definition sample_sim :: "bytes \<Rightarrow> sworld sim_api" where
  "sample_sim fr = \<lparr>
     u_malloc = (\<lambda>obj w. (Some (sw_next w, case obj of SOBJ_FRAME n \<Rightarrow> replicate (nat n) 0xAA | _ \<Rightarrow> []),
       w\<lparr>sw_next := Suc (sw_next w)\<rparr>)),
     u_strdup = (\<lambda>s w. (Some (sw_next w, s), w\<lparr>sw_next := Suc (sw_next w)\<rparr>)), u_free = (\<lambda>a w. w),
     pcap_open_live = (\<lambda>name n w. (Some (if name = ''em0'' then 0 else 1), w)),
     pcap_setdirection = (\<lambda>d w. (0, w)),
     pcap_inject = (\<lambda>d data len w. (len, w\<lparr>sw_sent := sw_sent w @ [(d, data)]\<rparr>)),
     pcap_next_ex = (\<lambda>d w. (1, fr, int (length fr), w)),
     pcap_close = (\<lambda>d w. w), pcap_get_selectable_fd = (\<lambda>d w. 3),
     u_pipe = (\<lambda>w. ((10, 11), w)), u_socket = (\<lambda>w. (12, w)), u_accept = (\<lambda>s w. (13, w)),
     u_recv = (\<lambda>s n w. (Some (take n [RING_IO_CMD_FAIL, 0, 0, 0, 0xF0, 0, 0, 0]), w)),
     u_close = (\<lambda>s w. w), u_pthread_create = (\<lambda>w. (0, w)),
     u_write = (\<lambda>s b w. (int (length b), w)), u_pthread_join = (\<lambda>w. w)\<rparr>"

definition sample_sworld :: sworld where
  "sample_sworld = \<lparr>sw_next = 1, sw_sent = []\<rparr>"

lemma sample_sim_sized: "malloc_sized (sample_sim fr)"
  unfolding malloc_sized_def by (auto simp: sample_sim_def)

section \<open>Starting the daemon\<close>

abbreviation ringd_line :: "bool \<Rightarrow> string \<Rightarrow> string \<Rightarrow> string \<Rightarrow> bytes \<Rightarrow> string list" where
  "ringd_line owner rpl p0 p1 nid \<equiv> [''ringd'', if owner then ''-o'' else ''-n'', rpl, p0, p1, show_mac nid]"

lemma ringd_main_line:
  assumes "length nid = 6" and "plain_arg p0" and "p0 \<noteq> p1" and "rpl = p0 \<or> rpl = p1"
  shows "ringd_main api now mac (ringd_line owner rpl p0 p1 nid) w =
    Some (bind_res (ringd_open api now mac \<lparr>rv_owner = owner, rv_neighbour = \<not> owner, rv_rpl = Some rpl\<rparr>
      (p0, p1, show_mac nid) w) (\<lambda>d. Inr (Inr d)))"
proof -
  let ?v = "\<lparr>rv_owner = owner, rv_neighbour = \<not> owner, rv_rpl = Some rpl\<rparr>"
  have tail: "opt_loop [''ringd'', fl, rpl, p0, p1, show_mac nid] ''o:n:'' ringd_option v
      \<lparr>optind = 3, place = [], optarg = Some rpl\<rparr> = Some (Inr (v, \<lparr>optind = 3, place = [], optarg = Some rpl\<rparr>))" for fl v
    using assms(2) by (intro opt_loop_plain) simp_all
  have "opt_loop (ringd_line owner rpl p0 p1 nid) ''o:n:'' ringd_option
      \<lparr>rv_owner = False, rv_neighbour = False, rv_rpl = None\<rparr> getopt_start =
    Some (Inr (?v, \<lparr>optind = 3, place = [], optarg = Some rpl\<rparr>))"
    by (cases owner; subst opt_loop_arg [where c = "if owner then CHR ''o'' else CHR ''n''"])
      (simp_all add: getopt_start_def tail numeral_3_eq_3 [symmetric])
  moreover have "ringd_check ?v [p0, p1, show_mac nid] = Some (p0, p1, show_mac nid)"
    using assms by (auto simp: ringd_check_def show_mac_length)
  ultimately show ?thesis by (simp add: ringd_main_def)
qed

lemma started_tx: "is_sending_raps (started now r)" "rp_request (raps (started now r)) = RAPS_REQ_NR"
  "rp_flags (raps (started now r)) = 0"
  using perform_tx [of now "start_effect (situation_of r None)" "fsm_save RING_REQ_INVALID None None r"]
  by (simp_all add: started_def start_effect_def tx_after_def)

lemma all_port_id: "(\<forall>q. P q) \<longleftrightarrow> P PORT0 \<and> P PORT1"
  by (metis port_id.exhaust)

text \<open>A daemon that got as far as its event loop.\<close>

lemma started_daemon:
  assumes "malloc_sized api" and "length mac = 6" and "length nid = 6" and "plain_arg p0" and "p0 \<noteq> p1"
    and "rpl = p0 \<or> rpl = p1"
    and "ringd_main api now mac (ringd_line owner rpl p0 p1 nid) w = Some (Inr (Inr (r, io, w')))"
  shows "s_node_id r = nid \<and> s_is_rpl_owner r = owner \<and> s_is_rpl_neighbour r = (\<not> owner) \<and>
    s_rpl_port r = Some (if rpl = p0 then PORT0 else PORT1) \<and> s_is_revertive r \<and>
    s_state r = RING_STATE_PENDING \<and>
    (\<forall>q. sp_is_blocked (sim_get_port q r) \<longleftrightarrow> s_rpl_port r = Some q) \<and>
    s_is_sending_raps r \<and> ri_request (s_raps r) = RAPS_REQ_NR \<and> ri_flags (s_raps r) = 0 \<and>
    s_wtr_timer_active r = owner \<and> \<not> s_guard_timer_active r \<and> (\<forall>q. \<not> sp_is_failed (sim_get_port q r)) \<and>
    s_prev_request r = RING_REQ_INVALID"
proof -
  let ?v = "\<lparr>rv_owner = owner, rv_neighbour = \<not> owner, rv_rpl = Some rpl\<rparr>"
  have o: "ringd_open api now mac ?v (p0, p1, show_mac nid) w = Inr (r, io, w')"
    using assms(7) unfolding ringd_main_line [OF assms(3-6)] by (auto simp: bind_res_Inr_iff)
  have c: "ringd_check ?v [p0, p1, show_mac nid] = Some (p0, p1, show_mac nid)"
    using assms(3-6) by (auto simp: ringd_check_def show_mac_length)
  obtain f where fresh: "fresh_ring (abs_ring f)"
    and fsm: "sim_ring_fsm now f RING_REQ_INVALID None None = Inr r"
    and f: "s_is_rpl_owner f = owner" "s_is_rpl_neighbour f = (\<not> owner)" "s_is_revertive f"
      "s_rpl_port f = Some (if rpl = p0 then PORT0 else PORT1)" "s_node_id f = nid" "\<not> s_wtr_timer_active f"
      "\<forall>q. \<not> sp_is_failed (sim_get_port q f)"
    by (rule ringd_open_Inr [OF o assms(1,2) c])
      (use sscanf_show [OF assms(3,2)] in \<open>auto split: if_splits\<close>)
  note st = sim_ready_started(1) [OF fresh fsm]
  let ?e = "start_effect (situation_of (abs_ring f) None)"
  have cfg: "ring_cfg (abs_ring r) = ring_cfg (abs_ring f)" by (simp add: st started_cfg)
  have b: "sp_is_blocked (sim_get_port q r) = blocked q (abs_ring r)" for q
    by (simp add: blocked_def sim_simps)
  have "wtr_timer (abs_ring r) = timer_after (ucast now) (ef_wtr ?e)
      (wtr_timer (fsm_save RING_REQ_INVALID None None (abs_ring f)))"
    using perform_timers(2) [of "ucast now" ?e "fsm_save RING_REQ_INVALID None None (abs_ring f)"]
    by (simp add: st started_def)
  moreover have "guard_timer (abs_ring r) = timer_after (ucast now) (ef_guard ?e)
      (guard_timer (fsm_save RING_REQ_INVALID None None (abs_ring f)))"
    using perform_timers(1) [of "ucast now" ?e "fsm_save RING_REQ_INVALID None None (abs_ring f)"]
    by (simp add: st started_def)
  ultimately have "s_wtr_timer_active r = owner" "\<not> s_guard_timer_active r"
    using f by (cases owner; simp add: timer_after_def start_effect_def situation_of_def sim_simps)+
  moreover have "blocked q (abs_ring r) \<longleftrightarrow> q = (if rpl = p0 then PORT0 else PORT1)" for q
    unfolding st using f by (simp add: blocked_started sim_simps)
  moreover have "\<forall>q. \<not> sp_is_failed (sim_get_port q r)"
    using cfg f(7) by (auto simp: ring_cfg_def sim_simps abs_port_def all_port_id)
  moreover have "state (abs_ring r) = RING_STATE_PENDING" "is_sending_raps (abs_ring r)"
    "prev_request (abs_ring r) = RING_REQ_INVALID" "rp_request (raps (abs_ring r)) = RAPS_REQ_NR" "rp_flags (raps (abs_ring r)) = 0"
    unfolding st by (simp_all add: started_sel started_tx)
  ultimately show ?thesis
    using cfg f unfolding b by (auto simp: ring_cfg_def sim_simps)
qed

text \<open>Claim C12: the daemon keeps the node id of its command line. Started as owner or neighbour with a
  protection link, two ports and a node id in printed form, it either ends or has a pending ring
  with that node id, that role and that link, which blocks exactly the link and announces NR, and
  at the owner the wait-to-restore timer runs from the start; no
  guard time is pending and no port counts as failed. What the node id array held before
  does not matter.\<close>

theorem ringd_starts:
  assumes "malloc_sized api" and "length mac = 6" and "length nid = 6" and "plain_arg p0" and "p0 \<noteq> p1"
    and "rpl = p0 \<or> rpl = p1"
    and "ringd_main api now mac (ringd_line owner rpl p0 p1 nid) w = Some (Inr (Inr (r, io, w')))"
  shows "s_node_id r = nid \<and> s_is_rpl_owner r = owner \<and> s_is_rpl_neighbour r = (\<not> owner) \<and>
    s_rpl_port r = Some (if rpl = p0 then PORT0 else PORT1) \<and> s_is_revertive r \<and>
    s_state r = RING_STATE_PENDING \<and>
    (\<forall>q. sp_is_blocked (sim_get_port q r) \<longleftrightarrow> s_rpl_port r = Some q) \<and>
    s_is_sending_raps r \<and> ri_request (s_raps r) = RAPS_REQ_NR \<and> ri_flags (s_raps r) = 0 \<and>
    s_wtr_timer_active r = owner \<and> \<not> s_guard_timer_active r \<and> (\<forall>q. \<not> sp_is_failed (sim_get_port q r))"
  using started_daemon [OF assms] by blast

text \<open>The owner of a ring on \<^verbatim>\<open>em0\<close> and \<^verbatim>\<open>em1\<close>, its protection link on \<^verbatim>\<open>em1\<close>.\<close>

lemma sample_names: "plain_arg ''em0''" "plain_arg ''em1''" "''em0'' \<noteq> ''em1''"
  by (simp_all add: plain_arg_def)

lemma sim_start_defined:
  assumes "fresh_ring (abs_ring f)"
  shows "\<exists>r. sim_ring_fsm now f RING_REQ_INVALID None None = Inr r"
  using sim_ring_fsm_same [of now f RING_REQ_INVALID None None] ring_fsm_start [OF assms, of "ucast now"]
  by (cases "sim_ring_fsm now f RING_REQ_INVALID None None") (simp_all add: bare_requests_def)

lemma sample_create:
  assumes "length nid = 6" and "own \<or> nb \<Longrightarrow> rpl \<noteq> None" and "\<not> (own \<and> nb)"
  shows "\<exists>r w'. sim_ring_create (sample_sim fr) now p0 p1 rpl own nb nid w = Inr (r, w')"
proof -
  obtain ns where ns: "list_requests [req_code RING_REQ_INVALID..<Suc (req_code RING_REQ_CLEAR)] = Inr ns"
    using list_requests_ok by blast
  let ?f = "sim_ready (sw_next w) p0 p1 rpl own nb nid (Suc (sw_next w)) (Suc (Suc (sw_next w))) (replicate 55 0xAA)"
  have "fresh_ring (abs_ring ?f)" using assms by (intro sim_ready_fresh) auto
  then obtain r where "sim_ring_fsm now ?f RING_REQ_INVALID None None = Inr r" using sim_start_defined by blast
  then show ?thesis
    unfolding sim_ring_create_def ns
    by (simp add: sample_sim_def ri_raps_create_def sim_ring_set_raps_def ri_raps_get_len_def Let_def sim_ready_def)
qed

lemma sample_open:
  assumes "length mac = 6"
  shows "\<exists>d. ringd_open (sample_sim fr) 0 mac \<lparr>rv_owner = owner, rv_neighbour = \<not> owner, rv_rpl = Some ''em1''\<rparr>
     (''em0'', ''em1'', ids) w = Inr d"
proof -
  let ?nid = "map ucast (take 6 (sscanf_mac ids mac)) :: bytes"
  have "length ?nid = 6" using sscanf_mac_length [OF assms] by simp
  then have c: "\<exists>r w'. sim_ring_create (sample_sim fr) 0 p0 p1 (Some PORT1) owner (\<not> owner) ?nid w = Inr (r, w')" for p0 p1 w
    by (rule sample_create) simp_all
  have port: "\<exists>p w'. ring_port_create (sample_sim fr) n 1500 w = Inr (p, w')" for n w
    by (simp add: ring_port_create_def sample_sim_def)
  have io: "\<exists>io w'. ring_io_init (sample_sim fr) w = Inr (io, w')" for w
    by (simp add: ring_io_init_def sample_sim_def Let_def)
  obtain p0 w0 where p0: "ring_port_create (sample_sim fr) ''em0'' 1500 w = Inr (p0, w0)" using port by blast
  obtain p1 w1 where p1: "ring_port_create (sample_sim fr) ''em1'' 1500 w0 = Inr (p1, w1)" using port by blast
  obtain r w2 where r: "sim_ring_create (sample_sim fr) 0 p0 p1 (Some PORT1) owner (\<not> owner) ?nid w1 = Inr (r, w2)" using c by blast
  obtain io w3 where i: "ring_io_init (sample_sim fr) w2 = Inr (io, w3)" using io by blast
  have "pcap_get_selectable_fd (sample_sim fr) d w' \<noteq> - 1" for d w' by (simp add: sample_sim_def)
  then show ?thesis by (simp add: ringd_open_def p0 p1 r i)
qed

abbreviation sample_line :: "bool \<Rightarrow> bytes \<Rightarrow> string list" where
  "sample_line owner nid \<equiv> ringd_line owner ''em1'' ''em0'' ''em1'' nid"

lemma sample_up_exists:
  assumes "length nid = 6"
  shows "\<exists>r io w. ringd_main (sample_sim fr) 0 (replicate 6 7) (sample_line owner nid) sample_sworld = Some (Inr (Inr (r, io, w)))"
proof -
  obtain d where "ringd_open (sample_sim fr) 0 (replicate 6 7) \<lparr>rv_owner = owner, rv_neighbour = \<not> owner, rv_rpl = Some ''em1''\<rparr>
     (''em0'', ''em1'', show_mac nid) sample_sworld = Inr d"
    using sample_open [of "replicate 6 7" fr owner] by fastforce
  then show ?thesis
    using ringd_main_line [OF assms, of "''em0''" "''em1''" "''em1''" "sample_sim fr" 0 "replicate 6 7" owner sample_sworld]
      sample_names by (cases d) simp
qed

lemma ringd_starts_witness:
  "\<exists>r io w. ringd_main (sample_sim []) 0 (replicate 6 7) (sample_line True [2, 4, 6, 8, 10, 12]) sample_sworld =
     Some (Inr (Inr (r, io, w))) \<and> s_node_id r = [2, 4, 6, 8, 10, 12] \<and> s_rpl_port r = Some PORT1 \<and>
     \<not> sp_is_blocked (s_port0 r) \<and> s_wtr_timer_active r"
proof -
  obtain r io w where up: "ringd_main (sample_sim []) 0 (replicate 6 7)
      (sample_line True [2, 4, 6, 8, 10, 12]) sample_sworld = Some (Inr (Inr (r, io, w)))"
    using sample_up_exists [of "[2, 4, 6, 8, 10, 12]" "[]" True] by auto
  have "s_node_id r = [2, 4, 6, 8, 10, 12] \<and> s_rpl_port r = Some PORT1 \<and>
      (\<forall>q. sp_is_blocked (sim_get_port q r) \<longleftrightarrow> s_rpl_port r = Some q) \<and> s_wtr_timer_active r"
    using ringd_starts [OF sample_sim_sized _ _ sample_names(1,3) _ up] by simp
  moreover have "sp_is_blocked (s_port0 r) = sp_is_blocked (sim_get_port PORT0 r)" by simp
  ultimately show ?thesis using up by fastforce
qed

text \<open>The daemon of this command line, for the witnesses below.\<close>

lemma sample_up:
  assumes "length nid = 6"
  obtains r io w where "reach (sim_up (sample_sim fr)) (sim_step (sample_sim fr)) (r, io, w)"
    and "ringd_main (sample_sim fr) 0 (replicate 6 7) (sample_line owner nid) sample_sworld = Some (Inr (Inr (r, io, w)))"
proof -
  obtain r io w where r: "ringd_main (sample_sim fr) 0 (replicate 6 7) (sample_line owner nid) sample_sworld = Some (Inr (Inr (r, io, w)))"
    using sample_up_exists [OF assms] by blast
  have "length (replicate 6 7 :: u32 list) = 6" by simp
  then have up: "sim_up (sample_sim fr) (r, io, w)" unfolding sim_up_def using r sample_sim_sized by blast
  have "reach (sim_up (sample_sim fr)) (sim_step (sample_sim fr)) (r, io, w)" using up by (rule reach_init)
  with r show thesis by (intro that)
qed

section \<open>Safety\<close>

text \<open>Claim C6: the daemon never cuts its node off. Whatever frames, timer callbacks, transmissions
  and control messages it has processed since a command line started it, and whatever the
  operating system answered, its ring satisfies the invariant of the ring machine, and one of its
  two ports is open.\<close>

theorem sim_never_cuts_off:
  assumes "reach (sim_up api) (sim_step api) (r, io, w)"
  shows "ring_inv (abs_ring r) \<and> \<not> (sp_is_blocked (s_port0 r) \<and> sp_is_blocked (s_port1 r))"
  using simulator.reach_abs_inv [OF assms] simulator.reach_abs_safe [OF assms]
  by (simp add: blocked_def sim_simps)

lemma sim_never_cuts_off_witness:
  "\<exists>r io w. reach (sim_up (sample_sim [])) (sim_step (sample_sim [])) (r, io, w) \<and>
     \<not> (sp_is_blocked (s_port0 r) \<and> sp_is_blocked (s_port1 r))"
proof -
  obtain r io w where "reach (sim_up (sample_sim [])) (sim_step (sample_sim [])) (r, io, w)"
    by (rule sample_up [of "[2, 4, 6, 8, 10, 12]" "[]"]) simp
  with sim_never_cuts_off [OF this] show ?thesis by blast
qed

section \<open>Recovery\<close>

text \<open>The end of a local signal fail at the owner stamps the timer with the 64-bit clock.\<close>

lemma start_tx_keeps:
  assumes "sim_start_tx q f r = Inr r'"
  shows "s_is_rpl_owner r' = s_is_rpl_owner r" "s_is_revertive r' = s_is_revertive r"
  using assms by (auto simp: sim_start_tx_def bind_res_Inr_iff Let_def split: if_split_asm prod.splits)

lemma clear_sf_row:
  assumes "sim_fsm_protection now RING_REQ_CLEAR_SF port nid r = Inr (r', st)" and "s_is_rpl_owner r" and "s_is_revertive r"
  shows "s_wtr_timer_active r'" "s_wtr_timer_active_since r' = now"
proof -
  let ?g = "r\<lparr>s_guard_timer_active_since := now, s_guard_timer_active := True\<rparr>"
  obtain t where t: "sim_start_tx RAPS_REQ_NR 0 ?g = Inr t"
    and r': "guard_do (\<lambda>r. s_is_rpl_owner r \<and> s_is_revertive r) [sim_start_wtr_timer now] t = Inr r'"
    using assms(1) by (auto simp: sim_row_def sim_start_guard_timer_def bind_res_Inr_iff simp del: guard_do.simps)
  have "s_is_rpl_owner t \<and> s_is_revertive t" using start_tx_keeps [OF t] assms(2,3) by simp
  with r' show "s_wtr_timer_active r'" "s_wtr_timer_active_since r' = now"
    by (auto simp: sim_start_wtr_timer_def)
qed

lemma clear_sf_stamps:
  assumes "sim_ring_process_request now r RING_REQ_CLEAR_SF port nid = Inr r'" and "s_local_request r = RING_REQ_SF"
    and "s_state r = RING_STATE_PROTECTION" and "s_prev_request r \<noteq> RING_REQ_CLEAR_SF"
    and "s_is_rpl_owner r" and "s_is_revertive r"
  shows "s_wtr_timer_active r'" "s_wtr_timer_active_since r' = now"
proof -
  let ?s = "sim_fsm_save RING_REQ_CLEAR_SF port nid (r\<lparr>s_local_request := RING_REQ_INVALID\<rparr>)"
  have s: "s_state ?s = RING_STATE_PROTECTION" "s_is_rpl_owner ?s" "s_is_revertive ?s"
    using assms(3,5,6) by (simp_all add: sim_fsm_save_def Let_def split: option.split)
  from assms(1-4) obtain t st where "sim_fsm_protection now RING_REQ_CLEAR_SF port nid ?s = Inr (t, st)"
    and r': "r' = t\<lparr>s_state := st\<rparr>"
    by (auto simp: sim_ring_process_request_def sim_ring_fsm_def sim_fsm_dedup_def bind_res_Inr_iff Let_def req_less s(1)
        simp del: sim_fsm_protection.simps)
  from clear_sf_row [OF this(1) s(2,3)] show "s_wtr_timer_active r'" "s_wtr_timer_active_since r' = now"
    by (simp_all add: r')
qed

text \<open>The owner with its timer running is reverted by the first callback that comes late enough.\<close>

lemma timer_early:
  "\<not> of_nat (WTR_TIMER * 1000) \<le> tick_diff_msec t (s_wtr_timer_active_since r) \<Longrightarrow> ring_timer t r = Inr r"
  by (simp add: ring_timer_def)

lemma timer_stopped: "\<not> s_wtr_timer_active r \<Longrightarrow> seqs (map ring_timer ts) r = Inr r"
  by (induction ts) (simp_all add: ring_timer_def)

lemma sim_get_port_wtr: "sim_get_port q (r\<lparr>s_wtr_timer_active := b\<rparr>) = sim_get_port q r"
  by (cases q) simp_all

lemma timer_late:
  assumes "ring_inv (abs_ring r)" and "s_is_rpl_owner r" and "s_rpl_port r = Some p" and "s_state r = RING_STATE_PENDING"
    and "s_prev_request r \<noteq> RING_REQ_WTR_EXPIRES" and "s_wtr_timer_active r"
    and "of_nat (WTR_TIMER * 1000) \<le> tick_diff_msec t (s_wtr_timer_active_since r)"
  shows "\<exists>r'. ring_timer t r = Inr r' \<and> s_state r' = RING_STATE_IDLE \<and> \<not> s_wtr_timer_active r' \<and>
    (\<forall>q. sp_is_blocked (sim_get_port q r') \<longleftrightarrow> q = p) \<and> s_is_sending_raps r' \<and>
    ri_request (s_raps r') = RAPS_REQ_NR \<and> ri_flags (s_raps r') AND RAPS_FLAG_RB \<noteq> 0"
proof -
  obtain a where a: "ring_process_request (ucast t) (abs_ring r) RING_REQ_WTR_EXPIRES None None = Inr a"
    "state a = RING_STATE_IDLE" "\<forall>q. blocked q a \<longleftrightarrow> q = p" "is_sending_raps a" "rp_request (raps a) = RAPS_REQ_NR"
    "rp_flags (raps a) = (if blocked p (abs_ring r) then RAPS_FLAG_RB OR RAPS_FLAG_DNF else RAPS_FLAG_RB)"
    using pending_reverts [of "abs_ring r" p RING_REQ_WTR_EXPIRES "ucast t"] assms(1-5) by (auto simp: sim_simps)
  have "\<not> sim_gives_up r RING_REQ_WTR_EXPIRES" using assms(5) by (simp add: sim_gives_up_def)
  with sim_request_defined [OF assms(1) valid_bare(1), of t] obtain r1
    where r1: "sim_ring_process_request t r RING_REQ_WTR_EXPIRES None None = Inr r1" by blast
  from sim_request_abs [OF r1] a(1) have ar: "a = abs_ring r1" by simp
  have rb: "(RAPS_FLAG_RB OR RAPS_FLAG_DNF) AND RAPS_FLAG_RB \<noteq> 0" "RAPS_FLAG_RB AND RAPS_FLAG_RB \<noteq> 0"
    by (simp_all add: RAPS_FLAG_RB_def RAPS_FLAG_DNF_def)
  have "sp_is_blocked (sim_get_port q r1) \<longleftrightarrow> q = p" for q
    using a(3) by (simp add: ar blocked_def sim_simps)
  then have b: "\<forall>q. sp_is_blocked (sim_get_port q (r1\<lparr>s_wtr_timer_active := False\<rparr>)) \<longleftrightarrow> q = p"
    using sim_get_port_wtr by simp
  have "ring_timer t r = Inr (r1\<lparr>s_wtr_timer_active := False\<rparr>)"
    using assms(6,7) by (simp add: ring_timer_def r1)
  moreover have "ri_flags (s_raps r1) AND RAPS_FLAG_RB \<noteq> 0"
    using a(6) rb by (simp add: ar sim_simps split: if_split_asm)
  ultimately show ?thesis using a(2,4,5) b by (simp add: ar sim_simps)
qed

lemma timers_recover:
  assumes "ring_inv (abs_ring r)" and "s_is_rpl_owner r" and "s_rpl_port r = Some p" and "s_state r = RING_STATE_PENDING"
    and "s_prev_request r \<noteq> RING_REQ_WTR_EXPIRES" and "s_wtr_timer_active r"
    and "t \<in> set ts" and "of_nat (WTR_TIMER * 1000) \<le> tick_diff_msec t (s_wtr_timer_active_since r)"
  shows "\<exists>r'. seqs (map ring_timer ts) r = Inr r' \<and> s_state r' = RING_STATE_IDLE \<and> \<not> s_wtr_timer_active r' \<and>
    (\<forall>q. sp_is_blocked (sim_get_port q r') \<longleftrightarrow> q = p) \<and> s_is_sending_raps r' \<and>
    ri_request (s_raps r') = RAPS_REQ_NR \<and> ri_flags (s_raps r') AND RAPS_FLAG_RB \<noteq> 0"
  using assms(7)
proof (induction ts)
  case (Cons u us)
  show ?case
  proof (cases "of_nat (WTR_TIMER * 1000) \<le> tick_diff_msec u (s_wtr_timer_active_since r)")
    case True
    from timer_late [OF assms(1-6) True] show ?thesis by (auto simp: timer_stopped)
  next
    case False
    with assms(8) Cons.prems have "t \<in> set us" by auto
    with Cons.IH timer_early [OF False] show ?thesis by simp
  qed
qed simp

text \<open>Claim C15: the owner recovers. When the local signal fail that a reachable owner declared is
  reported over, on whichever port, the ring becomes pending, and the first timer callback that
  comes 15 s later or more, after any number of earlier ones, brings it to IDLE: exactly the
  protection link is blocked, NR with the RB flag is announced and the timer is off. Callbacks
  that come later still change nothing.\<close>

theorem sim_recovers:
  assumes "reach (sim_up api) (sim_step api) (r, io, w)" and "s_is_rpl_owner r" and "s_rpl_port r = Some p"
    and "s_local_request r = RING_REQ_SF" and "rq_cmd q = RING_IO_CMD_RECOVER"
    and "t \<in> set ts" and "15000 \<le> t - t0"
  shows "\<exists>r1 r2. rio_execute t0 q (Some x) r = Inr r1 \<and> s_state r1 = RING_STATE_PENDING \<and>
    seqs (map ring_timer ts) r1 = Inr r2 \<and> s_state r2 = RING_STATE_IDLE \<and> \<not> s_wtr_timer_active r2 \<and>
    (\<forall>y. sp_is_blocked (sim_get_port y r2) \<longleftrightarrow> y = p) \<and> s_is_sending_raps r2 \<and>
    ri_request (s_raps r2) = RAPS_REQ_NR \<and> ri_flags (s_raps r2) AND RAPS_FLAG_RB \<noteq> 0"
proof -
  let ?l = "sim_upd_port x (\<lambda>q. q\<lparr>sp_is_failed := False\<rparr>) r"
  have rt: "ring_reachable r \<and> sim_timed r" using timed_machine.reach_inv [OF assms(1)] by simp
  then have inv: "ring_inv (abs_ring ?l)" and rv: "s_is_revertive r"
    using reachable_inv reachable.kept_link by (blast, simp add: sim_timed_def)
  have l: "s_is_rpl_owner ?l" "s_rpl_port ?l = Some p" "s_local_request ?l = RING_REQ_SF" "s_is_revertive ?l"
    using assms(2-4) rv by (cases x; simp)+
  have "request_inv (abs_ring ?l)" using inv by (simp add: ring_inv_def)
  then have st: "s_state ?l = RING_STATE_PROTECTION" "s_prev_request ?l = RING_REQ_SF"
    using l(3) unfolding request_inv_def by (auto simp: sim_simps)
  note after = clear_sf_after [OF inv _ refl, where now = "ucast t0" and p = x]
  have loc: "local_request (abs_ring ?l) = RING_REQ_SF" using l(3) by (simp add: sim_simps)
  have v: "valid_call RING_REQ_CLEAR_SF (Some x) None" by (simp add: request_sets)
  have "\<not> sim_gives_up ?l RING_REQ_CLEAR_SF" by (simp add: sim_gives_up_def bare_requests_def)
  with sim_request_defined [OF inv v, of t0] obtain r1
    where r1: "sim_ring_process_request t0 ?l RING_REQ_CLEAR_SF (Some x) None = Inr r1" by blast
  from sim_request_abs [OF r1] after(1) [OF loc]
  have a: "abs_ring r1 = after (ucast t0) (abs_ring ?l) RING_REQ_CLEAR_SF (Some x) None" by simp
  have "s_state r1 = RING_STATE_PENDING" using after(3) [OF loc] abs_sel(8) [of r1] by (simp add: a)
  moreover have "s_prev_request r1 = RING_REQ_CLEAR_SF" using abs_sel(9) [of r1] by (simp add: a after_sel)
  moreover have "s_is_rpl_owner r1" "s_rpl_port r1 = Some p"
    using request_keeps_cfg(2,3) [OF inv v r1] l by simp_all
  moreover have "s_wtr_timer_active r1" "s_wtr_timer_active_since r1 = t0"
    using clear_sf_stamps [OF r1 l(3) st(1) _ l(1,4)] st(2) by simp_all
  moreover have "ring_inv (abs_ring r1)" unfolding a by (rule after(2) [OF loc])
  ultimately have "\<exists>r'. seqs (map ring_timer ts) r1 = Inr r' \<and> s_state r' = RING_STATE_IDLE \<and> \<not> s_wtr_timer_active r' \<and>
    (\<forall>q. sp_is_blocked (sim_get_port q r') \<longleftrightarrow> q = p) \<and> s_is_sending_raps r' \<and>
    ri_request (s_raps r') = RAPS_REQ_NR \<and> ri_flags (s_raps r') AND RAPS_FLAG_RB \<noteq> 0"
    using assms(6,7) by (intro timers_recover [where t = t]) (simp_all add: WTR_TIMER_def tick_diff_msec_def)
  moreover have "rio_execute t0 q (Some x) r = Inr r1"
    using assms(5) r1 by (simp add: rio_execute_def)
  ultimately show ?thesis using \<open>s_state r1 = RING_STATE_PENDING\<close> by blast
qed

lemma sample_calls:
  "u_pipe (sample_sim fr) w = ((10, 11), w)" "u_socket (sample_sim fr) w = (12, w)"
  "u_recv (sample_sim fr) k 5 w = (Some [RING_IO_CMD_FAIL, 0, 0, 0, 0xF0], w)" "u_close (sample_sim fr) k w = w" "u_pthread_create (sample_sim fr) w = (0, w)"
  by (simp_all add: sample_sim_def)

lemma sample_io:
  assumes "length nid = 6" and "ringd_main (sample_sim fr) 0 mac (sample_line True nid) sample_sworld =
      Some (Inr (Inr (r, io, w)))"
  shows "io_sock io = 12" "io_abort_recv io = 11" "io_max_fd io = 12"
proof -
  note line = ringd_main_line [OF assms(1) sample_names(1,3) disjI2 [OF refl]]
  have "\<exists>w1 w2. ring_io_init (sample_sim fr) w1 = Inr (io, w2)"
    using assms(2) unfolding line by (auto simp: ringd_open_def Let_def bind_res_Inr_iff split: if_split_asm)
  then show "io_sock io = 12" "io_abort_recv io = 11" "io_max_fd io = 12"
    by (auto simp: ring_io_init_def sample_calls split: prod.split_asm if_split_asm)
qed

text \<open>The daemon after a client has reported the failure of \<^verbatim>\<open>port0\<close>.\<close>

lemma sample_failed:
  assumes "length nid = 6"
  obtains r io w where "reach (sim_up (sample_sim fr)) (sim_step (sample_sim fr)) (r, io, w)" and "s_is_rpl_owner r"
    and "s_rpl_port r = Some PORT1" and "s_local_request r = RING_REQ_SF" and "s_node_id r = nid"
proof -
  obtain r io w where reach: "reach (sim_up (sample_sim fr)) (sim_step (sample_sim fr)) (r, io, w)"
    and up: "ringd_main (sample_sim fr) 0 (replicate 6 7) (sample_line True nid) sample_sworld =
      Some (Inr (Inr (r, io, w)))"
    by (rule sample_up [OF assms, of fr])
  have r: "s_is_rpl_owner r" "s_rpl_port r = Some PORT1" "s_state r = RING_STATE_PENDING" "s_node_id r = nid"
    using started_daemon [OF sample_sim_sized _ assms sample_names(1,3) _ up] by simp_all
  let ?l = "sim_upd_port PORT0 (\<lambda>q. q\<lparr>sp_is_failed := True\<rparr>) r"
  have rr: "ring_reachable r" using timed_machine.reach_inv [OF reach] by simp
  have inv: "ring_inv (abs_ring ?l)" by (rule reachable_inv [OF reachable.kept_link [OF rr]])
  have "request_inv (abs_ring ?l)" using inv by (simp add: ring_inv_def)
  then have prev: "s_prev_request ?l \<noteq> RING_REQ_SF" and loc: "s_local_request ?l = RING_REQ_INVALID"
    using request_invD(3) [of "abs_ring ?l"] request_inv_state [of "abs_ring ?l"] r(3)
    by (auto simp: sim_simps request_sets)
  have v: "valid_call RING_REQ_SF (Some PORT0) None" by (simp add: request_sets)
  have acc: "request_accepted (abs_ring ?l) RING_REQ_SF" "\<not> repeated (abs_ring ?l) RING_REQ_SF (Some PORT0) None"
    using r loc prev by (auto simp: request_accepted_def repeated_def req_less sim_simps)
  obtain r1 where r1: "sim_ring_process_request 0 ?l RING_REQ_SF (Some PORT0) None = Inr r1"
    and a: "abs_ring r1 = after 0 (abs_ring ?l) RING_REQ_SF (Some PORT0) None"
    using sim_request_defined [OF inv v, of 0] acc by (auto simp: sim_gives_up_def bare_requests_def)
  have "s_local_request r1 = RING_REQ_SF" using abs_sel(7) [of r1] by (simp add: a after_sel request_sets)
  moreover have "s_is_rpl_owner r1" "s_rpl_port r1 = Some PORT1" "s_node_id r1 = nid"
    using request_keeps_cfg(2,3,5) [OF inv v r1] r by simp_all
  moreover have "\<exists>io'. rio_worker (sample_sim fr) 0 (\<lambda>_. (0, 0, 0)) 1 {5} io r w = Inr (True, io', r1, w)"
  proof -
    have "rio_client (sample_sim fr) 0 (0, 0, 0) io 5 r w = Inr (io\<lparr>io_fds := io_fds io - {5}\<rparr>, r1, w)"
      using r1 by (simp add: rio_client_def sample_calls req_of_bytes_def u32_le_def rio_execute_def)
    then show ?thesis using sample_io [OF assms up] by (auto simp: rio_worker_def upto_rec1)
  qed
  then obtain io' where "rio_worker (sample_sim fr) 0 (\<lambda>_. (0, 0, 0)) 1 {5} io r w = Inr (True, io', r1, w)" by blast
  then have "sim_step (sample_sim fr) (r, io, w) (IoEvent 0 (\<lambda>_. (0, 0, 0)) 1 {5}) (r1, io', w)" by (rule sim_io)
  then have "reach (sim_up (sample_sim fr)) (sim_step (sample_sim fr)) (r1, io', w)" by (rule reach_step [OF reach])
  ultimately show thesis by (intro that)
qed

lemma sim_recovers_witness:
  "\<exists>(r :: sim_ring) r1 r2. rio_execute 100 \<lparr>rq_cmd = RING_IO_CMD_RECOVER, rq_param = RING_IO_PORT0\<rparr> (Some PORT0) r = Inr r1 \<and>
     seqs (map ring_timer [1100, 14100, 15100, 16100]) r1 = Inr r2 \<and> s_state r2 = RING_STATE_IDLE \<and>
     sp_is_blocked (s_port1 r2) \<and> \<not> sp_is_blocked (s_port0 r2)"
proof -
  obtain r io w where reach: "reach (sim_up (sample_sim [])) (sim_step (sample_sim [])) (r, io, w)" and r: "s_is_rpl_owner r"
    "s_rpl_port r = Some PORT1" "s_local_request r = RING_REQ_SF"
    by (rule sample_failed [of "[2, 4, 6, 8, 10, 12]" "[]"]) simp
  let ?q = "\<lparr>rq_cmd = RING_IO_CMD_RECOVER, rq_param = RING_IO_PORT0\<rparr>"
  have "rq_cmd ?q = RING_IO_CMD_RECOVER" "15100 \<in> set [1100, 14100, 15100, 16100 :: tick]" "15000 \<le> (15100 :: tick) - 100"
    by simp_all
  from sim_recovers [OF reach r this, of PORT0] obtain r1 r2 where "rio_execute 100 ?q (Some PORT0) r = Inr r1"
    "seqs (map ring_timer [1100, 14100, 15100, 16100]) r1 = Inr r2" "s_state r2 = RING_STATE_IDLE"
    "\<forall>y. sp_is_blocked (sim_get_port y r2) \<longleftrightarrow> y = PORT1" by blast
  then show ?thesis by (metis port_id.distinct(1) sim_get_port.simps)
qed

end
