(* ===== verification/SimEvents.thy ===== *)
theory SimEvents
  imports SimProps
begin

text \<open>
  The daemon's events one by one: received frames through the specification of the codec that the
  kernel's parser meets, periodic transmission, control messages, and which of them can stop it.
\<close>

section \<open>Received frames\<close>

text \<open>The simulator's classification and parser are the kernel's.\<close>

lemma is_erps_same: "is_erps_frame data len = er_is_raps_frame data len"
  by (simp add: is_erps_frame_def er_is_raps_frame_def)

lemma is_local_same: "is_local_erps_frame data len nid = er_is_local_raps_frame nid data len"
  by (simp add: is_local_erps_frame_def er_is_local_raps_frame_def)

lemma map_bind_res: "map_sum id h (bind_res m k) = bind_res m (\<lambda>x. map_sum id h (k x))"
  by (cases m) simp_all

lemma parse_cfm_same:
  "er_raps_parse_cfm (Some (abs_raps f)) data i p =
     map_sum id (map_prod id (Some \<circ> abs_raps)) (ri_raps_parse_cfm f data i p)"
proof -
  have "abs_raps (ri_raps_zero\<lparr>ri_ring_id := i, ri_request := q, ri_flags := fl, ri_node_id := NodeFrame n\<rparr>) =
      er_raps_zero\<lparr>rp_ring_id := i, rp_request := q, rp_flags := fl, rp_node_id := NodeFrame n\<rparr>" for q fl n
    by (simp add: abs_raps_def ri_raps_zero_def er_raps_zero_def)
  then show ?thesis
    by (simp add: er_raps_parse_cfm_def ri_raps_parse_cfm_def map_bind_res if_distrib [of "map_sum id h" for h]
        option.case_distrib [of "map_sum id h" for h] cong: if_cong option.case_cong)
qed

lemma parse_same:
  "er_raps_parse (Some (abs_raps f)) data len = map_sum id (map_prod id (Some \<circ> abs_raps)) (ri_raps_parse f data len)"
  by (simp add: er_raps_parse_def ri_raps_parse_def parse_cfm_same map_bind_res if_distrib [of "map_sum id h" for h]
      cong: if_cong)

lemma ri_raps_parse_eq:
  assumes "55 \<le> len" and "len \<le> int (length data)"
  shows "\<exists>g. ri_raps_parse f data len = Inr (raps_accept data, g) \<and> (raps_accept data \<longrightarrow> abs_raps g = raps_fields data)"
  using er_raps_parse_eq [OF assms, of "Some (abs_raps f)"] unfolding parse_same
  by (cases "ri_raps_parse f data len") (auto split: if_split_asm)

lemma sim_raps_body_eq:
  assumes "55 \<le> len" and "len \<le> int (length data)" and "u_malloc api SOBJ_RAPS w = (m, w1)"
  shows "sim_raps_body api now r data len (Some p) w =
    (case m of
       None \<Rightarrow> Inl Exited
     | Some (a, _) \<Rightarrow>
         if \<not> raps_accept data then Inr (r, w1)
         else bind_res (sim_ring_process_request now r (frame_request data) (Some p) (Some (frame_sender data)))
           (\<lambda>r'. Inr (r', u_free api a w1)))"
proof -
  have len: "55 \<le> length data" using assms by linarith
  obtain g where g: "ri_raps_parse ri_raps_zero data len = Inr (raps_accept data, g)"
    "raps_accept data \<longrightarrow> abs_raps g = raps_fields data"
    using ri_raps_parse_eq [OF assms(1,2), of ri_raps_zero] by blast
  have n: "ri_node_id g = rp_node_id (raps_fields data)" if "raps_accept data"
    using g(2) that by (metis abs_raps_sel(3))
  show ?thesis
    using assms(3) raps_fields_request(1) [of data] node_bytes_fields [OF len] n
    by (cases m) (auto simp: sim_raps_body_def ri_raps_create_def ri_raps_destroy_def g raps_sim_same)
qed

text \<open>A received R-APS frame; the receiving port alone decides whether it is passed on.\<close>

lemma port_cb_eq:
  assumes "ring_port_recv api (sim_get_port p r) w = (Some (data, len), w1)"
    and "len \<le> int (length data)" and "length (s_node_id r) = 6"
  shows "port_cb api now p r w =
    (if len < 55 \<or> take 5 data \<noteq> RAPS_DST \<or> frame_sender data = s_node_id r then Inr (r, w1)
     else bind_res (ring_process_raps api now r data len (Some p) w1) (\<lambda>(r', w2).
       Inr (r', if sp_is_blocked (sim_get_port p r') then w2
                else snd (pcap_inject api (sp_dev (sim_get_port (other_port p) r')) data len w2))))"
proof -
  have o: "ring_other_port (Some p) = Some (other_port p)" by (cases p) (simp_all add: ring_other_port_def)
  have send: "snd (ring_port_send api q d l w') = snd (pcap_inject api (sp_dev q) d l w')" for q d l w'
    by (simp add: ring_port_send_def split: prod.split)
  show ?thesis
    using er_is_raps_frame_eq [OF assms(2)] er_is_local_raps_frame_eq [OF assms(2,3)]
    by (auto simp: port_cb_def assms(1) is_erps_same is_local_same frame_sender_def o send
        ring_port_is_blocked_def intro!: arg_cong [where f = "bind_res _"] ext split: if_split)
qed

lemma sim_remote_defined:
  assumes "ring_inv (abs_ring r)" and "req \<in> remote_requests" and "length nid = 6"
  shows "\<exists>r'. sim_ring_process_request now r req (Some p) (Some nid) = Inr r'"
proof -
  have "valid_call req (Some p) (Some nid)" using assms(3) by (simp add: valid_call_def)
  moreover have "\<not> sim_gives_up r req" using assms(2) by (auto simp: sim_gives_up_def bare_requests_def request_sets)
  ultimately show ?thesis using sim_request_defined [OF assms(1)] by blast
qed

text \<open>Claim C17: the daemons of a ring hear each other. A frame from the transmit buffer of one reachable
  daemon, received by another one whose guard timer is not running, is dropped as an echo when
  the node ids of the two command lines are equal. Otherwise it causes exactly the request that
  corresponds to the announced message, from the port of arrival and with the sender's node id,
  and is passed on as it is through the other port if the port of arrival is then open, even if
  that other port is blocked.\<close>

theorem sim_frame_handled:
  assumes "reach (sim_up api') (sim_step api') (t, io', v)" and "reach (sim_up api) (sim_step api) (r, io, w)"
    and "\<not> s_guard_timer_active r"
    and "ring_port_recv api (sim_get_port p r) w = (Some (s_raps_frame t, s_raps_frame_len t), w1)"
    and "u_malloc api SOBJ_RAPS w1 = (Some (a, x), w2)"
  shows "\<exists>q. sim_raps_request (s_raps t) = Some q \<and>
    (if s_node_id t = s_node_id r then port_cb api now p r w = Inr (r, w1)
     else \<exists>r'. sim_ring_process_request now r q (Some p) (Some (s_node_id t)) = Inr r' \<and>
       port_cb api now p r w = Inr (r', if sp_is_blocked (sim_get_port p r') then u_free api a w2
         else snd (pcap_inject api (sp_dev (sim_get_port (other_port p) r')) (s_raps_frame t) 55 (u_free api a w2))))"
proof -
  let ?d = "s_raps_frame t"
  have rt: "ring_reachable t" and rr: "ring_reachable r"
    using timed_machine.reach_inv [OF assms(1)] timed_machine.reach_inv [OF assms(2)] by simp_all
  have d: "s_raps_frame_len t = 55" "length ?d = 55" "take 5 ?d = RAPS_DST" "frame_sender ?d = s_node_id t"
    "raps_accept ?d" "sim_raps_request (s_raps t) = Some (frame_request ?d)"
    using announced_frame [OF rt] by (simp_all add: sim_simps raps_sim_same)
  have nid: "length (s_node_id t) = 6" "length (s_node_id r) = 6" using reachable_node_id rt rr by blast+
  note cb = port_cb_eq [OF assms(4), of now] 
  show ?thesis
  proof (cases "s_node_id t = s_node_id r")
    case True
    then show ?thesis using cb d nid by simp
  next
    case False
    obtain r' where r': "sim_ring_process_request now r (frame_request ?d) (Some p) (Some (s_node_id t)) = Inr r'"
      using sim_remote_defined [OF reachable_inv [OF rr] raps_fields_request(2) [OF d(5)] nid(1)] by blast
    have "ring_process_raps api now r ?d 55 (Some p) w1 = Inr (r', u_free api a w2)"
      using sim_raps_body_eq [of 55 ?d, OF _ _ assms(5), of now r p] assms(3) d r' by (simp add: ring_process_raps_def)
    then show ?thesis using cb d nid r' False by simp
  qed
qed

text \<open>The second daemon receives what the first one announces when it starts.\<close>

lemma sim_frame_handled_witness:
  "\<exists>(t :: sim_ring) r r' w w'. s_node_id t = [3, 3, 3, 3, 3, 3] \<and> s_node_id r = [2, 4, 6, 8, 10, 12] \<and>
     sim_ring_process_request 7 r RING_REQ_RAPS_NR (Some PORT0) (Some (s_node_id t)) = Inr r' \<and>
     port_cb (sample_sim (s_raps_frame t)) 7 PORT0 r w = Inr (r', w')"
proof -
  have six: "length [3, 3, 3, 3, 3, 3 :: u8] = 6" "length [2, 4, 6, 8, 10, 12 :: u8] = 6" "length (replicate 6 7 :: u32 list) = 6"
    by simp_all
  obtain t io' v where t: "reach (sim_up (sample_sim [])) (sim_step (sample_sim [])) (t, io', v)"
    and mt: "ringd_main (sample_sim []) 0 (replicate 6 7) (sample_line True [3, 3, 3, 3, 3, 3]) sample_sworld = Some (Inr (Inr (t, io', v)))"
    by (rule sample_up [OF six(1), of "[]"])
  let ?api = "sample_sim (s_raps_frame t)"
  obtain r io w where r: "reach (sim_up ?api) (sim_step ?api) (r, io, w)"
    and mr: "ringd_main ?api 0 (replicate 6 7) (sample_line True [2, 4, 6, 8, 10, 12]) sample_sworld = Some (Inr (Inr (r, io, w)))"
    by (rule sample_up [OF six(2), of "s_raps_frame t"])
  note ft = started_daemon [OF sample_sim_sized six(3,1) sample_names(1,3) _ mt, simplified]
  note fr = started_daemon [OF sample_sim_sized six(3,2) sample_names(1,3) _ mr, simplified]
  have "ring_reachable t" using timed_machine.reach_inv [OF t] by simp
  from announced_frame(1,2) [OF this] have len: "s_raps_frame_len t = 55" "length (s_raps_frame t) = 55"
    by (simp_all add: sim_simps)
  have recv: "ring_port_recv ?api (sim_get_port PORT0 r) w = (Some (s_raps_frame t, s_raps_frame_len t), w)"
    by (simp add: ring_port_recv_def sample_sim_def len)
  obtain a x w2 where m: "u_malloc ?api SOBJ_RAPS w = (Some (a, x), w2)" by (simp add: sample_sim_def)
  have fl: "ri_flags (s_raps t) AND RAPS_FLAG_RB = 0" using ft by simp
  have q: "sim_raps_request (s_raps t) = Some RING_REQ_RAPS_NR" using ft fl by (simp add: sim_raps_request_def)
  have n: "s_node_id t = [3, 3, 3, 3, 3, 3]" "s_node_id r = [2, 4, 6, 8, 10, 12]" using ft fr by blast+
  then have ne: "s_node_id t \<noteq> s_node_id r" by simp
  have "\<not> s_guard_timer_active r" using fr by blast
  from sim_frame_handled [OF t r this recv m, of 7] obtain r' w'
    where "sim_ring_process_request 7 r RING_REQ_RAPS_NR (Some PORT0) (Some (s_node_id t)) = Inr r'"
      and "port_cb ?api 7 PORT0 r w = Inr (r', w')"
    unfolding q if_not_P [OF ne] by blast
  with n show ?thesis by blast
qed


section \<open>What stops the daemon\<close>

text \<open>libpcap hands over at least as many bytes as it reports.\<close>

definition pcap_sized :: "'w sim_api \<Rightarrow> bool" where
  "pcap_sized api \<longleftrightarrow> (\<forall>d w res data len w'. pcap_next_ex api d w = (res, data, len, w') \<longrightarrow> 0 < res \<longrightarrow>
     len \<le> int (length data))"

lemma recv_sized:
  assumes "pcap_sized api" and "ring_port_recv api q w = (Some (data, len), w1)"
  shows "len \<le> int (length data)"
proof -
  obtain res where "pcap_next_ex api (sp_dev q) w = (res, data, len, w1)" "0 < res"
    using assms(2) by (auto simp: ring_port_recv_def not_le split: prod.splits if_split_asm)
  with assms(1) show ?thesis unfolding pcap_sized_def by blast
qed

lemma raps_defined:
  assumes "ring_reachable r" and "55 \<le> len" and "len \<le> int (length data)"
    and "u_malloc api SOBJ_RAPS w = (Some (a, x), w1)"
  shows "\<exists>r' w'. ring_process_raps api now r data len (Some p) w = Inr (r', w')"
proof -
  have len: "55 \<le> length data" using assms by linarith
  have body: "\<exists>r' w'. sim_raps_body api now s data len (Some p) w = Inr (r', w')" if s: "ring_reachable s" for s
  proof (cases "raps_accept data")
    case True
    obtain r' where "sim_ring_process_request now s (frame_request data) (Some p) (Some (frame_sender data)) = Inr r'"
      using sim_remote_defined [OF reachable_inv [OF s] raps_fields_request(2) [OF True] frame_sender_length [OF len]] by blast
    then show ?thesis using True by (simp add: sim_raps_body_eq [OF assms(2-4)])
  next
    case False
    then show ?thesis by (simp add: sim_raps_body_eq [OF assms(2-4)])
  qed
  show ?thesis using body [OF assms(1)] body [OF reachable.kept_guard [OF assms(1)]] by (simp add: ring_process_raps_def)
qed

lemma frame_defined:
  assumes "ring_reachable r" and "pcap_sized api"
  shows "port_cb api now p r w \<in> range Inr \<or>
    port_cb api now p r w = Inl Exited \<and> fst (u_malloc api SOBJ_RAPS (snd (ring_port_recv api (sim_get_port p r) w))) = None"
proof (cases "ring_port_recv api (sim_get_port p r) w")
  case (Pair m w1)
  show ?thesis
  proof (cases m)
    case None
    with Pair show ?thesis by (simp add: port_cb_def)
  next
    case (Some f)
    obtain data len where f: "f = (data, len)" by (cases f)
    note recv = Pair [unfolded Some f]
    note sz = recv_sized [OF assms(2) recv]
    note cb = port_cb_eq [OF recv sz reachable_node_id [OF assms(1)], of now]
    obtain mm w2 where m: "u_malloc api SOBJ_RAPS w1 = (mm, w2)" by (cases "u_malloc api SOBJ_RAPS w1")
    show ?thesis
    proof (cases "55 \<le> len \<and> mm \<noteq> None")
      case True
      then obtain a x where "mm = Some (a, x)" by auto
      with True m raps_defined [OF assms(1) _ sz, of api w1 a x w2 now p] obtain r' w'
        where "ring_process_raps api now r data len (Some p) w1 = Inr (r', w')" by auto
      then have "\<exists>y. port_cb api now p r w = Inr y" by (simp add: cb)
      then show ?thesis by blast
    next
      case False
      show ?thesis
      proof (cases "len < 55")
        case True
        with cb show ?thesis by simp
      next
        case 55: False
        with False have "mm = None" by (cases mm) auto
        with m have "u_malloc api SOBJ_RAPS w1 = (None, w2)" by simp
        with 55 have "sim_raps_body api now s data len (Some p) w1 = Inl Exited" for s
          using sim_raps_body_eq [OF _ sz, of api w1 None w2] by simp
        then have "ring_process_raps api now r data len (Some p) w1 \<in> {Inr (r, w1), Inl Exited}"
          by (simp add: ring_process_raps_def)
        then have "port_cb api now p r w = Inl Exited \<or> (\<exists>y. port_cb api now p r w = Inr y)"
          by (auto simp: cb)
        with 55 False m show ?thesis by (auto simp: recv)
      qed
    qed
  qed
qed

lemma timer_defined:
  assumes "ring_reachable r" and "sim_timed r"
  shows "\<exists>r'. ring_timer now r = Inr r'"
proof (cases "s_wtr_timer_active r")
  case True
  with assms(2) have "\<not> sim_gives_up r RING_REQ_WTR_EXPIRES" by (simp add: sim_timed_def sim_gives_up_def)
  with sim_request_defined [OF reachable_inv [OF assms(1)] valid_bare(1), of now]
  obtain r1 where "sim_ring_process_request now r RING_REQ_WTR_EXPIRES None None = Inr r1" by blast
  then show ?thesis by (simp add: ring_timer_def)
qed (simp add: ring_timer_def)

lemma gives_up_exits: "sim_gives_up r req \<Longrightarrow> sim_ring_process_request now r req port nid = Inl Exited"
  by (auto simp: sim_gives_up_def sim_ring_process_request_eq sim_ring_fsm_bare)

lemma gives_up_clear:
  assumes "ring_inv (abs_ring r)"
  shows "sim_gives_up r RING_REQ_CLEAR \<longleftrightarrow> s_prev_request r = RING_REQ_CLEAR \<and> \<not> sim_clear_denied r"
proof -
  have "request_inv (abs_ring r)" using assms by (simp add: ring_inv_def)
  then have "s_local_request r < RING_REQ_CLEAR"
    using request_invD(1) [of "abs_ring r"] by (auto simp: request_sets req_less sim_simps)
  then show ?thesis
    by (auto simp: sim_gives_up_def bare_requests_def request_accepted_def sim_simps clear_denied_same)
qed

text \<open>Claim C18: what can stop a running daemon. Its timer never does. A frame does only when there is no
  memory for a parsed message. A control message does in two cases: a port command that names no
  port, which dereferences NULL, and a CLEAR that the priority logic accepts right after another
  one. Frames are taken from a packet library that delivers the bytes it reports.\<close>

theorem sim_stops_only:
  assumes "reach (sim_up api) (sim_step api) (r, io, w)" and "pcap_sized api"
  shows "ring_timer now r \<in> range Inr \<and>
    (port_cb api now p r w \<in> range Inr \<or>
     port_cb api now p r w = Inl Exited \<and> fst (u_malloc api SOBJ_RAPS (snd (ring_port_recv api (sim_get_port p r) w))) = None) \<and>
    (case rio_execute now q port r of
       Inl f \<Rightarrow> (if rq_cmd q = RING_IO_CMD_CLEAR
         then f = Exited \<and> s_prev_request r = RING_REQ_CLEAR \<and> \<not> sim_clear_denied r
         else f = NullPtr \<and> port = None \<and> rq_cmd q \<in> port_commands)
     | Inr _ \<Rightarrow> (if rq_cmd q = RING_IO_CMD_CLEAR
         then s_prev_request r \<noteq> RING_REQ_CLEAR \<or> sim_clear_denied r
         else port \<noteq> None \<or> rq_cmd q \<notin> port_commands))"
proof -
  have rt: "ring_reachable r" "sim_timed r" using timed_machine.reach_inv [OF assms(1)] by simp_all
  note inv = reachable_inv [OF rt(1)]
  let ?ok = "case rio_execute now q port r of
       Inl f \<Rightarrow> (if rq_cmd q = RING_IO_CMD_CLEAR
         then f = Exited \<and> s_prev_request r = RING_REQ_CLEAR \<and> \<not> sim_clear_denied r
         else f = NullPtr \<and> port = None \<and> rq_cmd q \<in> port_commands)
     | Inr _ \<Rightarrow> (if rq_cmd q = RING_IO_CMD_CLEAR
         then s_prev_request r \<noteq> RING_REQ_CLEAR \<or> sim_clear_denied r
         else port \<noteq> None \<or> rq_cmd q \<notin> port_commands)"
  have "?ok"
  proof (cases "rq_cmd q \<in> port_commands")
    case True
    then have c: "rq_cmd q \<noteq> RING_IO_CMD_CLEAR" by (auto simp: port_commands_def)
    show ?thesis
    proof (cases port)
      case None
      with True c show ?thesis by (simp add: rio_execute_eq)
    next
      case (Some x)
      let ?l = "fst (rio_request (rq_cmd q) x) r" and ?q = "snd (rio_request (rq_cmd q) x)"
      have "ring_inv (abs_ring ?l)" by (rule reachable_inv [OF reachable.rio_link_kept [OF rt(1)]])
      moreover have "valid_call ?q (Some x) None" using rio_request_local(1) by simp
      moreover have "\<not> sim_gives_up ?l ?q" by (auto simp: sim_gives_up_def bare_requests_def rio_request_def)
      ultimately obtain r' where "sim_ring_process_request now ?l ?q (Some x) None = Inr r'"
        using sim_request_defined by blast
      with True c Some show ?thesis by (simp add: rio_execute_eq)
    qed
  next
    case False
    show ?thesis
      using sim_request_defined [OF inv valid_bare(2), of now] gives_up_exits [of r RING_REQ_CLEAR now None None] False
      by (cases "sim_gives_up r RING_REQ_CLEAR") (auto simp: rio_execute_eq gives_up_clear [OF inv])
  qed
  with timer_defined [OF rt, of now] frame_defined [OF rt(1) assms(2), of now p w] show ?thesis by blast
qed

lemma sample_pcap_sized: "pcap_sized (sample_sim fr)"
  unfolding pcap_sized_def by (simp add: sample_sim_def)

lemma sim_stops_only_witness:
  "\<exists>r io w. reach (sim_up (sample_sim [])) (sim_step (sample_sim [])) (r, io, w) \<and>
     ring_timer 99 r \<in> range Inr \<and>
     rio_execute 99 \<lparr>rq_cmd = RING_IO_CMD_FS, rq_param = 0\<rparr> None r = Inl NullPtr"
proof -
  obtain r io w where reach: "reach (sim_up (sample_sim [])) (sim_step (sample_sim [])) (r, io, w)"
    by (rule sample_up [of "[2, 4, 6, 8, 10, 12]" "[]"]) simp
  show ?thesis
    using reach sim_stops_only [OF reach sample_pcap_sized, of 99 PORT0 "\<lparr>rq_cmd = RING_IO_CMD_FS, rq_param = 0\<rparr>" None]
    by (intro exI [of _ r] exI [of _ io] exI [of _ w]) (auto simp: port_commands_def split: sum.splits)
qed


section \<open>Transmission\<close>

text \<open>The callback run \<open>n\<close> times, with the interval each run leaves behind.\<close>

fun send_rounds :: "'w sim_api \<Rightarrow> nat \<Rightarrow> sim_ring option \<Rightarrow> nat \<Rightarrow> 'w \<Rightarrow> nat list \<times> sim_ring option \<times> 'w" where
  "send_rounds api 0 ring i w = ([], ring, w)"
| "send_rounds api (Suc n) ring i w =
     (case send_raps_cb api ring i w of (ring', i', w') \<Rightarrow>
      case send_rounds api n ring' i' w' of (is, ring'', w'') \<Rightarrow> (i' # is, ring'', w''))"

lemma send_raps_bursts [simp]: "ring_send_raps api (r\<lparr>s_raps_bursts_remain := b\<rparr>) = ring_send_raps api r"
  by (simp add: ring_send_raps_def fun_eq_iff)

lemma send_rounds_eq:
  assumes "s_is_sending_raps r" and "s_raps_bursts_remain r = int b"
  shows "send_rounds api n (Some r) i w =
    (replicate (min n b) 10 @ replicate (n - b) 5000, Some (r\<lparr>s_raps_bursts_remain := int (b - n)\<rparr>),
     (ring_send_raps api r ^^ n) w)"
  using assms
proof (induction n arbitrary: r b i w)
  case 0
  then show ?case by simp
next
  case (Suc n)
  show ?case
  proof (cases b)
    case 0
    with Suc.prems Suc.IH [of r 0 5000 "ring_send_raps api r w"] show ?thesis
      by (simp add: send_raps_cb_def funpow_swap1)
  next
    case (Suc c)
    let ?r = "r\<lparr>s_raps_bursts_remain := int c\<rparr>"
    have "send_raps_cb api (Some r) i w = (Some ?r, 10, ring_send_raps api r w)"
      using Suc.prems Suc by (simp add: send_raps_cb_def)
    with Suc.prems Suc Suc.IH [of ?r c 10 "ring_send_raps api r w"] show ?thesis
      by (simp add: funpow_swap1)
  qed
qed

text \<open>Claim C20: a new announcement comes in a burst. After the message has changed, the callback sends
  the frame on both ports every time it runs; the first three runs store 0.01 s, that is 10 ms,
  in \<^verbatim>\<open>timer.repeat\<close>, all later ones 5 s. Announcing the same message again does not start another
  burst, and once transmission has been stopped the callback does nothing. When libev applies a
  stored value is its own matter: a timer that repeats has been scheduled anew before its
  callback runs.\<close>

theorem announcement_burst:
  assumes "sim_start_tx q f r = Inr r1" and "ri_request (s_raps r) \<noteq> q \<or> ri_flags (s_raps r) \<noteq> f"
  shows "send_rounds api n (Some r1) i w =
      (take n (replicate 3 10 @ replicate n 5000), Some (r1\<lparr>s_raps_bursts_remain := int (3 - n)\<rparr>),
       (ring_send_raps api r1 ^^ n) w) \<and>
    sim_start_tx q f (r1\<lparr>s_raps_bursts_remain := b\<rparr>) = Inr (r1\<lparr>s_raps_bursts_remain := b\<rparr>) \<and>
    bind_res (sim_stop_tx r1) (\<lambda>r2. Inr (send_raps_cb api (Some r2) i w)) =
      Inr (Some (r1\<lparr>s_is_sending_raps := False\<rparr>), i, w)"
proof -
  from assms have r1: "s_is_sending_raps r1" "s_raps_bursts_remain r1 = int 3"
    "ri_request (s_raps r1) = q" "ri_flags (s_raps r1) = f"
    by (auto simp: sim_start_tx_def bind_res_Inr_iff Let_def split: prod.splits)
  have "replicate (min n 3) 10 @ replicate (n - 3) 5000 = take n (replicate 3 10 @ replicate n (5000 :: nat))"
    by (simp add: min_def)
  moreover have "r1\<lparr>s_raps_bursts_remain := b\<rparr>\<lparr>s_is_sending_raps := True\<rparr> = r1\<lparr>s_raps_bursts_remain := b\<rparr>"
    using r1(1) by (simp add: sim_ring.equality)
  ultimately show ?thesis
    using send_rounds_eq [OF r1(1,2), of api n i w] r1
    by (simp add: sim_start_tx_def sim_stop_tx_def send_raps_cb_def)
qed

definition sample_sim_port :: sim_port where
  "sample_sim_port = \<lparr>sp_addr = 9, sp_is_blocked = False, sp_is_failed = False, sp_name = Some (8, ''em0''),
     sp_recv_buf_len = 0, sp_dev = 0\<rparr>"

lemma announcement_burst_witness:
  "\<exists>r1 w'. sim_start_tx RAPS_REQ_NR 0 (sim_ready 1 sample_sim_port sample_sim_port None False False [2, 4, 6, 8, 10, 12] 2 3 (replicate 55 0)) = Inr r1 \<and>
     send_rounds (sample_sim []) 5 (Some r1) 1000 sample_sworld =
       ([10, 10, 10, 5000, 5000], Some (r1\<lparr>s_raps_bursts_remain := 0\<rparr>), w')"
proof -
  let ?r = "sim_ready 1 sample_sim_port sample_sim_port None False False [2, 4, 6, 8, 10, 12] 2 3 (replicate 55 0)"
  have "case sim_start_tx RAPS_REQ_NR 0 ?r of Inr _ \<Rightarrow> True | Inl _ \<Rightarrow> False" by code_simp
  then obtain r1 where r1: "sim_start_tx RAPS_REQ_NR 0 ?r = Inr r1" by (auto split: sum.splits)
  have "ri_flags (s_raps ?r) \<noteq> 0" by code_simp
  then have "ri_request (s_raps ?r) \<noteq> RAPS_REQ_NR \<or> ri_flags (s_raps ?r) \<noteq> 0" by simp
  from announcement_burst [OF r1 this, of "sample_sim []" 5 1000 sample_sworld] r1 show ?thesis
    by (auto simp: numeral_eq_Suc)
qed


section \<open>Control messages\<close>

lemma u32_le_bytes:
  "(ucast (u32_le a b c d) :: u8) = a" "(ucast (drop_bit 8 (u32_le a b c d)) :: u8) = b"
  "(ucast (drop_bit 16 (u32_le a b c d)) :: u8) = c" "(ucast (drop_bit 24 (u32_le a b c d)) :: u8) = d"
  by (rule bit_word_eqI, auto simp: u32_le_def bit_simps dest: bit_imp_le_length)+

lemma u32_le_port:
  "u32_le a b c d = RING_IO_PORT0 \<longleftrightarrow> a = 0xF0 \<and> (b, c, d) = (0, 0, 0)"
  "u32_le a b c d = RING_IO_PORT1 \<longleftrightarrow> a = 0xF1 \<and> (b, c, d) = (0, 0, 0)"
proof -
  have z: "u32_le 0xF0 0 0 0 = RING_IO_PORT0" "u32_le 0xF1 0 0 0 = RING_IO_PORT1" by (simp_all add: u32_le_def)
  show "u32_le a b c d = RING_IO_PORT0 \<longleftrightarrow> a = 0xF0 \<and> (b, c, d) = (0, 0, 0)"
    using u32_le_bytes [of a b c d] u32_le_bytes [of "0xF0" 0 0 0] z(1) by auto
  show "u32_le a b c d = RING_IO_PORT1 \<longleftrightarrow> a = 0xF1 \<and> (b, c, d) = (0, 0, 0)"
    using u32_le_bytes [of a b c d] u32_le_bytes [of "0xF1" 0 0 0] z(2) by auto
qed

text \<open>Claim C21: a control message is cut. The client sends the eight bytes of its request, the daemon
  reads five of them. For a port command it then depends on what the three bytes behind them
  held on the daemon's stack: with three zeros the right request runs on the right port, the
  connection is closed and its descriptor dropped; with anything else the daemon dereferences
  NULL.\<close>

theorem control_message_cut:
  assumes "cmd \<in> {''ms'', ''fs'', ''fail'', ''recover''}"
    and "ring_ctl_main True pad [prog, cmd, if p = PORT0 then ''port0'' else ''port1''] = (code, msg)"
    and "u_recv api sock 5 w = (Some (take 5 msg), w1)"
  shows "code = 0 \<and> length msg = 8 \<and>
    snd (rio_request (hd msg) p) = (if cmd = ''ms'' then RING_REQ_MS else if cmd = ''fs'' then RING_REQ_FS
      else if cmd = ''fail'' then RING_REQ_SF else RING_REQ_CLEAR_SF) \<and>
    rio_client api now junk io sock r w =
      (if junk = (0, 0, 0)
       then bind_res (sim_ring_process_request now (fst (rio_request (hd msg) p) r) (snd (rio_request (hd msg) p)) (Some p) None)
         (\<lambda>r'. Inr (io\<lparr>io_fds := io_fds io - {sock}\<rparr>, r', u_close api sock w1))
       else Inl NullPtr)"
proof -
  let ?c = "if cmd = ''ms'' then RING_IO_CMD_MS else if cmd = ''fs'' then RING_IO_CMD_FS
    else if cmd = ''fail'' then RING_IO_CMD_FAIL else RING_IO_CMD_RECOVER"
  let ?n = "if p = PORT0 then 0xF0 else 0xF1 :: u8"
  obtain x y z where pad: "pad = (x, y, z)" by (cases pad)
  have line: "ring_ctl_main True pad [prog, cmd, if p = PORT0 then ''port0'' else ''port1''] = (0, [?c, x, y, z, ?n, 0, 0, 0])"
    using assms(1)
    by (elim insertE emptyE; cases p; simp add: ring_ctl_main_def ring_ctl_port_def ring_io_send_msg_def req_bytes_def pad)
  have msg: "code = 0" "msg = [?c, x, y, z, ?n, 0, 0, 0]"
    using line assms(2) by simp_all
  obtain b c d where junk: "junk = (b, c, d)" by (cases junk)
  have req: "req_of_bytes (take 5 msg) junk = \<lparr>rq_cmd = ?c, rq_param = u32_le ?n b c d\<rparr>"
    by (simp add: msg(2) req_of_bytes_def junk)
  have cmds: "?c \<in> port_commands" by (simp add: port_commands_def)
  have port: "(if u32_le ?n b c d = RING_IO_PORT1 then Some PORT1
      else if u32_le ?n b c d = RING_IO_PORT0 then Some PORT0 else None) = (if junk = (0, 0, 0) then Some p else None)"
    by (cases p) (simp_all add: u32_le_port junk)
  have "rio_client api now junk io sock r w =
      bind_res (rio_execute now \<lparr>rq_cmd = ?c, rq_param = u32_le ?n b c d\<rparr> (if junk = (0, 0, 0) then Some p else None) r)
        (\<lambda>r'. Inr (io\<lparr>io_fds := io_fds io - {sock}\<rparr>, r', u_close api sock w1))"
    unfolding port [symmetric] by (simp add: rio_client_def assms(3) req Let_def) (simp add: msg(2))
  moreover have "snd (rio_request ?c p) = (if cmd = ''ms'' then RING_REQ_MS else if cmd = ''fs'' then RING_REQ_FS
      else if cmd = ''fail'' then RING_REQ_SF else RING_REQ_CLEAR_SF)"
    using assms(1) by (auto simp: rio_request_def)
  ultimately show ?thesis
    using cmds by (simp add: msg rio_execute_eq)
qed

lemma control_message_cut_witness:
  "ring_ctl_main True (0, 0, 0) [''ring-ctl'', ''fail'', ''port0''] = (0, [RING_IO_CMD_FAIL, 0, 0, 0, 0xF0, 0, 0, 0]) \<and>
   (\<forall>io r. rio_client (sample_sim []) 9 (1, 0, 0) io 5 r sample_sworld = Inl NullPtr)"
proof -
  have line: "ring_ctl_main True (0, 0, 0) [''ring-ctl'', ''fail'', if PORT0 = PORT0 then ''port0'' else ''port1''] =
      (0, [RING_IO_CMD_FAIL, 0, 0, 0, 0xF0, 0, 0, 0])"
    by (simp add: ring_ctl_main_def ring_ctl_port_def ring_io_send_msg_def req_bytes_def)
  have recv: "u_recv (sample_sim []) 5 5 sample_sworld = (Some (take 5 [RING_IO_CMD_FAIL, 0, 0, 0, 0xF0, 0, 0, 0]), sample_sworld)"
    by (simp add: sample_calls)
  have cmd: "''fail'' \<in> {''ms'', ''fs'', ''fail'', ''recover''}" by simp
  have "rio_client (sample_sim []) 9 (1, 0, 0) io 5 r sample_sworld = Inl NullPtr" for io r
    using control_message_cut [OF cmd line recv, of 9 "(1, 0, 0)" io r] by simp
  with line show ?thesis by simp
qed


end
