(* ===== verification/SimNetwork.thy ===== *)
theory SimNetwork
  imports SimEvents
begin

text \<open>
  Daemons around a ring. A wire carries what one node injects on a port to the neighbour behind
  it, unchanged; the theory follows one frame from node to node and shows that the nodes
  together do what ring protection is for: a failure opens every port that it has not taken
  away, and a reverted owner brings all others back to IDLE, but for those that have already
  spent its message on leaving PROTECTION.
\<close>

section \<open>A frame on its way around the ring\<close>

text \<open>
  What a node sees while it handles one frame: the frame waits on the port, and what the node
  injects is recorded with the device it goes out through.
\<close>

definition wire :: "bytes \<Rightarrow> (nat \<times> bytes) list sim_api" where
  "wire fr = \<lparr>
     u_malloc = (\<lambda>obj w. (Some (0, []), w)), u_strdup = (\<lambda>s w. (Some (0, s), w)), u_free = (\<lambda>a w. w),
     pcap_open_live = (\<lambda>name n w. (Some 0, w)), pcap_setdirection = (\<lambda>d w. (0, w)),
     pcap_inject = (\<lambda>d data len w. (len, w @ [(d, take (nat len) data)])),
     pcap_next_ex = (\<lambda>d w. (1, fr, int (length fr), w)),
     pcap_close = (\<lambda>d w. w), pcap_get_selectable_fd = (\<lambda>d w. 0),
     u_pipe = (\<lambda>w. ((0, 0), w)), u_socket = (\<lambda>w. (0, w)), u_accept = (\<lambda>s w. (0, w)),
     u_recv = (\<lambda>s n w. (None, w)), u_close = (\<lambda>s w. w), u_pthread_create = (\<lambda>w. (0, w)),
     u_write = (\<lambda>s b w. (0, w)), u_pthread_join = (\<lambda>w. w)\<rparr>"

text \<open>The node afterwards, and whether the frame left it through the other port.\<close>

definition hop :: "tick \<Rightarrow> bytes \<Rightarrow> port_id \<Rightarrow> sim_ring \<Rightarrow> fault + (sim_ring \<times> bool)" where
  "hop now fr p r = bind_res (port_cb (wire fr) now p r []) (\<lambda>(r', out).
     Inr (r', (sp_dev (sim_get_port (other_port p) r'), fr) \<in> set out))"

text \<open>Along a row of nodes, each with the port the frame comes in on, until one keeps it.\<close>

fun travel :: "tick \<Rightarrow> bytes \<Rightarrow> (port_id \<times> sim_ring) list \<Rightarrow> fault + (sim_ring list \<times> bool)" where
  "travel now fr [] = Inr ([], True)"
| "travel now fr ((p, r) # nodes) = bind_res (hop now fr p r) (\<lambda>(r', on).
     if on then bind_res (travel now fr nodes) (\<lambda>(rs, on'). Inr (r' # rs, on'))
     else Inr (r' # map snd nodes, False))"

lemma travel_through:
  assumes "\<forall>(p, r)\<in>set nodes. \<exists>r'. hop now fr p r = Inr (r', True) \<and> Q p r r'"
  shows "\<exists>rs. travel now fr nodes = Inr (rs, True) \<and> list_all2 (\<lambda>(p, r) r'. Q p r r') nodes rs"
  using assms
proof (induction nodes)
  case (Cons n nodes)
  then obtain rs where rs: "travel now fr nodes = Inr (rs, True)" "list_all2 (\<lambda>(p, r) r'. Q p r r') nodes rs"
    by auto
  obtain p r where n: "n = (p, r)" by (cases n)
  with Cons.prems obtain r' where "hop now fr p r = Inr (r', True)" "Q p r r'" by auto
  with rs n show ?case by (intro exI [of _ "r' # rs"]) simp
qed simp

text \<open>One node: the frame is handled as its request, and goes on when the port it came in on is open.\<close>

lemma hop_own:
  assumes "ring_reachable t"
  shows "hop now (s_raps_frame t) p t = Inr (t, False)"
proof -
  note d = announced_frame [OF assms, unfolded abs_sel]
  have "ring_port_recv (wire (s_raps_frame t)) (sim_get_port p t) [] = (Some (s_raps_frame t, 55), [])"
    using d(2) by (simp add: ring_port_recv_def wire_def)
  from port_cb_eq [OF this _ reachable_node_id [OF assms], of now] d show ?thesis by (simp add: hop_def)
qed

lemma sim_accepted:
  assumes "ring_reachable r" and "req \<in> remote_requests" and "length nid = 6" and "request_accepted (abs_ring r) req"
    and "s_prev_request r = req \<longrightarrow> s_prev_request_remote_node_id r \<noteq> nid"
  obtains r' where "sim_ring_process_request now r req (Some p) (Some nid) = Inr r'" and "ring_reachable r'"
    and "abs_ring r' = after (ucast now) (abs_ring r) req (Some p) (Some nid)"
proof -
  note inv = reachable_inv [OF assms(1)]
  have v: "valid_call req (Some p) (Some nid)" using assms(3) by (simp add: valid_call_def)
  obtain r' where r': "sim_ring_process_request now r req (Some p) (Some nid) = Inr r'"
    using sim_remote_defined [OF inv assms(2,3)] by blast
  have "\<not> repeated (abs_ring r) req (Some p) (Some nid)" using assms(2,5) by (auto simp: repeated_def sim_simps)
  with sim_request_defined [OF inv v, of now] r' assms(4)
  have "abs_ring r' = after (ucast now) (abs_ring r) req (Some p) (Some nid)" by auto
  with r' sim_request_reach [OF assms(1) v r'] show thesis by (rule that)
qed

lemma hop_handles:
  assumes "ring_reachable t" and "ring_reachable r" and "\<not> s_guard_timer_active r" and "s_node_id r \<noteq> s_node_id t"
    and "sim_raps_request (s_raps t) = Some req" and "request_accepted (abs_ring r) req"
    and "s_prev_request r = req \<longrightarrow> s_prev_request_remote_node_id r \<noteq> s_node_id t"
    and "\<not> blocked p (after (ucast now) (abs_ring r) req (Some p) (Some (s_node_id t)))"
  shows "\<exists>r'. hop now (s_raps_frame t) p r = Inr (r', True) \<and> ring_reachable r' \<and>
    abs_ring r' = after (ucast now) (abs_ring r) req (Some p) (Some (s_node_id t))"
proof -
  let ?d = "s_raps_frame t"
  have d: "length ?d = 55" "take 5 ?d = RAPS_DST" "frame_sender ?d = s_node_id t" "raps_accept ?d" "frame_request ?d = req"
    using announced_frame [OF assms(1)] assms(5) by (simp_all add: sim_simps raps_sim_same)
  have nid: "length (s_node_id t) = 6" by (rule reachable_node_id [OF assms(1)])
  have rem: "req \<in> remote_requests" using raps_fields_request(2) [OF d(4)] d(5) by simp
  obtain r' where r': "sim_ring_process_request now r req (Some p) (Some (s_node_id t)) = Inr r'" "ring_reachable r'"
    and a: "abs_ring r' = after (ucast now) (abs_ring r) req (Some p) (Some (s_node_id t))"
    by (rule sim_accepted [OF assms(2) rem nid assms(6,7)])
  have "blocked p (abs_ring r') = sp_is_blocked (sim_get_port p r')" by (simp add: blocked_def sim_simps)
  then have op: "\<not> sp_is_blocked (sim_get_port p r')" using assms(8) by (simp add: a)
  have recv: "ring_port_recv (wire ?d) (sim_get_port p r) [] = (Some (?d, 55), [])"
    using d(1) by (simp add: ring_port_recv_def wire_def)
  have "ring_process_raps (wire ?d) now r ?d 55 (Some p) [] = Inr (r', [])"
    using sim_raps_body_eq [of 55 ?d "wire ?d" "[]" "Some (0, [])" "[]" now r p] assms(3) d r'
    by (simp add: ring_process_raps_def wire_def)
  then have "hop now ?d p r = Inr (r', True)"
    using port_cb_eq [OF recv _ reachable_node_id [OF assms(2)], of now] d assms(4) op
    by (simp add: hop_def) (simp add: wire_def)
  with r'(2) a show ?thesis by blast
qed

text \<open>A message that is the last one of the same node again changes nothing.\<close>

lemma sim_dropped:
  assumes "length (s_prev_request_remote_node_id r) = 6" and "s_local_request r = RING_REQ_INVALID"
    and "req \<in> remote_requests" and "s_prev_request r = req" and "s_prev_request_remote_node_id r = nid"
  shows "sim_ring_process_request now r req port (Some nid) = Inr r"
proof -
  have "r\<lparr>s_local_request := RING_REQ_INVALID\<rparr> = r" using assms(2) by (simp add: sim_ring.equality)
  moreover have "take 6 nid = nid" using assms(1,5) by simp
  ultimately show ?thesis
    using assms(2-5) by (auto simp: sim_ring_process_request_def sim_ring_fsm_def sim_fsm_dedup_def memcmp_eq_0_iff
        request_sets req_less)
qed

lemma hop_dropped:
  assumes "ring_reachable t" and "ring_reachable r" and "\<not> s_guard_timer_active r" and "s_node_id r \<noteq> s_node_id t"
    and "sim_raps_request (s_raps t) = Some req" and "s_local_request r = RING_REQ_INVALID"
    and "s_prev_request r = req" and "s_prev_request_remote_node_id r = s_node_id t"
    and "\<not> sp_is_blocked (sim_get_port p r)"
  shows "hop now (s_raps_frame t) p r = Inr (r, True)"
proof -
  let ?d = "s_raps_frame t"
  have d: "length ?d = 55" "take 5 ?d = RAPS_DST" "frame_sender ?d = s_node_id t" "raps_accept ?d" "frame_request ?d = req"
    using announced_frame [OF assms(1)] assms(5) by (simp_all add: sim_simps raps_sim_same)
  have rem: "req \<in> remote_requests" using raps_fields_request(2) [OF d(4)] d(5) by simp
  have "length (s_prev_request_remote_node_id r) = 6"
    using assms(8) reachable_node_id [OF assms(1)] by simp
  note same = sim_dropped [OF this assms(6) rem assms(7,8)]
  have recv: "ring_port_recv (wire ?d) (sim_get_port p r) [] = (Some (?d, 55), [])"
    using d(1) by (simp add: ring_port_recv_def wire_def)
  have "ring_process_raps (wire ?d) now r ?d 55 (Some p) [] = Inr (r, [])"
    using sim_raps_body_eq [of 55 ?d "wire ?d" "[]" "Some (0, [])" "[]" now r p] assms(3) d same
    by (simp add: ring_process_raps_def wire_def)
  then show ?thesis
    using port_cb_eq [OF recv _ reachable_node_id [OF assms(2)], of now] d assms(4,9)
    by (simp add: hop_def) (simp add: wire_def)
qed

section \<open>The ring after a failure and after reversion\<close>

lemma after_quiet:
  assumes "ef_tx (g8032 req port (situation_of r nid)) = Silence"
  shows "\<not> is_sending_raps (after now r req port nid)"
  using after_sel(6) [of now r req port nid] by (simp add: assms tx_after_def del: g8032.simps)

lemma waiting_accepts:
  assumes "ring_reachable r" and "s_state r \<in> {RING_STATE_IDLE, RING_STATE_PENDING}"
  shows "request_accepted (abs_ring r) RING_REQ_RAPS_SF" "request_accepted (abs_ring r) RING_REQ_RAPS_NR_RB"
proof -
  have "request_inv (abs_ring r)" using reachable_inv [OF assms(1)] by (simp add: ring_inv_def)
  then have "local_request (abs_ring r) = RING_REQ_INVALID" using request_inv_state [of "abs_ring r"] assms(2) by (simp add: sim_simps)
  then show "request_accepted (abs_ring r) RING_REQ_RAPS_SF" "request_accepted (abs_ring r) RING_REQ_RAPS_NR_RB"
    by (simp_all add: request_accepted_def req_less)
qed

lemma abs_blocked: "sp_is_blocked (sim_get_port q r) = blocked q (abs_ring r)"
  by (simp add: blocked_def sim_simps)

text \<open>Claim C8: a failure opens the ring. The signal fail that one reachable daemon announces, carried
  along any number of nodes that are idle or pending, the RPL owner among them, passes all of
  them, and leaves each in PROTECTION, silent and with both ports open, so that the traffic has
  the way around. The nodes have no failed ports, other node ids, no guard time pending and did
  not just handle a remote signal fail.\<close>

theorem failure_opens_ring:
  assumes "ring_reachable t" and "ri_request (s_raps t) = RAPS_REQ_SF"
    and "\<forall>(p, r)\<in>set nodes. ring_reachable r \<and> s_state r \<in> {RING_STATE_IDLE, RING_STATE_PENDING} \<and>
      \<not> s_guard_timer_active r \<and> s_node_id r \<noteq> s_node_id t \<and> s_prev_request r \<noteq> RING_REQ_RAPS_SF \<and>
      (\<forall>q. \<not> sp_is_failed (sim_get_port q r))"
  shows "\<exists>rs. travel now (s_raps_frame t) nodes = Inr (rs, True) \<and>
    list_all2 (\<lambda>(p, r) r'. ring_reachable r' \<and> s_state r' = RING_STATE_PROTECTION \<and> \<not> s_is_sending_raps r' \<and>
      (\<forall>q. \<not> sp_is_blocked (sim_get_port q r'))) nodes rs"
proof (rule travel_through)
  have req: "sim_raps_request (s_raps t) = Some RING_REQ_RAPS_SF" by (simp add: sim_raps_request_def assms(2))
  have "\<exists>r'. hop now (s_raps_frame t) p r = Inr (r', True) \<and> ring_reachable r' \<and> s_state r' = RING_STATE_PROTECTION \<and>
      \<not> s_is_sending_raps r' \<and> (\<forall>q. \<not> sp_is_blocked (sim_get_port q r'))" if "(p, r) \<in> set nodes" for p r
  proof -
    from assms(3) that have r: "ring_reachable r" "s_state r \<in> {RING_STATE_IDLE, RING_STATE_PENDING}"
      "\<not> s_guard_timer_active r" "s_node_id r \<noteq> s_node_id t" "s_prev_request r \<noteq> RING_REQ_RAPS_SF"
      "\<And>q. \<not> sp_is_failed (sim_get_port q r)" by blast+
    let ?a = "after (ucast now) (abs_ring r) RING_REQ_RAPS_SF (Some p) (Some (s_node_id t))"
    let ?e = "g8032 RING_REQ_RAPS_SF (Some p) (situation_of (abs_ring r) (Some (s_node_id t)))"
    have e: "ef_ports ?e = OpenNonfailed" "ef_tx ?e = Silence" "ef_next ?e = RING_STATE_PROTECTION"
      using r(2) by (auto simp: table_defs act_simps sim_simps)
    have op: "\<not> blocked q ?a" for q
      using r(6) [of q] unfolding after_blocked e(1) by (simp add: blocked_after_def sim_simps abs_port_def)
    obtain r' where r': "hop now (s_raps_frame t) p r = Inr (r', True)" "ring_reachable r'" "abs_ring r' = ?a"
      using hop_handles [OF assms(1) r(1,3,4) req waiting_accepts(1) [OF r(1,2)] _ op] r(5) by blast
    have "s_state r' = RING_STATE_PROTECTION" using abs_sel(8) [of r'] unfolding r'(3) after_sel(1) e(3) by simp
    moreover have "\<not> s_is_sending_raps r'" using abs_sel(12) [of r'] after_quiet [OF e(2)] unfolding r'(3) by simp
    ultimately show ?thesis using r' op by (simp add: abs_blocked)
  qed
  then show "\<forall>(p, r)\<in>set nodes. \<exists>r'. hop now (s_raps_frame t) p r = Inr (r', True) \<and> ring_reachable r' \<and>
      s_state r' = RING_STATE_PROTECTION \<and> \<not> s_is_sending_raps r' \<and> (\<forall>q. \<not> sp_is_blocked (sim_get_port q r'))"
    by blast
qed

text \<open>Three daemons of the sample world.\<close>

lemma sample_waiting:
  assumes "length nid = 6"
  obtains r where "ring_reachable r" and "s_node_id r = nid" and "s_state r = RING_STATE_PENDING"
    and "\<not> s_guard_timer_active r" and "s_is_rpl_owner r = owner" and "s_rpl_port r = Some PORT1"
    and "\<forall>q. \<not> sp_is_failed (sim_get_port q r)" and "s_prev_request r = RING_REQ_INVALID" and "sp_is_blocked (s_port1 r)"
proof -
  obtain r io w where up: "reach (sim_up (sample_sim [])) (sim_step (sample_sim [])) (r, io, w)"
    and m: "ringd_main (sample_sim []) 0 (replicate 6 7) (sample_line owner nid) sample_sworld = Some (Inr (Inr (r, io, w)))"
    by (rule sample_up [OF assms])
  have "length (replicate 6 7 :: u32 list) = 6" by simp
  note f = started_daemon [OF sample_sim_sized this assms sample_names(1,3) _ m, simplified]
  have "sp_is_blocked (sim_get_port PORT1 r)" using f by blast
  then have b: "sp_is_blocked (s_port1 r)" by simp
  have "ring_reachable r" using timed_machine.reach_inv [OF up] by simp
  then show thesis using f b by (intro that) blast+
qed

lemma failure_opens_ring_witness:
  "\<exists>(t :: sim_ring) a b rs. ri_request (s_raps t) = RAPS_REQ_SF \<and> s_is_rpl_owner a \<and> sp_is_blocked (s_port1 a) \<and>
     \<not> s_is_rpl_owner b \<and> travel 99 (s_raps_frame t) [(PORT0, a), (PORT0, b)] = Inr (rs, True) \<and> length rs = 2"
proof -
  have six: "length [1, 1, 1, 1, 1, 1 :: u8] = 6" "length [2, 2, 2, 2, 2, 2 :: u8] = 6" "length [3, 3, 3, 3, 3, 3 :: u8] = 6"
    by simp_all
  obtain t io w where t: "reach (sim_up (sample_sim [])) (sim_step (sample_sim [])) (t, io, w)" "s_local_request t = RING_REQ_SF"
    "s_node_id t = [1, 1, 1, 1, 1, 1]"
    by (rule sample_failed [OF six(1)])
  have tr: "ring_reachable t" using timed_machine.reach_inv [OF t(1)] by simp
  have "port_inv (abs_ring t)" using reachable_inv [OF tr] by (simp add: ring_inv_def)
  then have sf: "ri_request (s_raps t) = RAPS_REQ_SF" using t(2) by (simp add: port_inv_def sim_simps)
  obtain a where a: "ring_reachable a" "s_node_id a = [2, 2, 2, 2, 2, 2]" "s_state a = RING_STATE_PENDING"
    "\<not> s_guard_timer_active a" "s_is_rpl_owner a" "\<forall>q. \<not> sp_is_failed (sim_get_port q a)" "s_prev_request a = RING_REQ_INVALID"
    "sp_is_blocked (s_port1 a)"
    by (rule sample_waiting [OF six(2), of True]) blast
  obtain b where b: "ring_reachable b" "s_node_id b = [3, 3, 3, 3, 3, 3]" "s_state b = RING_STATE_PENDING"
    "\<not> s_guard_timer_active b" "\<not> s_is_rpl_owner b" "\<forall>q. \<not> sp_is_failed (sim_get_port q b)" "s_prev_request b = RING_REQ_INVALID"
    by (rule sample_waiting [OF six(3), of False]) blast
  have "\<exists>rs. travel 99 (s_raps_frame t) [(PORT0, a), (PORT0, b)] = Inr (rs, True) \<and>
      list_all2 (\<lambda>(p, r) r'. ring_reachable r' \<and> s_state r' = RING_STATE_PROTECTION \<and> \<not> s_is_sending_raps r' \<and>
      (\<forall>q. \<not> sp_is_blocked (sim_get_port q r'))) [(PORT0, a), (PORT0, b)] rs"
    by (rule failure_opens_ring [OF tr sf]) (use a b t(3) in auto)
  then obtain rs where "travel 99 (s_raps_frame t) [(PORT0, a), (PORT0, b)] = Inr (rs, True)" "length rs = 2"
    by (auto dest!: list_all2_lengthD)
  with sf a(5,8) b(5) show ?thesis by blast
qed

text \<open>What a node does with NR,RB: a node that has just become pending by this very message drops it
  as a repetition and stays as it is, every other one becomes idle and silent, a neighbour of the
  protection link with exactly its port of that link blocked and any other node with none.\<close>

definition repeats :: "sim_ring \<Rightarrow> sim_ring \<Rightarrow> bool" where
  "repeats t r \<longleftrightarrow> s_prev_request r = RING_REQ_RAPS_NR_RB \<and> s_prev_request_remote_node_id r = s_node_id t"

definition reverted :: "sim_ring \<Rightarrow> sim_ring \<Rightarrow> bool" where
  "reverted r r' \<longleftrightarrow> ring_reachable r' \<and> s_state r' = RING_STATE_IDLE \<and> \<not> s_is_sending_raps r' \<and>
     (\<forall>q. sp_is_blocked (sim_get_port q r') \<longleftrightarrow> s_is_rpl_neighbour r \<and> s_rpl_port r = Some q)"

lemma hop_reverts:
  assumes "ring_reachable t" and "ri_request (s_raps t) = RAPS_REQ_NR" and "ri_flags (s_raps t) AND RAPS_FLAG_RB \<noteq> 0"
    and "ring_reachable r" and "s_state r = RING_STATE_PENDING" and "\<not> s_is_rpl_owner r" and "\<not> s_guard_timer_active r"
    and "s_node_id r \<noteq> s_node_id t" and "\<not> (s_is_rpl_neighbour r \<and> s_rpl_port r = Some p)"
    and "repeats t r \<Longrightarrow> \<not> sp_is_blocked (sim_get_port p r)"
  shows "\<exists>r'. hop now (s_raps_frame t) p r = Inr (r', True) \<and> (if repeats t r then r' = r else reverted r r')"
proof -
  have req: "sim_raps_request (s_raps t) = Some RING_REQ_RAPS_NR_RB" using assms(2,3) by (simp add: sim_raps_request_def)
  have inv: "rpl_ok (abs_ring r)" "request_inv (abs_ring r)" using reachable_inv [OF assms(4)] by (simp_all add: ring_inv_def)
  show ?thesis
  proof (cases "repeats t r")
    case True
    have "s_local_request r = RING_REQ_INVALID"
      using request_inv_state [OF inv(2)] assms(5) by (simp add: sim_simps)
    with hop_dropped [OF assms(1,4,7,8) req] True assms(10) show ?thesis by (simp add: repeats_def)
  next
    case False
    let ?a = "after (ucast now) (abs_ring r) RING_REQ_RAPS_NR_RB (Some p) (Some (s_node_id t))"
    let ?e = "g8032 RING_REQ_RAPS_NR_RB (Some p) (situation_of (abs_ring r) (Some (s_node_id t)))"
    have nb: "s_is_rpl_neighbour r \<Longrightarrow> s_rpl_port r \<noteq> None" using inv(1) by (auto simp: rpl_ok_def sim_simps)
    have e: "ef_ports ?e = (if s_is_rpl_neighbour r then (case s_rpl_port r of None \<Rightarrow> Keep | Some q \<Rightarrow> OnlyBlock q) else OpenAll)"
      "ef_tx ?e = Silence" "ef_next ?e = RING_STATE_IDLE"
      using assms(5,6) by (simp_all add: situation_of_def stay_def sim_simps)
    have b: "blocked q ?a \<longleftrightarrow> s_is_rpl_neighbour r \<and> s_rpl_port r = Some q" for q
      using nb unfolding after_blocked e(1) by (auto simp: blocked_after_def)
    have "s_state r \<in> {RING_STATE_IDLE, RING_STATE_PENDING}" using assms(5) by simp
    note acc = waiting_accepts(2) [OF assms(4) this]
    have fresh: "s_prev_request r = RING_REQ_RAPS_NR_RB \<longrightarrow> s_prev_request_remote_node_id r \<noteq> s_node_id t"
      using False by (simp add: repeats_def)
    have "\<not> blocked p ?a" using b assms(9) by blast
    then obtain r' where r': "hop now (s_raps_frame t) p r = Inr (r', True)" "ring_reachable r'" "abs_ring r' = ?a"
      using hop_handles [OF assms(1,4,7,8) req acc fresh] by blast
    have "s_state r' = RING_STATE_IDLE" using abs_sel(8) [of r'] unfolding r'(3) after_sel(1) e(3) by simp
    moreover have "\<not> s_is_sending_raps r'" using abs_sel(12) [of r'] after_quiet [OF e(2)] unfolding r'(3) by simp
    ultimately show ?thesis using r' b False by (simp add: abs_blocked reverted_def)
  qed
qed

text \<open>Claim C7: reversion reaches the whole ring. The NR,RB message of one daemon, carried along any
  number of pending nodes that are not the owner, passes all of them. A node whose last accepted
  request was this very message (row 28 of the table takes it from PROTECTION to PENDING) drops
  it as a repetition and stays pending; every other node becomes idle and silent, a neighbour of
  the protection link blocking exactly its port of that link, all others nothing. When the message
  is back at its sender it is taken off the ring and changes nothing. The nodes have other node
  ids and no guard time pending; at a neighbour the message does not come in over the protection
  link, and where it is a repetition the port it comes in on is open.\<close>

theorem reversion_reaches_ring:
  assumes "ring_reachable t" and "ri_request (s_raps t) = RAPS_REQ_NR" and "ri_flags (s_raps t) AND RAPS_FLAG_RB \<noteq> 0"
    and "\<forall>(p, r)\<in>set nodes. ring_reachable r \<and> s_state r = RING_STATE_PENDING \<and> \<not> s_is_rpl_owner r \<and>
      \<not> s_guard_timer_active r \<and> s_node_id r \<noteq> s_node_id t \<and> \<not> (s_is_rpl_neighbour r \<and> s_rpl_port r = Some p) \<and>
      (repeats t r \<longrightarrow> \<not> sp_is_blocked (sim_get_port p r))"
  shows "\<exists>rs. travel now (s_raps_frame t) nodes = Inr (rs, True) \<and> hop now (s_raps_frame t) x t = Inr (t, False) \<and>
    list_all2 (\<lambda>(p, r) r'. if repeats t r then r' = r else reverted r r') nodes rs"
proof -
  have "\<exists>r'. hop now (s_raps_frame t) p r = Inr (r', True) \<and> (if repeats t r then r' = r else reverted r r')"
    if "(p, r) \<in> set nodes" for p r
    using assms(4) that by (intro hop_reverts [OF assms(1-3)]) blast+
  then have "\<exists>rs. travel now (s_raps_frame t) nodes = Inr (rs, True) \<and>
    list_all2 (\<lambda>(p, r) r'. if repeats t r then r' = r else reverted r r') nodes rs"
    by (intro travel_through) blast
  with hop_own [OF assms(1)] show ?thesis by blast
qed

lemma sample_reverted:
  assumes "length nid = 6"
  obtains t where "ring_reachable t" and "s_node_id t = nid" and "ri_request (s_raps t) = RAPS_REQ_NR"
    and "ri_flags (s_raps t) AND RAPS_FLAG_RB \<noteq> 0"
proof -
  obtain r where r: "ring_reachable r" "s_node_id r = nid" "s_state r = RING_STATE_PENDING" "s_is_rpl_owner r"
    "s_rpl_port r = Some PORT1" "s_prev_request r = RING_REQ_INVALID"
    by (rule sample_waiting [OF assms, of True]) blast
  note inv = reachable_inv [OF r(1)]
  obtain a where a: "ring_process_request 5 (abs_ring r) RING_REQ_CLEAR None None = Inr a" "rp_request (raps a) = RAPS_REQ_NR"
    "rp_flags (raps a) \<in> {RAPS_FLAG_RB OR RAPS_FLAG_DNF, RAPS_FLAG_RB}"
    using pending_reverts [OF inv, of PORT1 RING_REQ_CLEAR 5] r by (auto simp: sim_simps split: if_split_asm)
  have "\<not> sim_gives_up r RING_REQ_CLEAR" using r(6) by (simp add: sim_gives_up_def)
  with sim_request_defined [OF inv valid_bare(2), of 5] obtain t
    where t: "sim_ring_process_request 5 r RING_REQ_CLEAR None None = Inr t" by blast
  from sim_request_abs [OF t] a(1) have at: "a = abs_ring t" by simp
  have "ring_reachable t" by (rule sim_request_reach [OF r(1) valid_bare(2) t])
  moreover have "s_node_id t = nid" using request_keeps_cfg(5) [OF inv valid_bare(2) t] r(2) by simp
  moreover have "ri_flags (s_raps t) AND RAPS_FLAG_RB \<noteq> 0"
    using a(3) by (auto simp: at sim_simps RAPS_FLAG_RB_def RAPS_FLAG_DNF_def)
  ultimately show thesis using a(2) by (intro that) (simp_all add: at sim_simps)
qed

text \<open>A daemon that heard the signal fail and then, without an NR in between, the NR,RB.\<close>

lemma sample_repeats:
  assumes "length nid = 6" and "length n = 6"
  obtains c where "ring_reachable c" and "s_node_id c = nid" and "s_state c = RING_STATE_PENDING"
    and "\<not> s_is_rpl_owner c" and "\<not> s_guard_timer_active c" and "s_rpl_port c = Some PORT1"
    and "s_prev_request c = RING_REQ_RAPS_NR_RB" and "s_prev_request_remote_node_id c = n"
    and "\<And>q. \<not> sp_is_blocked (sim_get_port q c)"
proof -
  obtain r where r: "ring_reachable r" "s_node_id r = nid" "s_state r = RING_STATE_PENDING" "\<not> s_guard_timer_active r"
    "\<not> s_is_rpl_owner r" "s_rpl_port r = Some PORT1" "\<And>q. \<not> sp_is_failed (sim_get_port q r)" "s_prev_request r = RING_REQ_INVALID"
    by (rule sample_waiting [OF assms(1), of False]) blast
  have rem: "RING_REQ_RAPS_SF \<in> remote_requests" "RING_REQ_RAPS_NR_RB \<in> remote_requests" by (simp_all add: request_sets)
  have v: "valid_call req (Some PORT0) (Some n)" for req using assms(2) by (simp add: valid_call_def)
  let ?e1 = "g8032 RING_REQ_RAPS_SF (Some PORT0) (situation_of (abs_ring r) (Some n))"
  have "s_state r \<in> {RING_STATE_IDLE, RING_STATE_PENDING}" using r(3) by simp
  note acc = waiting_accepts(1) [OF r(1) this]
  obtain a where a: "sim_ring_process_request 5 r RING_REQ_RAPS_SF (Some PORT0) (Some n) = Inr a" "ring_reachable a"
    "abs_ring a = after (ucast (5 :: tick)) (abs_ring r) RING_REQ_RAPS_SF (Some PORT0) (Some n)"
    by (rule sim_accepted [OF r(1) rem(1) assms(2) acc, where now = 5 and p = PORT0]) (simp_all add: r(8))
  have e1: "ef_ports ?e1 = OpenNonfailed" "ef_guard ?e1 = KeepTimer" "ef_next ?e1 = RING_STATE_PROTECTION"
    using r(3) by (auto simp: table_defs act_simps sim_simps)
  have a1: "state (abs_ring a) = RING_STATE_PROTECTION" "local_request (abs_ring a) = RING_REQ_INVALID"
    "prev_request (abs_ring a) = RING_REQ_RAPS_SF" "guard_timer (abs_ring a) = guard_timer (abs_ring r)"
    "\<not> blocked q (abs_ring a)" for q
    using r(7) [of q] unfolding a(3) after_sel(1-3) after_blocked after_timers(1) e1
    by (simp_all add: request_sets blocked_after_def timer_after_def sim_simps abs_port_def)
  let ?e2 = "g8032 RING_REQ_RAPS_NR_RB (Some PORT0) (situation_of (abs_ring a) (Some n))"
  have "request_accepted (abs_ring a) RING_REQ_RAPS_NR_RB" by (simp add: request_accepted_def req_less a1(2))
  then obtain c where c: "sim_ring_process_request 6 a RING_REQ_RAPS_NR_RB (Some PORT0) (Some n) = Inr c" "ring_reachable c"
    "abs_ring c = after (ucast (6 :: tick)) (abs_ring a) RING_REQ_RAPS_NR_RB (Some PORT0) (Some n)"
    by (rule sim_accepted [OF a(2) rem(2) assms(2), where now = 6 and p = PORT0]) (use a1(3) in \<open>simp_all add: sim_simps\<close>)
  have e2: "ef_ports ?e2 = Keep" "ef_guard ?e2 = KeepTimer" "ef_next ?e2 = RING_STATE_PENDING"
    using a1(1) by (simp_all add: act_simps stay_def)
  have c1: "state (abs_ring c) = RING_STATE_PENDING" "prev_request (abs_ring c) = RING_REQ_RAPS_NR_RB"
    "guard_timer (abs_ring c) = guard_timer (abs_ring r)" "\<not> blocked q (abs_ring c)" for q
    using a1(5) [of q] unfolding c(3) after_sel(1-3) after_blocked after_timers(1) e2
    by (simp_all add: blocked_after_def timer_after_def a1(4))
  have "prev_request_remote_node_id (abs_ring c) = n"
    using assms(2) by (simp add: c(3) after_def Let_def act_simps fsm_save_def)
  note keep = request_keeps_cfg [OF reachable_inv [OF r(1)] v a(1)] request_keeps_cfg [OF reachable_inv [OF a(2)] v c(1)]
  show thesis
    by (rule that [of c]) (use c1 c(2) keep r(2,4-6) \<open>prev_request_remote_node_id (abs_ring c) = n\<close> in
      \<open>simp_all add: abs_blocked sim_simps\<close>)
qed

lemma reversion_reaches_ring_witness:
  "\<exists>(t :: sim_ring) a b rs. \<not> s_is_rpl_owner a \<and> s_state a = RING_STATE_PENDING \<and> s_state b = RING_STATE_PENDING \<and>
     travel 99 (s_raps_frame t) [(PORT0, a), (PORT0, b)] = Inr (rs, True) \<and> hop 99 (s_raps_frame t) PORT1 t = Inr (t, False) \<and>
     (\<exists>a'. rs = [a', b] \<and> s_state a' = RING_STATE_IDLE)"
proof -
  have six: "length [1, 1, 1, 1, 1, 1 :: u8] = 6" "length [2, 2, 2, 2, 2, 2 :: u8] = 6" "length [3, 3, 3, 3, 3, 3 :: u8] = 6"
    by simp_all
  obtain t where t: "ring_reachable t" "s_node_id t = [1, 1, 1, 1, 1, 1]" "ri_request (s_raps t) = RAPS_REQ_NR"
    "ri_flags (s_raps t) AND RAPS_FLAG_RB \<noteq> 0"
    by (rule sample_reverted [OF six(1)])
  obtain a where a: "ring_reachable a" "s_node_id a = [2, 2, 2, 2, 2, 2]" "s_state a = RING_STATE_PENDING"
    "\<not> s_guard_timer_active a" "\<not> s_is_rpl_owner a" "s_rpl_port a = Some PORT1" "s_prev_request a = RING_REQ_INVALID"
    by (rule sample_waiting [OF six(2), of False]) blast
  obtain b where b: "ring_reachable b" "s_node_id b = [3, 3, 3, 3, 3, 3]" "s_state b = RING_STATE_PENDING"
    "\<not> s_guard_timer_active b" "\<not> s_is_rpl_owner b" "s_rpl_port b = Some PORT1" "s_prev_request b = RING_REQ_RAPS_NR_RB"
    "s_prev_request_remote_node_id b = [1, 1, 1, 1, 1, 1]" "\<not> sp_is_blocked (sim_get_port PORT0 b)"
    by (rule sample_repeats [OF six(3,1)]) blast
  have rep: "\<not> repeats t a" "repeats t b" using a(7) b(7,8) t(2) by (simp_all add: repeats_def)
  have "\<exists>rs. travel 99 (s_raps_frame t) [(PORT0, a), (PORT0, b)] = Inr (rs, True) \<and> hop 99 (s_raps_frame t) PORT1 t = Inr (t, False) \<and>
    list_all2 (\<lambda>(p, r) r'. if repeats t r then r' = r else reverted r r') [(PORT0, a), (PORT0, b)] rs"
    by (rule reversion_reaches_ring [OF t(1,3,4)]) (use a b t(2) rep in auto)
  then obtain rs where rs: "travel 99 (s_raps_frame t) [(PORT0, a), (PORT0, b)] = Inr (rs, True)"
    "hop 99 (s_raps_frame t) PORT1 t = Inr (t, False)" "\<exists>a'. rs = [a', b] \<and> s_state a' = RING_STATE_IDLE"
    using rep by (fastforce simp: list_all2_Cons1 reverted_def)
  with a(3,5) b(3) show ?thesis by blast
qed

end
