(* ===== verification/Spec2Isabelle.thy ===== *)
theory Spec2Isabelle
  imports Module Ctl SimNetwork
begin

text \<open>
  A verification library for ERPS, an implementation of Ethernet ring protection switching
  (ITU-T G.8032) as a FreeBSD kernel module on top of netmap's VALE bridge, with its control tool
  and a user-space simulator of the same protocol.

  The programs. Each ring node of the module is a ring object (\<^verbatim>\<open>struct er_ring\<close>) with two ports. The
  bridge hands every frame to \<^verbatim>\<open>er_netmap_on_recv\<close>, which asks \<^verbatim>\<open>er_forward_lookup\<close> whether to
  forward it; R-APS frames are parsed and become requests, \<^verbatim>\<open>ring_process_request\<close> compares a
  request with the standing local one, and \<^verbatim>\<open>ring_fsm\<close> walks the rows of table 10-2: it blocks and
  opens ports, changes the announced message and starts and stops timers. The device \<^verbatim>\<open>/dev/erps\<close>
  creates the ring and reports on it; \<^verbatim>\<open>erps-ctl\<close> turns a command line into its ioctls. The
  simulator's daemon \<^verbatim>\<open>ringd\<close> runs an earlier copy of the machine over libpcap, with timers and
  transmission driven by an event loop and commands taken from a socket that \<^verbatim>\<open>ring-ctl\<close> writes to.

  The theories of the module, in the order they build on each other. Their paths are relative to
  \<^verbatim>\<open>src/src/sys/dev/erps/\<close>.

  \<^item> \<^verbatim>\<open>Prelude\<close>: C integers, results that can fault (NULL dereference, access out of bounds, a failed
    assertion, an exit), statement lists, buffers and character arrays; transition systems with
    \<open>reach\<close> and \<open>run\<close>, and the locales \<open>machine\<close>, \<open>safe_machine\<close> and \<open>implements\<close> through which every
    invariant is proved.
  \<^item> \<^verbatim>\<open>Raps\<close> (\<^verbatim>\<open>er_raps.c\<close>, \<^verbatim>\<open>er_raps.h\<close>, macros of \<^verbatim>\<open>stdafx.h\<close>): the R-APS frame. The byte
    layout is a reference definition, encoder and parser are proved equal to it, and the locale
    \<open>frame_codec\<close>, interpreted on them, gives the round trip.
  \<^item> \<^verbatim>\<open>Kernel\<close> (\<^verbatim>\<open>stdafx.c\<close>, \<^verbatim>\<open>stdafx.h\<close>): the functions the module imports, as a record over an
    abstract kernel state, the tick arithmetic in 32 bits, and a recording kernel for examples.
  \<^item> \<^verbatim>\<open>Port\<close> (\<^verbatim>\<open>er_port.h\<close>, state operations of \<^verbatim>\<open>er_port.c\<close>) and \<^verbatim>\<open>Ring\<close> (\<^verbatim>\<open>er_ring.h\<close>,
    \<^verbatim>\<open>er_ring.c\<close> lines 17--159): the data and the actions.
  \<^item> \<^verbatim>\<open>Fsm\<close> (\<^verbatim>\<open>er_ring.c\<close> lines 163--832): the state machine, one function per state and one
    equation per \<^verbatim>\<open>case\<close>.
  \<^item> \<^verbatim>\<open>Actions\<close>: the actions in closed form; the two ports through the locale \<open>port_pair\<close>.
  \<^item> \<^verbatim>\<open>G8032\<close>: the specification of the machine, request by request, as effects on ports, message
    and timers, and the proof that the code refines it.
  \<^item> \<^verbatim>\<open>Request\<close> (\<^verbatim>\<open>er_ring.c\<close> lines 983--1086): the priority logic, the invariant \<open>ring_inv\<close>, and the
    ring as a \<open>safe_machine\<close>.
  \<^item> \<^verbatim>\<open>Protection\<close>: what the ring promises: refinement of the table, safety of all reachable rings,
    reversion, the cycle of a failure, and where the code departs from its purpose: a
    repeated CLEAR or NR,RB that is dropped although it is needed, a failure that masks another.
  \<^item> \<^verbatim>\<open>Frames\<close> (\<^verbatim>\<open>er_ring.c\<close> lines 1103--1149, 1181--1263, \<^verbatim>\<open>er_netmap_on_recv\<close>): from a received
    frame to the request, guard timer, memory, and what is forwarded.
  \<^item> \<^verbatim>\<open>Netmap\<close> (\<^verbatim>\<open>er_netmap.c\<close>, creation and destruction in \<^verbatim>\<open>er_port.c\<close>) and \<^verbatim>\<open>Lifecycle\<close>
    (\<^verbatim>\<open>er_ring.c\<close> lines 834--966, 1151--1179, 1251--1258): ports and rings from creation to
    destruction, with the order of kernel calls and every failure path.
  \<^item> \<^verbatim>\<open>Ioctl\<close> (\<^verbatim>\<open>erps.c\<close>, \<^verbatim>\<open>src/src/sys/net/erps.h\<close>) and \<^verbatim>\<open>Module\<close>: the device, the module events,
    and the whole module as a \<open>safe_machine\<close>.
  \<^item> This theory: two nodes.

  The control tool (\<^verbatim>\<open>src/src/usr.sbin/erps-ctl/erps-ctl.c\<close>).

  \<^item> \<^verbatim>\<open>Libc\<close>: \<^verbatim>\<open>getopt\<close> with its position inside the argument vector, the option loop around it, and
    \<^verbatim>\<open>sscanf\<close> of a node id. The loop is a \<open>partial_function\<close>; that it returns is proved from the
    characters left to scan.
  \<^item> \<^verbatim>\<open>Ctl\<close>: the tool, as a function of its arguments, of what its uninitialised array holds, and of
    an ioctl. Every run ends, every request is well-formed, the commands are refused, status is
    printed as the module holds it, and a command line becomes the ring it describes whenever
    the module can create one, up to what the tool and the module lose on the way.

  The simulator (\<^verbatim>\<open>src/extras/sim/\<close>).

  \<^item> \<^verbatim>\<open>SimRing\<close> (\<^verbatim>\<open>ring_port.c\<close>, \<^verbatim>\<open>ring_raps.c\<close>, \<^verbatim>\<open>ring.h\<close>, \<^verbatim>\<open>ring.c\<close> lines 39--134) and \<^verbatim>\<open>SimFsm\<close>
    (\<^verbatim>\<open>ring.c\<close> lines 138--805, 889--982): data, actions, machine and priority logic, translated from
    the simulator's own source.
  \<^item> \<^verbatim>\<open>SimRefines\<close>: the abstraction to the module's ring, with which every statement and every row
    commutes; the one difference is where the simulator exits.
  \<^item> \<^verbatim>\<open>SimNode\<close> (\<^verbatim>\<open>ring.c\<close> lines 807--887, 985--1041, callbacks of \<^verbatim>\<open>ringd.c\<close>) and \<^verbatim>\<open>SimDaemon\<close>
    (\<^verbatim>\<open>ring_io.c\<close>, \<^verbatim>\<open>ringd.c\<close>, \<^verbatim>\<open>ring-ctl.c\<close>): creation, timers, reception, transmission, the control
    socket, the command line of the daemon, and the client.
  \<^item> \<^verbatim>\<open>SimMachine\<close>: the daemon as a machine with steps for frames, timer callbacks, transmissions and
    control messages. The locale \<open>ring_kept\<close> says which properties of a ring survive every step;
    its instances make the daemon an instance of \<open>implements\<close> over the ring machine.
  \<^item> \<^verbatim>\<open>SimProps\<close>: the daemon starts as its command line says, never blocks both ports, and recovers
    from a failure by its timer. \<^verbatim>\<open>SimEvents\<close>: frames between daemons, bursts, cut control messages, and
    everything that can stop a running daemon.
  \<^item> \<^verbatim>\<open>SimNetwork\<close>: one frame on its way around a ring of daemons. The wires are the theory's own, a
    fixed instance of the packet library that delivers what the neighbour injects. A signal fail
    opens all nodes; reversion brings all pending ones to IDLE except those that became pending by
    the same message, which they drop.

  Conventions. A C function that can dereference NULL or leave a buffer returns \<open>fault + 'a\<close>, so
  that \<open>Inr\<close> in a conclusion says that it does not. Objects are passed and returned by value; the
  code never has two live pointers to the same ring, and the only pointer into a buffer (the node
  id of a parsed message) is an offset. A handler runs at one value of \<^verbatim>\<open>ticks\<close>, or of the
  simulator's clock. Handlers are atomic: the module takes the ring mutex nowhere but in
  \<^verbatim>\<open>er_activate_ring\<close>, the simulator's worker thread takes no lock, and the races this permits are
  outside the model. No fuel is needed: the module loops only to log the request names, and the
  option loops are proved to end.

  Not modelled: logging (the dereferences its arguments make are), usage texts, the empty device
  methods, the branches under \<^verbatim>\<open>FBSD12\<close>, which no build file defines, the benchmark bridge, which is
  netmap's example program, and the event loop of the daemon, which is libev's and which no
  callback leaves. libpcap, the allocators, netmap and the system calls are parameters. Frames are
  never transmitted by the module (the callout that would do it is commented out), and no timer
  ever expires in it; the requests WTR and WTB EXPIRES, SF, CLEAR SF, MS, FS and CLEAR are handled
  by its machine but raised by none of its code. The properties of \<^verbatim>\<open>Protection\<close> cover them all the
  same, and the simulator raises all of them but WTB EXPIRES.
\<close>

section \<open>Two nodes\<close>

text \<open>No event changes the node id of a ring.\<close>

lemma ring_step_node_id:
  assumes "ring_step r ev r'" and "ring_inv r"
  shows "node_id r' = node_id r"
  using assms(1)
proof cases
  case (step_request req port nid now)
  then have "r' = after now r req port nid \<or> r' = r"
    using ring_process_request_refines [OF assms(2), of req port nid now] by (auto split: if_splits)
  then show ?thesis
    using after_cfg [of now r req port nid] by (auto simp: ring_cfg_def)
qed (simp_all add: configure_def act_simps)

lemma run_node_id: "run ring_step r evs r' \<Longrightarrow> ring_inv r \<Longrightarrow> ring_inv r' \<and> node_id r' = node_id r"
proof (induction rule: run.induct)
  case (run_cons r ev t es u)
  then show ?case using ring_step_node_id ring_step_inv by fastforce
qed simp

lemma init_node_id:
  assumes "er_ioctl api now ERIOCINIT (Some req) None s = Inr (e, d, Some r, s')"
  shows "ring_inv r" "node_id r = replicate 6 0"
proof -
  have i: "er_ioctl_init api now req None s = Inr (e, Some r, s')"
    using assms by (auto simp: er_ioctl_def bind_res_Inr_iff)
  obtain r0 s0 o' n where r: "r = (configure_ring req r0)\<lparr>active := True\<rparr>" "\<not> (o' \<noteq> 0 \<and> n \<noteq> 0)"
    and c: "er_ring_create api now (ucast (er_id req)) (er_port0 req) (er_port1 req) o' n (er_node_id req) s
      = Inr (Some r0, s0)"
    by (rule er_ioctl_init_ring [OF i])
  show "ring_inv r"
    using ring_started_inv [OF created_ring_inv(1) [OF c r(2)]] unfolding r(1) configure_ring_eq ring_inv_update .
  obtain a a0 p0 a1 p1 ra fa where "r0 = started now (ring_ready a (ucast (er_id req)) (a0, p0) (a1, p1) o' n ra fa)"
    by (rule er_ring_create_Some [OF c r(2)])
  then show "node_id r = replicate 6 0"
    by (simp add: r(1) configure_ring_eq configure_def started_sel ring_ready_sel)
qed

text \<open>Claim C22: two nodes that are brought up through the device, with whatever node ids, never hear
  each other. The configured node id does not reach the ring, so both carry the id 0, and at any
  later time each takes the other's R-APS frame for its own echo and drops it: no request is
  made, nothing is forwarded, and the ring does not change.\<close>

theorem configured_nodes_are_deaf:
  assumes "er_ioctl api1 now1 ERIOCINIT (Some req1) None s1 = Inr (e1, d1, Some r1, s1')"
    and "er_ioctl api2 now2 ERIOCINIT (Some req2) None s2 = Inr (e2, d2, Some r2, s2')"
    and "run ring_step r1 evs1 t1" and "run ring_step r2 evs2 t2"
  shows "er_forward_lookup api now t2 (Some p) (raps_frame t1) (raps_frame_len t1) s = Inr (False, t2, s)"
proof -
  from run_node_id [OF assms(3) init_node_id(1) [OF assms(1)]]
  have t1: "ring_inv t1" "node_id t1 = replicate 6 0" using init_node_id(2) [OF assms(1)] by simp_all
  from run_node_id [OF assms(4) init_node_id(1) [OF assms(2)]]
  have t2: "node_id t2 = replicate 6 0" using init_node_id(2) [OF assms(2)] by simp
  have n: "length (replicate 6 (0 :: u8)) = 6" by simp
  let ?d = "raps_bytes (raps t1) (replicate 6 0)"
  have f: "raps_frame t1 = ?d" "raps_frame_len t1 = 55"
    using t1 by (simp_all add: ring_inv_def ring_ok_def tx_coherent_def)
  have d: "length ?d = 55" "take 5 ?d = RAPS_DST" "frame_sender ?d = replicate 6 0"
    using raps_bytes_append(1,3,4) [OF n, of "raps t1" "[]"] by (simp_all add: frame_sender_def)
  have "er_is_raps_frame ?d 55 = Inr True" using er_is_raps_frame_eq [of 55 ?d] d by simp
  then show ?thesis
    unfolding f using er_forward_lookup_raps [of 55 ?d t2 api now p s] d t2 by simp
qed

lemma configured_nodes_are_deaf_witness:
  "\<exists>(r1 :: er_ring) r2. is_rpl_owner r1 \<and> \<not> is_rpl_owner r2 \<and>
     er_forward_lookup sample_api 9 r2 (Some PORT0) (raps_frame r1) (raps_frame_len r1) sample_kstate =
       Inr (False, r2, sample_kstate)"
proof -
  let ?peer = "sample_req\<lparr>er_node_id := [3,3,3,3,3,3], er_rpl_owner := 0, er_rpl_port := 0\<rparr>"
  have "case er_ioctl sample_api 0 ERIOCINIT (Some sample_req) None sample_kstate of
      Inr (_, _, Some r, s') \<Rightarrow> is_rpl_owner r | _ \<Rightarrow> False" by code_simp
  then obtain e1 d1 r1 s1 where r1: "is_rpl_owner r1"
    "er_ioctl sample_api 0 ERIOCINIT (Some sample_req) None sample_kstate = Inr (e1, d1, Some r1, s1)"
    by (auto split: sum.splits option.splits)
  have "case er_ioctl sample_api 0 ERIOCINIT (Some ?peer) None sample_kstate of
      Inr (_, _, Some r, s') \<Rightarrow> \<not> is_rpl_owner r | _ \<Rightarrow> False" by code_simp
  then obtain e2 d2 r2 s2 where r2: "\<not> is_rpl_owner r2"
    "er_ioctl sample_api 0 ERIOCINIT (Some ?peer) None sample_kstate = Inr (e2, d2, Some r2, s2)"
    by (auto split: sum.splits option.splits)
  have "er_forward_lookup sample_api 9 r2 (Some PORT0) (raps_frame r1) (raps_frame_len r1) sample_kstate =
       Inr (False, r2, sample_kstate)"
    by (rule configured_nodes_are_deaf [OF r1(2) r2(2) run_nil run_nil])
  with r1(1) r2(1) show ?thesis by blast
qed

end
